(* ===== verification/Nwoas_Prelude.thy ===== *)
theory Nwoas_Prelude
  imports Main "HOL-Library.Word"
begin

unbundle bit_operations_syntax

text \<open>
  Shared vocabulary of the development: the C integer types, the little-endian byte codec
  that several components implement in their own helper functions, and the generic word
  lemmas the component proofs use.

  \<^item> \<open>le_word\<close> and \<open>le_bytes\<close> are the reference codec. Every C reader or writer of a
    little-endian field (\<open>rd_le32\<close>, \<open>le32\<close>, \<open>get16\<close>, \<open>put\<close>, \<open>put32\<close> and
    their kin) is proved equal to it in the theory that models it.
  \<^item> \<open>word_nat\<close> collects the facts that carry a computation on words over to natural
    numbers when no operation of it wraps around.
\<close>

named_theorems word_nat \<open>homomorphism facts from natural numbers to words\<close>

type_synonym u8 = "8 word"
type_synonym u16 = "16 word"
type_synonym u32 = "32 word"
type_synonym u64 = "64 word"
type_synonym bytes = "8 word list"

section \<open>Words that do not wrap\<close>

lemma word_of_nat_add [word_nat]:
  "(word_of_nat a :: 'a::len word) + word_of_nat b = word_of_nat (a + b)"
  by simp

lemma word_of_nat_mult [word_nat]:
  "(word_of_nat a :: 'a::len word) * word_of_nat b = word_of_nat (a * b)"
  by simp

lemma word_of_nat_diff [word_nat]:
  "b \<le> a \<Longrightarrow> (word_of_nat a :: 'a::len word) - word_of_nat b = word_of_nat (a - b)"
  by (simp add: of_nat_diff)

lemma unat_of_nat_small [word_nat]:
  "a < 2 ^ LENGTH('a) \<Longrightarrow> unat (word_of_nat a :: 'a::len word) = a"
  by (simp add: unat_of_nat take_bit_nat_eq_self)

lemma word_of_nat_div [word_nat]:
  assumes "a < 2 ^ LENGTH('a)" and "b < 2 ^ LENGTH('a)"
  shows "(word_of_nat a :: 'a::len word) div word_of_nat b = word_of_nat (a div b)"
proof (rule word_unat_eq_iff [THEN iffD2])
  have "a div b < 2 ^ LENGTH('a)"
    using assms(1) by (meson div_le_dividend le_less_trans)
  then show "unat ((word_of_nat a :: 'a word) div word_of_nat b)
      = unat (word_of_nat (a div b) :: 'a word)"
    using assms by (simp add: unat_div unat_of_nat_small)
qed

lemma word_of_nat_less_small [word_nat]:
  "a < 2 ^ LENGTH('a) \<Longrightarrow> b < 2 ^ LENGTH('a) \<Longrightarrow>
   (word_of_nat a :: 'a::len word) < word_of_nat b \<longleftrightarrow> a < b"
  by (simp add: word_less_nat_alt unat_of_nat_small)

lemma word_of_nat_le_small [word_nat]:
  "a < 2 ^ LENGTH('a) \<Longrightarrow> b < 2 ^ LENGTH('a) \<Longrightarrow>
   (word_of_nat a :: 'a::len word) \<le> word_of_nat b \<longleftrightarrow> a \<le> b"
  by (simp add: word_le_nat_alt unat_of_nat_small)

lemma unat_add_small:
  "unat a + unat b < 2 ^ LENGTH('a) \<Longrightarrow> unat (a + b :: 'a::len word) = unat a + unat b"
  by (simp add: unat_word_ariths)

lemma unat_mult_small:
  "unat a * unat b < 2 ^ LENGTH('a) \<Longrightarrow> unat (a * b :: 'a::len word) = unat a * unat b"
  by (simp add: unat_word_ariths)

lemma word_of_unat_eq: "unat w = n \<Longrightarrow> w = word_of_nat n"
  by auto

lemma unat_diff_small:
  "(b :: 'a::len word) \<le> a \<Longrightarrow> unat (a - b) = unat a - unat b"
  by (rule unat_sub)

lemma word_le_max_minus:
  "(a :: 'a::len word) \<le> -1 - b \<longleftrightarrow> unat a + unat b < 2 ^ LENGTH('a)"
proof -
  have "unat (-1 - b) = 2 ^ LENGTH('a) - 1 - unat b"
    by (simp add: unat_diff_small unsigned_minus_1_eq_mask mask_eq_exp_minus_1)
  moreover have "unat b < 2 ^ LENGTH('a)" by simp
  ultimately show ?thesis
    unfolding word_le_nat_alt by linarith
qed

lemma ucast_word_of_nat_unat: "(ucast w :: 'b::len word) = word_of_nat (unat (w :: 'a::len word))"
  by simp

lemma unat_ucast_small:
  "unat (w :: 'a::len word) < 2 ^ LENGTH('b) \<Longrightarrow> unat (ucast w :: 'b::len word) = unat w"
  by (simp add: unsigned_ucast_eq unsigned_take_bit_eq take_bit_nat_eq_self)

lemma uint_and_mask: "uint (w AND mask n) = uint (w :: 'a::len word) mod 2 ^ n"
  by (simp add: unsigned_take_bit_eq flip: take_bit_eq_mask take_bit_eq_mod)

lemma unat_and_mask: "unat (w AND mask n) = unat (w :: 'a::len word) mod 2 ^ n"
  by (simp add: unsigned_take_bit_eq flip: take_bit_eq_mask take_bit_eq_mod)

lemma unat_drop: "unat (drop_bit n x) = unat (x :: 'a::len word) div 2 ^ n"
  unfolding unat_drop_bit_eq by (rule drop_bit_eq_div)

lemma unat_take: "unat (take_bit n x) = unat (x :: 'a::len word) mod 2 ^ n"
  unfolding unsigned_take_bit_eq by (rule take_bit_eq_mod)

lemma unat_push_small:
  assumes "unat (x :: u64) * 2 ^ n < 2 ^ 64"
  shows "unat (push_bit n x) = unat x * 2 ^ n"
  using assms unfolding unsigned_push_bit_eq push_bit_nat_def by (simp add: take_bit_nat_eq_self)

lemma unat_and_not_mask: "unat ((x :: u64) AND NOT (mask n)) = unat x div 2 ^ n * 2 ^ n"
proof -
  have "x AND NOT (mask n) = push_bit n (drop_bit n x)"
    by (rule bit_word_eqI) (auto simp: bit_simps)
  moreover have "unat x div 2 ^ n * 2 ^ n < 2 ^ 64"
  proof -
    have "unat x < 2 ^ LENGTH(64)" by (rule unsigned_less)
    then show ?thesis using le_less_trans [OF div_times_less_eq_dividend [of "unat x" "2 ^ n"]] by simp
  qed
  ultimately show ?thesis by (simp only: unat_push_small unat_drop)
qed

lemma unat_align_mask:
  assumes "unat x + (2 ^ n - 1) < 2 ^ 64"
  shows "unat x \<le> unat ((x + mask n) AND NOT (mask n) :: u64)" and "2 ^ n dvd unat ((x + mask n) AND NOT (mask n) :: u64)"
    and "unat ((x + mask n) AND NOT (mask n) :: u64) < unat x + 2 ^ n"
proof -
  have "mask n = (word_of_nat (2 ^ n - 1) :: u64)" by (simp add: mask_eq_exp_minus_1 of_nat_diff)
  moreover have "unat (word_of_nat (2 ^ n - 1) :: u64) = 2 ^ n - 1" by (rule unat_of_nat_small) (use assms in simp)
  ultimately have "unat (mask n :: u64) = 2 ^ n - 1" by (simp only:)
  then have "unat (x + mask n) = unat x + (2 ^ n - 1)" using assms by (simp add: unat_add_small)
  then have u: "unat ((x + mask n) AND NOT (mask n)) = (unat x + (2 ^ n - 1)) div 2 ^ n * 2 ^ n"
    by (simp add: unat_and_not_mask)
  show "2 ^ n dvd unat ((x + mask n) AND NOT (mask n))" by (simp add: u)
  have "unat x + (2 ^ n - 1) = (unat x + (2 ^ n - 1)) div 2 ^ n * 2 ^ n + (unat x + (2 ^ n - 1)) mod 2 ^ n"
    by (rule div_mult_mod_eq [symmetric])
  moreover have "(unat x + (2 ^ n - 1)) mod 2 ^ n < 2 ^ n" by simp
  ultimately show "unat x \<le> unat ((x + mask n) AND NOT (mask n))" unfolding u by linarith
  have "(unat x + (2 ^ n - 1)) div 2 ^ n * 2 ^ n \<le> unat x + (2 ^ n - 1)" by (rule div_times_less_eq_dividend)
  then show "unat ((x + mask n) AND NOT (mask n)) < unat x + 2 ^ n" unfolding u by (rule le_less_trans) simp
qed

lemma signed_residue:
  fixes x :: int
  assumes "- (2 ^ n) \<le> x" and "x < 2 ^ n"
  shows "(let t = x mod (2 * 2 ^ n) in if t < 2 ^ n then t else t - 2 * 2 ^ n) = x"
proof (cases "0 \<le> x")
  case True
  then show ?thesis using assms by (simp add: Let_def)
next
  case False
  have "x mod (2 * 2 ^ n) = (x + 2 * 2 ^ n) mod (2 * 2 ^ n)" by simp
  also have "\<dots> = x + 2 * 2 ^ n" using assms False by (intro mod_pos_pos_trivial) auto
  finally show ?thesis using assms False by (simp add: Let_def)
qed

lemma take_bit_32_ucast: "take_bit 32 (ucast (x :: u32) :: u64) = ucast x"
  by (rule bit_word_eqI) (auto simp: bit_simps dest: bit_imp_le_length)

lemma and_1_bit0: "(w :: 'a::len word) AND 1 = 0 \<longleftrightarrow> \<not> bit w 0"
  by (simp add: and_one_eq bit_0 even_iff_mod_2_eq_zero)

lemma and_1_ucast: "(ucast (v :: u64) :: u32) AND 1 = 0 \<longleftrightarrow> v AND 1 = 0"
  by (simp only: and_1_bit0) (simp add: bit_simps)

lemma and_mask_not: "(x AND k) AND NOT k = (0 :: 'a::len word)"
  by (rule bit_word_eqI) (simp add: bit_simps)

section \<open>Little-endian byte codec\<close>

definition le_bytes :: "nat \<Rightarrow> 'a::len word \<Rightarrow> bytes" where
  "le_bytes n v = map (\<lambda>i. ucast (drop_bit (8 * i) v)) [0..<n]"

fun le_word :: "bytes \<Rightarrow> 'a::len word" where
  "le_word [] = 0"
| "le_word (b # bs) = ucast b OR push_bit 8 (le_word bs)"

lemma length_le_bytes [simp]: "length (le_bytes n v) = n"
  by (simp add: le_bytes_def)

lemma le_bytes_nth [simp]: "i < n \<Longrightarrow> le_bytes n v ! i = ucast (drop_bit (8 * i) v)"
  by (simp add: le_bytes_def)

lemma bit_le_word:
  "bit (le_word bs :: 'a::len word) k \<longleftrightarrow>
     k < LENGTH('a) \<and> k < 8 * length bs \<and> bit (bs ! (k div 8)) (k mod 8)"
proof (induction bs arbitrary: k)
  case Nil
  then show ?case by simp
next
  case (Cons b bs)
  show ?case
  proof (cases "k < 8")
    case True
    then show ?thesis by (auto simp: bit_simps)
  next
    case False
    then have "k div 8 = Suc ((k - 8) div 8)" and "k mod 8 = (k - 8) mod 8"
      by (simp_all add: le_div_geq le_mod_geq)
    moreover have "\<not> bit b k" using False by (simp add: bit_word.rep_eq)
    ultimately show ?thesis using False Cons.IH [of "k - 8"] by (auto simp: bit_simps)
  qed
qed

lemma le_word_le_bytes: "le_word (le_bytes n v) = take_bit (8 * n) (v :: 'a::len word)"
proof (rule bit_word_eqI)
  fix k assume "k < LENGTH('a)"
  then show "bit (le_word (le_bytes n v) :: 'a word) k = bit (take_bit (8 * n) v) k"
    by (auto simp: bit_le_word bit_simps)
qed

lemma le_word_roundtrip:
  "LENGTH('a) \<le> 8 * n \<Longrightarrow> le_word (le_bytes n v) = (v :: 'a::len word)"
  by (simp add: le_word_le_bytes take_bit_word_eq_self)

lemma le_bytes_roundtrip:
  assumes "8 * length bs \<le> LENGTH('a)"
  shows "le_bytes (length bs) (le_word bs :: 'a::len word) = bs"
proof (rule nth_equalityI)
  fix i assume "i < length (le_bytes (length bs) (le_word bs :: 'a word))"
  then have i: "i < length bs" by simp
  show "le_bytes (length bs) (le_word bs :: 'a word) ! i = bs ! i"
  proof (rule bit_word_eqI)
    fix k assume "k < LENGTH(8)"
    then have "k < 8" by simp
    then have "8 * i + k < LENGTH('a)" and "8 * i + k < 8 * length bs"
      using assms i by linarith+
    then show "bit (le_bytes (length bs) (le_word bs :: 'a word) ! i) k = bit (bs ! i) k"
      using i \<open>k < 8\<close> by (simp add: bit_simps bit_le_word)
  qed
qed simp

lemma take_4_conv:
  "4 \<le> length p \<Longrightarrow> take 4 p = [p ! 0, p ! 1, p ! 2, p ! 3]"
  by (auto simp: list_eq_iff_nth_eq less_Suc_eq numeral_eq_Suc)

text \<open>The expression every C reader of a 32-bit field writes out.\<close>

lemma le_word_4:
  assumes "4 \<le> length p"
  shows "(ucast (p ! 0) :: u32) OR push_bit 8 (ucast (p ! 1)) OR push_bit 16 (ucast (p ! 2))
           OR push_bit 24 (ucast (p ! 3)) = le_word (take 4 p)"
proof -
  have "(push_bit 8 (push_bit 8 x) :: u32) = push_bit 16 x" and
       "(push_bit 8 (push_bit 16 x) :: u32) = push_bit 24 x" for x
    by (simp_all add: push_bit_push_bit)
  then show ?thesis
    using assms by (simp add: take_4_conv push_bit_or or.assoc)
qed

lemma le_word_append:
  "le_word (xs @ ys) = (le_word xs :: 'a::len word) OR push_bit (8 * length xs) (le_word ys)"
  by (induction xs) (simp_all add: push_bit_or push_bit_push_bit or.assoc add.commute)

lemma ucast_le_word:
  assumes "8 * length bs \<le> LENGTH('a)"
  shows "ucast (le_word bs :: 'a::len word) = (le_word bs :: 'b::len word)"
  using assms by (intro bit_word_eqI) (auto simp: bit_ucast_iff bit_le_word)

lemma foldl_le_word:
  "foldl (\<lambda>v i. v OR push_bit (8 * i) (ucast (g i))) 0 [0..<n] = (le_word (map g [0..<n]) :: 'a::len word)"
  by (induction n) (simp_all add: le_word_append)

lemma le_word_8:
  assumes "8 \<le> length p"
  shows "(ucast (le_word (take 4 p) :: u32) :: u64) OR push_bit 32 (ucast (le_word (take 4 (drop 4 p)) :: u32))
           = le_word (take 8 p)"
proof -
  have "take 8 p = take 4 p @ take 4 (drop 4 p)" by (simp add: take_drop [symmetric] flip: take_add)
  then show ?thesis using assms by (simp add: le_word_append ucast_le_word min_def)
qed

lemma le_bytes_take:
  assumes "n \<le> length p" and "8 * n \<le> LENGTH('a)"
  shows "le_bytes n (le_word (take n p) :: 'a::len word) = take n p"
  using le_bytes_roundtrip [of "take n p", where 'a = 'a] assms by (simp add: min_absorb2)

text \<open>
  The contract of a fixed-width little-endian reader.  Each C file carries its own copy of such a
  helper; the locale states what its callers rely on.
\<close>

locale le_reader =
  fixes rd :: "bytes \<Rightarrow> 'a::len word" and n :: nat
  assumes rd_eq: "n \<le> length p \<Longrightarrow> rd p = le_word (take n p)"
    and width: "LENGTH('a) = 8 * n"
begin

lemma read_written: "rd (le_bytes n v @ q) = v"
  using rd_eq [of "le_bytes n v @ q"] width by (simp add: le_word_roundtrip)

lemma written_read: "n \<le> length p \<Longrightarrow> le_bytes n (rd p) = take n p"
  using width by (simp add: rd_eq le_bytes_take)

lemma read_inject:
  assumes "n \<le> length p" and "n \<le> length q"
  shows "rd p = rd q \<longleftrightarrow> take n p = take n q"
  using assms written_read by (metis rd_eq)

end

end
