(* ===== verification/Rtc_Seed.thy ===== *)
theory Rtc_Seed
  imports Nwoas_Prelude
begin

text \<open>
  The boot-seeded clock core, \<^verbatim>\<open>NwoasHardwareBootRtcLib/NwoasRtcSeedCore.c\<close> and its header
  (under \<^verbatim>\<open>firmware-s216\<close>): decoding and validating the 32-byte seed, advancing it with the
  physical counter, and the conversions between Unix seconds and calendar fields.

  A pointer argument that the C code compares with NULL is an \<open>option\<close>; an output
  parameter is passed in and handed back, so that what the code stores on an error path is
  part of the result.  Integers keep their C width.
\<close>

section \<open>Types and constants\<close>

datatype nwoas_rtc_status_t =
    NWOAS_RTC_OK
  | NWOAS_RTC_E_ARG
  | NWOAS_RTC_E_SIZE
  | NWOAS_RTC_E_MAGIC
  | NWOAS_RTC_E_VERSION
  | NWOAS_RTC_E_FLAGS
  | NWOAS_RTC_E_FREQ
  | NWOAS_RTC_E_FREQ_MISMATCH
  | NWOAS_RTC_E_EPOCH_RANGE
  | NWOAS_RTC_E_UNDERFLOW
  | NWOAS_RTC_E_OVERFLOW
  | NWOAS_RTC_E_CALENDAR
  | NWOAS_RTC_E_NOT_READY

record nwoas_rtc_seed_t =
  seed_magic :: u32
  seed_version :: u32
  seed_epoch :: u64
  seed_cntpct :: u64
  seed_cntfrq :: u32
  seed_flags :: u32

record nwoas_rtc_calendar_t =
  cal_year :: u16
  cal_month :: u8
  cal_day :: u8
  cal_hour :: u8
  cal_minute :: u8
  cal_second :: u8
  cal_nanosecond :: u32
  cal_timezone :: "16 word"
  cal_daylight :: u8

abbreviation NWOAS_RTC_SEED_MAGIC :: u32 where "NWOAS_RTC_SEED_MAGIC \<equiv> 0x4E525443"
abbreviation NWOAS_RTC_SEED_VERSION :: u32 where "NWOAS_RTC_SEED_VERSION \<equiv> 1"
abbreviation NWOAS_RTC_SEED_SIZE :: nat where "NWOAS_RTC_SEED_SIZE \<equiv> 32"
abbreviation NWOAS_RTC_SEED_FLAG_VALID :: u32 where "NWOAS_RTC_SEED_FLAG_VALID \<equiv> 1"
abbreviation NWOAS_RTC_SEED_FLAG_SPMI :: u32 where "NWOAS_RTC_SEED_FLAG_SPMI \<equiv> 2"
abbreviation NWOAS_RTC_SEED_FLAG_SMC :: u32 where "NWOAS_RTC_SEED_FLAG_SMC \<equiv> 4"
abbreviation NWOAS_RTC_SEED_FLAGS_KNOWN :: u32 where
  "NWOAS_RTC_SEED_FLAGS_KNOWN \<equiv>
     NWOAS_RTC_SEED_FLAG_VALID OR NWOAS_RTC_SEED_FLAG_SPMI OR NWOAS_RTC_SEED_FLAG_SMC"
abbreviation NWOAS_RTC_EPOCH_MIN :: u64 where "NWOAS_RTC_EPOCH_MIN \<equiv> 946684800"
abbreviation NWOAS_RTC_EPOCH_MAX :: u64 where "NWOAS_RTC_EPOCH_MAX \<equiv> 4102444799"
abbreviation NWOAS_RTC_YEAR_MIN :: u16 where "NWOAS_RTC_YEAR_MIN \<equiv> 2000"
abbreviation NWOAS_RTC_YEAR_MAX :: u16 where "NWOAS_RTC_YEAR_MAX \<equiv> 2099"
abbreviation NWOAS_RTC_TZ_UNSPECIFIED :: "16 word" where "NWOAS_RTC_TZ_UNSPECIFIED \<equiv> 0x7FF"
abbreviation NWOAS_RTC_TZ_MIN :: "16 word" where "NWOAS_RTC_TZ_MIN \<equiv> - 1440"
abbreviation NWOAS_RTC_TZ_MAX :: "16 word" where "NWOAS_RTC_TZ_MAX \<equiv> 1440"
abbreviation NWOAS_RTC_DAYLIGHT_ADJUST :: u8 where "NWOAS_RTC_DAYLIGHT_ADJUST \<equiv> 1"
abbreviation NWOAS_RTC_DAYLIGHT_IN :: u8 where "NWOAS_RTC_DAYLIGHT_IN \<equiv> 2"
abbreviation NWOAS_RTC_NS_MAX :: u32 where "NWOAS_RTC_NS_MAX \<equiv> 999999999"

section \<open>The seed\<close>

definition rd_le32 :: "bytes \<Rightarrow> u32" where
  "rd_le32 p =
     ucast (p ! 0) OR push_bit 8 (ucast (p ! 1)) OR push_bit 16 (ucast (p ! 2))
       OR push_bit 24 (ucast (p ! 3))"

definition rd_le64 :: "bytes \<Rightarrow> u64" where
  "rd_le64 p = ucast (rd_le32 p) OR push_bit 32 (ucast (rd_le32 (drop 4 p)))"

definition seed_zero :: nwoas_rtc_seed_t where
  "seed_zero = \<lparr>seed_magic = 0, seed_version = 0, seed_epoch = 0, seed_cntpct = 0,
                seed_cntfrq = 0, seed_flags = 0\<rparr>"

definition nwoas_rtc_seed_parse ::
  "bytes option \<Rightarrow> nwoas_rtc_seed_t option \<Rightarrow> nwoas_rtc_status_t \<times> nwoas_rtc_seed_t option" where
  "nwoas_rtc_seed_parse buf out =
     (case out of
        None \<Rightarrow> (NWOAS_RTC_E_ARG, None)
      | Some _ \<Rightarrow>
         (case buf of
            None \<Rightarrow> (NWOAS_RTC_E_ARG, Some seed_zero)
          | Some b \<Rightarrow>
             (if length b \<noteq> NWOAS_RTC_SEED_SIZE then (NWOAS_RTC_E_SIZE, Some seed_zero)
              else
                let s = \<lparr>seed_magic = rd_le32 b,
                         seed_version = rd_le32 (drop 4 b),
                         seed_epoch = rd_le64 (drop 8 b),
                         seed_cntpct = rd_le64 (drop 16 b),
                         seed_cntfrq = rd_le32 (drop 24 b),
                         seed_flags = rd_le32 (drop 28 b)\<rparr>
                in if seed_magic s \<noteq> NWOAS_RTC_SEED_MAGIC then (NWOAS_RTC_E_MAGIC, Some seed_zero)
                   else if seed_version s \<noteq> NWOAS_RTC_SEED_VERSION
                        then (NWOAS_RTC_E_VERSION, Some seed_zero)
                   else if seed_flags s AND NWOAS_RTC_SEED_FLAG_VALID = 0 \<or>
                           seed_flags s AND NOT NWOAS_RTC_SEED_FLAGS_KNOWN \<noteq> 0
                        then (NWOAS_RTC_E_FLAGS, Some seed_zero)
                   else (NWOAS_RTC_OK, Some s))))"

definition nwoas_rtc_seed_validate ::
  "nwoas_rtc_seed_t option \<Rightarrow> u64 \<Rightarrow> nwoas_rtc_status_t" where
  "nwoas_rtc_seed_validate seed live_cntfrq =
     (case seed of
        None \<Rightarrow> NWOAS_RTC_E_ARG
      | Some s \<Rightarrow>
          if seed_magic s \<noteq> NWOAS_RTC_SEED_MAGIC \<or> seed_version s \<noteq> NWOAS_RTC_SEED_VERSION
          then NWOAS_RTC_E_MAGIC
          else if seed_flags s AND NWOAS_RTC_SEED_FLAG_VALID = 0 then NWOAS_RTC_E_FLAGS
          else if seed_cntfrq s = 0 \<or> live_cntfrq = 0 \<or> live_cntfrq > 0xFFFFFFFF
          then NWOAS_RTC_E_FREQ
          else if (ucast (seed_cntfrq s) :: u64) \<noteq> live_cntfrq then NWOAS_RTC_E_FREQ_MISMATCH
          else if seed_epoch s < NWOAS_RTC_EPOCH_MIN \<or> seed_epoch s > NWOAS_RTC_EPOCH_MAX
          then NWOAS_RTC_E_EPOCH_RANGE
          else NWOAS_RTC_OK)"

section \<open>Advancing the seed\<close>

text \<open>
  The two output cells are \<open>(epoch, ns)\<close>; \<open>None\<close> for either pointer is NULL.
\<close>

definition nwoas_rtc_advance ::
  "nwoas_rtc_seed_t option \<Rightarrow> u64 \<Rightarrow> u64 \<Rightarrow> u64 option \<Rightarrow> u32 option
     \<Rightarrow> nwoas_rtc_status_t \<times> u64 option \<times> u32 option" where
  "nwoas_rtc_advance seed cntpct_now cntfrq epoch_out ns_out =
     (case (seed, epoch_out, ns_out) of
        (Some s, Some _, Some _) \<Rightarrow>
          if cntfrq = 0 \<or> cntfrq > 0xFFFFFFFF then (NWOAS_RTC_E_FREQ, Some 0, Some 0)
          else if seed_epoch s < NWOAS_RTC_EPOCH_MIN \<or> seed_epoch s > NWOAS_RTC_EPOCH_MAX
          then (NWOAS_RTC_E_EPOCH_RANGE, Some 0, Some 0)
          else if cntpct_now < seed_cntpct s then (NWOAS_RTC_E_UNDERFLOW, Some 0, Some 0)
          else
            let delta = cntpct_now - seed_cntpct s;
                secs = delta div cntfrq;
                rem = delta - secs * cntfrq
            in if secs > NWOAS_RTC_EPOCH_MAX - seed_epoch s
               then (NWOAS_RTC_E_OVERFLOW, Some 0, Some 0)
               else (NWOAS_RTC_OK, Some (seed_epoch s + secs),
                     Some (ucast ((rem * 1000000000) div cntfrq)))
      | _ \<Rightarrow> (NWOAS_RTC_E_ARG, epoch_out, ns_out))"

section \<open>The calendar\<close>

definition nwoas_rtc_is_leap_year :: "u32 \<Rightarrow> bool" where
  "nwoas_rtc_is_leap_year year =
     (if year mod 4 \<noteq> 0 then False
      else if year mod 100 \<noteq> 0 then True
      else year mod 400 = 0)"

definition dim_table :: "u8 list" where
  "dim_table = [31, 28, 31, 30, 31, 30, 31, 31, 30, 31, 30, 31]"

definition nwoas_rtc_days_in_month :: "u32 \<Rightarrow> u32 \<Rightarrow> u8" where
  "nwoas_rtc_days_in_month year month =
     (if month < 1 \<or> month > 12 then 0
      else if month = 2 \<and> nwoas_rtc_is_leap_year year then 29
      else dim_table ! unat (month - 1))"

definition civil_from_days :: "u64 \<Rightarrow> u32 \<times> u32 \<times> u32" where
  "civil_from_days z0 =
     (let z = z0 + 719468;
          era = z div 146097;
          doe = z - era * 146097;
          yoe = (doe - doe div 1460 + doe div 36524 - doe div 146096) div 365;
          yy = yoe + era * 400;
          doy = doe - (365 * yoe + yoe div 4 - yoe div 100);
          mp = (5 * doy + 2) div 153;
          d = ucast (doy - (153 * mp + 2) div 5 + 1) :: u32;
          m = ucast (if mp < 10 then mp + 3 else mp - 9) :: u32;
          y = ucast (yy + (if m \<le> 2 then 1 else 0)) :: u32
      in (y, m, d))"

definition days_from_civil :: "u32 \<Rightarrow> u32 \<Rightarrow> u32 \<Rightarrow> u64" where
  "days_from_civil y0 m d =
     (let y = y0 - (if m \<le> 2 then 1 else 0);
          era = ucast (y div 400) :: u64;
          yoe = ucast y - era * 400 :: u64;
          doy = ucast ((153 * (if m > 2 then m - 3 else m + 9) + 2) div 5 + d - 1) :: u64;
          doe = yoe * 365 + yoe div 4 - yoe div 100 + doy
      in era * 146097 + doe - 719468)"

definition cal_zero :: nwoas_rtc_calendar_t where
  "cal_zero = \<lparr>cal_year = 0, cal_month = 0, cal_day = 0, cal_hour = 0, cal_minute = 0,
               cal_second = 0, cal_nanosecond = 0, cal_timezone = NWOAS_RTC_TZ_UNSPECIFIED,
               cal_daylight = 0\<rparr>"

definition nwoas_rtc_epoch_to_calendar ::
  "u64 \<Rightarrow> nwoas_rtc_calendar_t option \<Rightarrow> nwoas_rtc_status_t \<times> nwoas_rtc_calendar_t option" where
  "nwoas_rtc_epoch_to_calendar epoch cal =
     (case cal of
        None \<Rightarrow> (NWOAS_RTC_E_ARG, None)
      | Some _ \<Rightarrow>
          if epoch < NWOAS_RTC_EPOCH_MIN \<or> epoch > NWOAS_RTC_EPOCH_MAX
          then (NWOAS_RTC_E_EPOCH_RANGE, Some cal_zero)
          else
            let days = epoch div 86400;
                sod = ucast (epoch - days * 86400) :: u32;
                (y, m, d) = civil_from_days days
            in (NWOAS_RTC_OK,
                Some (cal_zero\<lparr>cal_year := ucast y, cal_month := ucast m, cal_day := ucast d,
                               cal_hour := ucast (sod div 3600),
                               cal_minute := ucast ((sod div 60) mod 60),
                               cal_second := ucast (sod mod 60)\<rparr>)))"

definition nwoas_rtc_calendar_validate :: "nwoas_rtc_calendar_t option \<Rightarrow> nwoas_rtc_status_t" where
  "nwoas_rtc_calendar_validate cal =
     (case cal of
        None \<Rightarrow> NWOAS_RTC_E_ARG
      | Some c \<Rightarrow>
          if cal_year c < NWOAS_RTC_YEAR_MIN \<or> cal_year c > NWOAS_RTC_YEAR_MAX
          then NWOAS_RTC_E_CALENDAR
          else if cal_month c < 1 \<or> cal_month c > 12 then NWOAS_RTC_E_CALENDAR
          else if cal_day c < 1 \<or>
                  cal_day c > nwoas_rtc_days_in_month (ucast (cal_year c)) (ucast (cal_month c))
          then NWOAS_RTC_E_CALENDAR
          else if cal_hour c > 23 \<or> cal_minute c > 59 \<or> cal_second c > 59
          then NWOAS_RTC_E_CALENDAR
          else if cal_nanosecond c > NWOAS_RTC_NS_MAX then NWOAS_RTC_E_CALENDAR
          else if cal_timezone c \<noteq> NWOAS_RTC_TZ_UNSPECIFIED \<and>
                  (cal_timezone c <s NWOAS_RTC_TZ_MIN \<or> NWOAS_RTC_TZ_MAX <s cal_timezone c)
          then NWOAS_RTC_E_CALENDAR
          else if cal_daylight c \<noteq> 0 \<and> cal_daylight c \<noteq> NWOAS_RTC_DAYLIGHT_ADJUST \<and>
                  cal_daylight c \<noteq> NWOAS_RTC_DAYLIGHT_ADJUST OR NWOAS_RTC_DAYLIGHT_IN
          then NWOAS_RTC_E_CALENDAR
          else NWOAS_RTC_OK)"

definition nwoas_rtc_calendar_to_epoch ::
  "nwoas_rtc_calendar_t option \<Rightarrow> u64 option \<Rightarrow> nwoas_rtc_status_t \<times> u64 option" where
  "nwoas_rtc_calendar_to_epoch cal epoch_out =
     (case epoch_out of
        None \<Rightarrow> (NWOAS_RTC_E_ARG, None)
      | Some _ \<Rightarrow>
          let st = nwoas_rtc_calendar_validate cal
          in if st \<noteq> NWOAS_RTC_OK then (st, Some 0)
             else let c = the cal;
                      days = days_from_civil (ucast (cal_year c)) (ucast (cal_month c))
                               (ucast (cal_day c))
                  in (NWOAS_RTC_OK,
                      Some (days * 86400 + ucast (cal_hour c) * 3600 + ucast (cal_minute c) * 60
                            + ucast (cal_second c))))"

definition nwoas_rtc_status_str :: "nwoas_rtc_status_t \<Rightarrow> string" where
  "nwoas_rtc_status_str st =
     (case st of
        NWOAS_RTC_OK \<Rightarrow> ''ok''
      | NWOAS_RTC_E_ARG \<Rightarrow> ''null-argument''
      | NWOAS_RTC_E_SIZE \<Rightarrow> ''seed-size''
      | NWOAS_RTC_E_MAGIC \<Rightarrow> ''seed-magic''
      | NWOAS_RTC_E_VERSION \<Rightarrow> ''seed-version''
      | NWOAS_RTC_E_FLAGS \<Rightarrow> ''seed-flags''
      | NWOAS_RTC_E_FREQ \<Rightarrow> ''frequency''
      | NWOAS_RTC_E_FREQ_MISMATCH \<Rightarrow> ''frequency-mismatch''
      | NWOAS_RTC_E_EPOCH_RANGE \<Rightarrow> ''epoch-range''
      | NWOAS_RTC_E_UNDERFLOW \<Rightarrow> ''counter-underflow''
      | NWOAS_RTC_E_OVERFLOW \<Rightarrow> ''time-overflow''
      | NWOAS_RTC_E_CALENDAR \<Rightarrow> ''calendar-field''
      | NWOAS_RTC_E_NOT_READY \<Rightarrow> ''not-ready'')"

section \<open>Properties of the seed\<close>

lemma rd_le32_eq: "4 \<le> length p \<Longrightarrow> rd_le32 p = le_word (take 4 p)"
  unfolding rd_le32_def by (rule le_word_4)

lemma rd_le64_eq: "8 \<le> length p \<Longrightarrow> rd_le64 p = le_word (take 8 p)"
  by (simp add: rd_le64_def rd_le32_eq le_word_8)

interpretation seed_le32: le_reader rd_le32 4
  by unfold_locales (simp_all add: rd_le32_eq)

interpretation seed_le64: le_reader rd_le64 8
  by unfold_locales (simp_all add: rd_le64_eq)

definition seed_bytes :: "nwoas_rtc_seed_t \<Rightarrow> bytes" where
  "seed_bytes s = le_bytes 4 (seed_magic s) @ le_bytes 4 (seed_version s) @ le_bytes 8 (seed_epoch s)
     @ le_bytes 8 (seed_cntpct s) @ le_bytes 4 (seed_cntfrq s) @ le_bytes 4 (seed_flags s)"

definition seed_accepted :: "nwoas_rtc_seed_t \<Rightarrow> bool" where
  "seed_accepted s \<longleftrightarrow> seed_magic s = NWOAS_RTC_SEED_MAGIC \<and> seed_version s = NWOAS_RTC_SEED_VERSION \<and>
     seed_flags s AND NWOAS_RTC_SEED_FLAG_VALID \<noteq> 0 \<and>
     seed_flags s AND NOT NWOAS_RTC_SEED_FLAGS_KNOWN = 0"

lemma seed_bytes_split:
  assumes "length b = 32"
  shows "b = take 4 b @ take 4 (drop 4 b) @ take 8 (drop 8 b) @ take 8 (drop 16 b) @ take 4 (drop 24 b)
             @ take 4 (drop 28 b)"
proof -
  have "drop (n + k) b = drop k (drop n b)" for n k by (simp add: add.commute)
  from this [of 4 4] this [of 8 8] this [of 16 8] this [of 24 4] 
  have "drop 8 b = drop 4 (drop 4 b)" "drop 16 b = drop 8 (drop 8 b)" "drop 24 b = drop 8 (drop 16 b)"
    "drop 28 b = drop 4 (drop 24 b)" by simp_all
  moreover have "take 4 (drop 28 b) = drop 28 b" using assms by simp
  ultimately show ?thesis by (metis append_take_drop_id)
qed

lemma rd_seed_bytes:
  "rd_le32 (seed_bytes s) = seed_magic s" "rd_le32 (drop 4 (seed_bytes s)) = seed_version s"
  "rd_le64 (drop 8 (seed_bytes s)) = seed_epoch s" "rd_le64 (drop 16 (seed_bytes s)) = seed_cntpct s"
  "rd_le32 (drop 24 (seed_bytes s)) = seed_cntfrq s" "rd_le32 (drop 28 (seed_bytes s)) = seed_flags s"
  by (simp_all add: seed_bytes_def rd_le32_eq rd_le64_eq le_word_roundtrip)

text \<open>
  C10. Decoding is exact: \<^verbatim>\<open>nwoas_rtc_seed_parse\<close> accepts a buffer with the structure \<open>s\<close> if and
  only if the buffer is the 32-byte little-endian image of \<open>s\<close> and \<open>s\<close> has the right magic,
  version and flags (valid bit set, no unknown bit).
\<close>

theorem seed_parse_iff:
  "nwoas_rtc_seed_parse (Some b) (Some out) = (NWOAS_RTC_OK, Some s)
     \<longleftrightarrow> b = seed_bytes s \<and> seed_accepted s"
proof (cases "length b = 32")
  case False
  then show ?thesis by (auto simp: nwoas_rtc_seed_parse_def seed_bytes_def)
next
  case True
  define t where "t = \<lparr>seed_magic = rd_le32 b, seed_version = rd_le32 (drop 4 b),
     seed_epoch = rd_le64 (drop 8 b), seed_cntpct = rd_le64 (drop 16 b),
     seed_cntfrq = rd_le32 (drop 24 b), seed_flags = rd_le32 (drop 28 b)\<rparr>"
  have "seed_bytes t = b"
    using seed_bytes_split [OF True, symmetric] True
    by (simp add: seed_bytes_def t_def seed_le32.written_read seed_le64.written_read)
  moreover have "b = seed_bytes s \<Longrightarrow> t = s"
    by (simp add: t_def rd_seed_bytes)
  moreover have "nwoas_rtc_seed_parse (Some b) (Some out) = (NWOAS_RTC_OK, Some s)
      \<longleftrightarrow> seed_accepted t \<and> s = t"
    using True by (auto simp: nwoas_rtc_seed_parse_def seed_accepted_def Let_def t_def)
  ultimately show ?thesis by auto
qed

lemma advance_spec:
  assumes "cntfrq \<noteq> 0" and "cntfrq \<le> 0xFFFFFFFF"
    and "NWOAS_RTC_EPOCH_MIN \<le> seed_epoch s" and "seed_epoch s \<le> NWOAS_RTC_EPOCH_MAX"
    and "seed_cntpct s \<le> now"
  defines "T \<equiv> unat now - unat (seed_cntpct s)" and "F \<equiv> unat cntfrq"
  shows "\<exists>st e ns. nwoas_rtc_advance (Some s) now cntfrq (Some a) (Some b) = (st, Some e, Some ns) \<and>
     (if unat (seed_epoch s) + T div F \<le> 4102444799
      then st = NWOAS_RTC_OK \<and> unat e = unat (seed_epoch s) + T div F \<and>
           unat ns = (T mod F) * 1000000000 div F \<and> unat ns < 1000000000
      else st = NWOAS_RTC_E_OVERFLOW \<and> e = 0 \<and> ns = 0)"
proof -
  define delta where "delta = now - seed_cntpct s"
  define secs where "secs = delta div cntfrq"
  define rm where "rm = delta - secs * cntfrq"
  have F: "0 < F" "F < 2 ^ 32"
    using assms(1,2) by (simp_all add: F_def word_le_nat_alt unat_gt_0)
  have delta: "unat delta = T" using assms(5) by (simp add: delta_def T_def unat_diff_small)
  have "unat delta < 2 ^ LENGTH(64)" by (rule unsigned_less)
  then have T: "T < 2 ^ 64" by (simp add: delta)
  have secs: "unat secs = T div F" by (simp add: secs_def unat_div delta F_def)
  have rm: "unat rm = T mod F"
  proof -
    have "T div F * F < 2 ^ 64" using T by (meson div_times_less_eq_dividend le_less_trans)
    then have "unat (secs * cntfrq) = T div F * F"
      using secs by (simp add: unat_mult_small F_def)
    then show ?thesis
      unfolding rm_def using delta
      by (subst unat_diff_small) (simp_all add: word_le_nat_alt modulo_nat_def)
  qed
  have lt: "T mod F < F" using F by simp
  have "T mod F * 1000000000 < F * 1000000000" using lt by simp
  then have ns_lt: "T mod F * 1000000000 div F < 1000000000"
    using F by (simp add: less_mult_imp_div_less mult.commute)
  have "T mod F * 1000000000 < 2 ^ 64" using less_trans [OF lt F(2)] by simp
  then have "unat (rm * 1000000000) = T mod F * 1000000000"
    using rm by (simp add: unat_mult_small)
  then have ns: "unat (ucast ((rm * 1000000000) div cntfrq) :: u32) = T mod F * 1000000000 div F"
    using ns_lt by (simp add: unat_ucast_small unat_div F_def)
  have cond: "secs > NWOAS_RTC_EPOCH_MAX - seed_epoch s \<longleftrightarrow> \<not> unat (seed_epoch s) + T div F \<le> 4102444799"
    using assms(4) secs by (auto simp: word_less_nat_alt unat_diff_small word_le_nat_alt)
  have e: "unat (seed_epoch s) + T div F \<le> 4102444799 \<Longrightarrow>
      unat (seed_epoch s + secs) = unat (seed_epoch s) + T div F"
    using secs by (simp add: unat_add_small)
  show ?thesis
    using assms(1-5) cond e ns ns_lt
    by (auto simp: nwoas_rtc_advance_def Let_def not_less [symmetric] delta_def secs_def rm_def)
qed

lemma div_scale_split:
  "0 < (F :: nat) \<Longrightarrow> T * k div F = T div F * k + T mod F * k div F"
proof -
  assume F: "0 < F"
  have "T * k = (T mod F) * k + F * (T div F * k)"
    by (metis (no_types, lifting) distrib_right mod_mult_div_eq mult.assoc)
  then show ?thesis using F by simp
qed

lemma less_mult_radix: "r < k \<Longrightarrow> a * k + r < b * k \<longleftrightarrow> a < (b :: nat)"
proof
  assume "r < k" "a < b"
  then have "(a + 1) * k \<le> b * k" by (intro mult_le_mono1) simp
  with \<open>r < k\<close> show "a * k + r < b * k" by simp
next
  assume "a * k + r < b * k"
  then have "a * k < b * k" by linarith
  then show "a < b" by simp
qed

lemma advance_exact:
  assumes "nwoas_rtc_advance (Some s) now cntfrq (Some a) (Some b) = (NWOAS_RTC_OK, Some e, Some ns)"
  shows "unat e * 1000000000 + unat ns =
      unat (seed_epoch s) * 1000000000 + (unat now - unat (seed_cntpct s)) * 1000000000 div unat cntfrq"
    and "unat ns < 1000000000" and "NWOAS_RTC_EPOCH_MIN \<le> e" and "e \<le> NWOAS_RTC_EPOCH_MAX"
proof -
  have pre: "cntfrq \<noteq> 0" "cntfrq \<le> 0xFFFFFFFF" "NWOAS_RTC_EPOCH_MIN \<le> seed_epoch s"
    "seed_epoch s \<le> NWOAS_RTC_EPOCH_MAX" "seed_cntpct s \<le> now"
    using assms by (auto simp: nwoas_rtc_advance_def Let_def not_less split: if_splits)
  define T where "T = unat now - unat (seed_cntpct s)"
  define F where "F = unat cntfrq"
  have F: "0 < F" using pre(1) by (simp add: F_def unat_gt_0)
  have r: "unat e = unat (seed_epoch s) + T div F" "unat ns = T mod F * 1000000000 div F"
     "unat ns < 1000000000" "unat (seed_epoch s) + T div F \<le> 4102444799"
    using advance_spec [OF pre, of a b] assms by (auto simp: T_def F_def split: if_splits)
  have "T * 1000000000 div F = T div F * 1000000000 + T mod F * 1000000000 div F"
    by (rule div_scale_split [OF F])
  then show "unat e * 1000000000 + unat ns =
      unat (seed_epoch s) * 1000000000 + (unat now - unat (seed_cntpct s)) * 1000000000 div unat cntfrq"
    using r by (simp add: T_def F_def)
  show "unat ns < 1000000000" by (rule r(3))
  show "NWOAS_RTC_EPOCH_MIN \<le> e" "e \<le> NWOAS_RTC_EPOCH_MAX"
    using r pre(3) by (simp_all add: word_le_nat_alt)
qed

text \<open>
  C3. Advancing the clock is exact and never wraps: for a usable frequency, a seed in the
  accepted window and a counter that did not go back, the result is the seed plus the elapsed
  whole seconds and the nanoseconds of the remainder, both rounded down from the true quotient;
  the only other outcome is the overflow status with zeroed outputs, exactly when the true time
  lies after 2099.
\<close>

theorem rtc_advance_correct:
  assumes "cntfrq \<noteq> 0" and "cntfrq \<le> 0xFFFFFFFF"
    and "NWOAS_RTC_EPOCH_MIN \<le> seed_epoch s" and "seed_epoch s \<le> NWOAS_RTC_EPOCH_MAX"
    and "seed_cntpct s \<le> now"
  shows "let ns_total = (unat now - unat (seed_cntpct s)) * 1000000000 div unat cntfrq;
             t = unat (seed_epoch s) * 1000000000 + ns_total
         in nwoas_rtc_advance (Some s) now cntfrq (Some a) (Some b) =
              (if t < 4102444800 * 1000000000
               then (NWOAS_RTC_OK, Some (word_of_nat (t div 1000000000)), Some (word_of_nat (t mod 1000000000)))
               else (NWOAS_RTC_E_OVERFLOW, Some 0, Some 0))"
proof -
  define T F where "T = unat now - unat (seed_cntpct s)" and "F = unat cntfrq"
  define t where "t = unat (seed_epoch s) * 1000000000 + T * 1000000000 div F"
  have F: "0 < F" using assms(1) by (simp add: F_def unat_gt_0)
  obtain st e ns where adv: "nwoas_rtc_advance (Some s) now cntfrq (Some a) (Some b) = (st, Some e, Some ns)"
    and r: "if unat (seed_epoch s) + T div F \<le> 4102444799
      then st = NWOAS_RTC_OK \<and> unat e = unat (seed_epoch s) + T div F \<and>
           unat ns = (T mod F) * 1000000000 div F \<and> unat ns < 1000000000
      else st = NWOAS_RTC_E_OVERFLOW \<and> e = 0 \<and> ns = 0"
    using advance_spec [OF assms, of a b] unfolding T_def F_def by blast
  have "(T mod F) * 1000000000 < F * 1000000000" using F by simp
  then have lt: "(T mod F) * 1000000000 div F < 1000000000"
    using F by (simp add: less_mult_imp_div_less mult.commute)
  have "T * 1000000000 div F = T div F * 1000000000 + (T mod F) * 1000000000 div F"
    by (rule div_scale_split [OF F])
  then have t: "t = (unat (seed_epoch s) + T div F) * 1000000000 + (T mod F) * 1000000000 div F"
    by (simp add: t_def)
  have q: "t div 1000000000 = unat (seed_epoch s) + T div F" "t mod 1000000000 = (T mod F) * 1000000000 div F"
    using lt unfolding t by (simp_all only: mod_mult_self3 mod_less div_mult_self3 div_less)
  have "t < 4102444800 * 1000000000 \<longleftrightarrow> unat (seed_epoch s) + T div F \<le> 4102444799"
    using lt unfolding t by (simp only: less_mult_radix) auto
  then show ?thesis
    using adv r unfolding Let_def T_def [symmetric] F_def [symmetric] t_def [symmetric] q
    by (auto dest!: word_of_unat_eq split: if_splits)
qed

theorem rtc_advance_correct_witness:
  "nwoas_rtc_advance (Some (seed_zero\<lparr>seed_epoch := 1700000000, seed_cntpct := 24\<rparr>)) 36000024 24000000
     (Some 0) (Some 0) = (NWOAS_RTC_OK, Some 1700000001, Some 500000000)"
  using rtc_advance_correct [of 24000000 "seed_zero\<lparr>seed_epoch := 1700000000, seed_cntpct := 24\<rparr>"
      36000024 0 0]
  by simp

end
