(* ===== verification/Gregorian.thy ===== *)
theory Gregorian
  imports Main
begin

text \<open>
  The reference calendar the clock core is measured against: the Gregorian leap-year rule, the
  length of months and years, and the day number of a date as a sum of whole years and months
  since 1 January 1970.  \<open>civil_nat\<close> is the era-based conversion of the C code on
  natural numbers, proved here to invert the day number for the years 2000 to 2099.
\<close>

definition greg_leap :: "nat \<Rightarrow> bool" where
  "greg_leap y \<longleftrightarrow> 4 dvd y \<and> (\<not> 100 dvd y \<or> 400 dvd y)"

definition greg_month_days :: "nat \<Rightarrow> nat \<Rightarrow> nat" where
  "greg_month_days y m =
     (if m = 2 then (if greg_leap y then 29 else 28)
      else if m = 4 \<or> m = 6 \<or> m = 9 \<or> m = 11 then 30 else 31)"

definition greg_year_days :: "nat \<Rightarrow> nat" where
  "greg_year_days y = (if greg_leap y then 366 else 365)"

definition greg_days :: "nat \<Rightarrow> nat \<Rightarrow> nat \<Rightarrow> nat" where
  "greg_days y m d =
     sum_list (map greg_year_days [1970..<y]) + sum_list (map (greg_month_days y) [1..<m]) + (d - 1)"

lemma greg_leap_century:
  assumes "2000 \<le> y" and "y < 2100"
  shows "greg_leap y \<longleftrightarrow> y mod 4 = 0"
proof -
  obtain k where k: "y = 2000 + k" "k < 100" using assms by (metis add_less_cancel_left le_Suc_ex numeral_plus_numeral add_One add_num_simps nat_add_left_cancel_less)
  show ?thesis
  proof (cases "k = 0")
    case True
    then show ?thesis using k by (simp add: greg_leap_def)
  next
    case False
    have "\<not> 100 dvd k" using False k(2) by (simp add: nat_dvd_not_less)
    moreover have "100 dvd y \<longleftrightarrow> 100 dvd k" unfolding k(1) by (rule dvd_add_right_iff) simp
    ultimately show ?thesis by (simp add: greg_leap_def dvd_eq_mod_eq_0)
  qed
qed

lemma greg_years_closed:
  "k \<le> 100 \<Longrightarrow>
     sum_list (map greg_year_days [1970..<2000 + k]) = 10957 + 365 * k + (k + 3) div 4"
proof (induction k)
  case 0
  show ?case by (simp add: greg_year_days_def greg_leap_def upt_rec_numeral)
next
  case (Suc k)
  have "(2000 + k) mod 4 = k mod 4" by presburger
  then have "greg_year_days (2000 + k) = (if k mod 4 = 0 then 366 else 365)"
    using Suc.prems by (simp add: greg_year_days_def greg_leap_century)
  moreover have "(4 + k) div 4 = (k + 3) div 4 + (if k mod 4 = 0 then 1 else 0)" by presburger
  moreover have "[1970..<2000 + Suc k] = [1970..<2000 + k] @ [2000 + k]"
    using upt_Suc_append [of 1970 "2000 + k"] by (simp only: add_Suc_right)
  ultimately show ?case using Suc by (simp only: map_append sum_list_append) simp
qed

lemma le_11_cases: "(n::nat) \<le> 11 \<Longrightarrow> n \<in> {0, 1, 2, 3, 4, 5, 6, 7, 8, 9, 10, 11}"
  by simp presburger

lemma civil_year_bounds:
  fixes doe :: nat
  assumes "doe \<le> 36464" and "yoe = (doe - doe div 1460) div 365"
  shows "yoe \<le> 99" and "365 * yoe + yoe div 4 \<le> doe"
    and "doe \<le> 365 * yoe + yoe div 4 + 364 + (if yoe mod 4 = 3 then 1 else 0)"
proof -
  define q where "q = doe div 1460"
  have q: "1460 * q \<le> doe" "doe < 1460 * q + 1460" "q \<le> 24"
    using assms(1) by (auto simp: q_def)
  have y: "365 * yoe \<le> doe - q" "doe - q < 365 * yoe + 365"
    using assms(2) by (simp_all add: q_def) 
  define k r where "k = yoe div 4" and "r = yoe mod 4"
  have kr: "yoe = 4 * k + r" "r < 4" by (simp_all add: k_def r_def)
  have div: "yoe div 4 = k" "yoe mod 4 = r" by (simp_all add: k_def r_def)
  show "yoe \<le> 99" using y q assms(1) by linarith
  show "365 * yoe + yoe div 4 \<le> doe" unfolding div using y q kr by linarith
  show "doe \<le> 365 * yoe + yoe div 4 + 364 + (if yoe mod 4 = 3 then 1 else 0)"
  proof (cases "r = 3")
    case True
    then show ?thesis unfolding div using y q kr by simp
  next
    case False
    then have "q \<le> k" using y q kr by linarith
    then show ?thesis unfolding div using y q kr False by simp
  qed
qed


definition civil_nat :: "nat \<Rightarrow> nat \<times> nat \<times> nat" where
  "civil_nat n =
     (let z = n + 719468;
          era = z div 146097;
          doe = z - era * 146097;
          yoe = (doe - doe div 1460 + doe div 36524 - doe div 146096) div 365;
          yy = yoe + era * 400;
          doy = doe - (365 * yoe + yoe div 4 - yoe div 100);
          mp = (5 * doy + 2) div 153;
          d = doy - (153 * mp + 2) div 5 + 1;
          m = (if mp < 10 then mp + 3 else mp - 9)
      in (yy + (if m \<le> 2 then 1 else 0), m, d))"

text \<open>March-based month number, day of month and offset of a day of the March-based year.\<close>

lemma month_of_doy:
  fixes doy :: nat
  assumes "doy \<le> 365" and "mp = (5 * doy + 2) div 153"
  shows "mp \<le> 11" and "(153 * mp + 2) div 5 \<le> doy"
    and "doy - (153 * mp + 2) div 5 <
           (if mp = 11 then 29 else if mp = 1 \<or> mp = 3 \<or> mp = 6 \<or> mp = 8 then 30 else 31)"
proof -
  have mp: "153 * mp \<le> 5 * doy + 2" "5 * doy + 2 < 153 * mp + 153"
    using assms(2) by simp_all
  show le: "mp \<le> 11" using mp assms(1) by linarith
  have "(153 * mp + 2) div 5 \<le> doy \<and> doy - (153 * mp + 2) div 5 <
           (if mp = 11 then 29 else if mp = 1 \<or> mp = 3 \<or> mp = 6 \<or> mp = 8 then 30 else 31)"
    using le_11_cases [OF le] mp assms(1) by (elim insertE emptyE) simp_all
  then show "(153 * mp + 2) div 5 \<le> doy"
    and "doy - (153 * mp + 2) div 5 <
           (if mp = 11 then 29 else if mp = 1 \<or> mp = 3 \<or> mp = 6 \<or> mp = 8 then 30 else 31)"
    by blast+
qed

lemma greg_months_closed:
  assumes "mp \<le> 11" and "m = (if mp < 10 then mp + 3 else mp - 9)"
  shows "sum_list (map (greg_month_days y) [1..<m]) =
     (if mp < 10 then (153 * mp + 2) div 5 + 59 + (if greg_leap y then 1 else 0)
      else (153 * mp + 2) div 5 - 306)"
proof -
  show ?thesis
    using le_11_cases [OF assms(1)] assms(2)
    by (elim insertE emptyE) (simp_all add: greg_month_days_def upt_conv_Cons)
qed


definition greg_date :: "nat \<Rightarrow> nat \<Rightarrow> nat \<Rightarrow> bool" where
  "greg_date y m d \<longleftrightarrow>
     2000 \<le> y \<and> y \<le> 2099 \<and> 1 \<le> m \<and> m \<le> 12 \<and> 1 \<le> d \<and> d \<le> greg_month_days y m"

lemma greg_leap_2000: "k < 100 \<Longrightarrow> greg_leap (2000 + k) \<longleftrightarrow> k mod 4 = 0"
proof -
  have "(2000 + k) mod 4 = k mod 4" by presburger
  then show "k < 100 \<Longrightarrow> ?thesis" by (simp add: greg_leap_century)
qed

text \<open>The day number of a date counted from 1 March of the year \<open>2000 + yoe\<close>.\<close>

lemma greg_days_closed:
  assumes "yoe \<le> 99" and "mp \<le> 11" and "yoe = 99 \<Longrightarrow> mp < 10"
    and "m = (if mp < 10 then mp + 3 else mp - 9)"
    and "y = 2000 + yoe + (if mp < 10 then 0 else 1)"
  shows "greg_days y m d = 11017 + 365 * yoe + yoe div 4 + (153 * mp + 2) div 5 + (d - 1)"
proof -
  define c where "c = (153 * mp + 2) div 5"
  note m = greg_months_closed [OF assms(2,4), folded c_def]
  have "greg_days y m d = 11017 + 365 * yoe + yoe div 4 + c + (d - 1)"
  proof (cases "mp < 10")
    case True
    have "(yoe + 3) div 4 + (if yoe mod 4 = 0 then 1 else 0) = yoe div 4 + 1" by presburger
    then show ?thesis
      using True assms(1,5) greg_leap_2000 [of yoe] greg_years_closed [of yoe] m
      by (simp add: greg_days_def split: if_splits)
  next
    case False
    then have y: "y = 2000 + (yoe + 1)" and "yoe \<noteq> 99" using assms(3,5) by auto
    moreover have "306 \<le> c" using False le_11_cases [OF assms(2)] by (auto simp: c_def)
    ultimately show ?thesis
      using False assms(1) greg_years_closed [of "yoe + 1"] m by (simp add: greg_days_def)
  qed
  then show ?thesis by (simp add: c_def)
qed

text \<open>A day counted from 1 March: year \<open>2000 + yoe\<close>, offset \<open>doy\<close>.\<close>

lemma greg_days_march:
  assumes "yoe \<le> 99" and "doy \<le> 364 + (if yoe mod 4 = 3 then 1 else 0)"
    and "mp = (5 * doy + 2) div 153" and "yoe = 99 \<Longrightarrow> mp < 10"
    and "m = (if mp < 10 then mp + 3 else mp - 9)"
    and "y = 2000 + yoe + (if m \<le> 2 then 1 else 0)"
  shows "greg_date y m (doy - (153 * mp + 2) div 5 + 1)"
    and "greg_days y m (doy - (153 * mp + 2) div 5 + 1) = 11017 + 365 * yoe + yoe div 4 + doy"
proof -
  define c where "c = (153 * mp + 2) div 5"
  have doy: "doy \<le> 365" using assms(2) by (simp split: if_splits)
  note mp = month_of_doy [OF doy assms(3), folded c_def]
  have m2: "m \<le> 2 \<longleftrightarrow> \<not> mp < 10" using mp(1) assms(5) by auto
  have c11: "mp = 11 \<Longrightarrow> c = 337" by (simp add: c_def)
  show "greg_days y m (doy - c + 1) = 11017 + 365 * yoe + yoe div 4 + doy"
  proof -
    have "y = 2000 + yoe + (if mp < 10 then 0 else 1)" using assms(6) m2 by simp
    from greg_days_closed [OF assms(1) mp(1) assms(4,5) this, of "doy - c + 1"]
    show ?thesis using mp(2) by (simp add: c_def)
  qed
  have "doy - c + 1 \<le> greg_month_days y m"
  proof (cases "mp = 11")
    case True
    then have "yoe \<noteq> 99" using assms(4) by auto
    then have y: "y = 2000 + (yoe + 1)" and "yoe + 1 < 100"
      using True assms(1,6) m2 by auto
    moreover have "(yoe + 1) mod 4 = 0 \<longleftrightarrow> yoe mod 4 = 3" by presburger
    ultimately have "greg_month_days y m = (if yoe mod 4 = 3 then 29 else 28)"
      using True assms(5) greg_leap_2000 [of "yoe + 1"] by (simp add: greg_month_days_def)
    then show ?thesis using assms(2) c11 [OF True] by (simp split: if_splits)
  next
    case False
    then show ?thesis
      using mp(3) le_11_cases [OF mp(1)] assms(5) by (auto simp: greg_month_days_def)
  qed
  then show "greg_date y m (doy - c + 1)"
    using assms(1,4,5,6) mp(1) m2 by (cases "yoe = 99") (auto simp: greg_date_def)
qed


lemma civil_nat_correct:
  assumes "10957 \<le> n" and "n \<le> 47481" and "civil_nat n = (y, m, d)"
  shows "greg_date y m d" and "greg_days y m d = n"
proof -
  have "greg_date y m d \<and> greg_days y m d = n"
  proof (cases "n < 11017")
    case True
    define doy where "doy = n - 10957 + 306"
    define mp where "mp = (5 * doy + 2) div 153"
    define c where "c = (153 * mp + 2) div 5"
    have doy: "306 \<le> doy" "doy \<le> 365" "n + 306 = doy + 10957" using assms True by (auto simp: doy_def)
    then have z: "n + 719468 = 4 * 146097 + (doy + 145731)" by simp
    have 1: "(n + 719468) div 146097 = 4" "n + 719468 - 4 * 146097 = doy + 145731"
      using doy by simp_all
    have 2: "(doy + 145731) div 1460 = 100" using doy by simp
    have 3: "(doy + 145731 - 100 + (doy + 145731) div 36524 - (doy + 145731) div 146096) div 365 = 399"
    proof (cases "doy = 365")
      case False
      then have "(doy + 145731) div 36524 = 3" "(doy + 145731) div 146096 = 0" using doy by simp_all
      then show ?thesis using doy by simp
    qed simp
    have civ: "civil_nat n = (1999 + (if (if mp < 10 then mp + 3 else mp - 9) \<le> 2 then 1 else 0),
        (if mp < 10 then mp + 3 else mp - 9), doy - c + 1)"
      unfolding civil_nat_def Let_def 1 2 3 by (simp add: mp_def c_def)
    note mp = month_of_doy [OF doy(2) mp_def, folded c_def]
    have "\<not> mp < 10" using doy(1) by (simp add: mp_def)
    then have "mp = 10 \<or> mp = 11" using mp(1) by linarith
    then show ?thesis
      using civ assms(3) doy mp
      by (auto simp: greg_date_def greg_days_def greg_month_days_def greg_leap_def c_def upt_conv_Cons
          greg_years_closed [of 0, simplified])
  next
    case False
    define doe where "doe = n - 11017"
    have n: "n = doe + 11017" and doe: "doe \<le> 36464" using False assms(2) by (auto simp: doe_def)
    define yoe where "yoe = (doe - doe div 1460) div 365"
    define doy where "doy = doe - (365 * yoe + yoe div 4)"
    define mp where "mp = (5 * doy + 2) div 153"
    define m' where "m' = (if mp < 10 then mp + 3 else mp - 9)"
    note b = civil_year_bounds [OF doe yoe_def]
    have 1: "(doe + 11017 + 719468) div 146097 = 5" "doe + 11017 + 719468 - 5 * 146097 = doe"
      using doe by simp_all
    have 2: "doe div 36524 = 0" "doe div 146096 = 0" "yoe div 100 = 0" using doe b(1) by simp_all
    have civ: "civil_nat n = (yoe + 2000 + (if m' \<le> 2 then 1 else 0), m', doy - (153 * mp + 2) div 5 + 1)"
      unfolding civil_nat_def Let_def n 1 2 m'_def
      by (simp add: yoe_def [symmetric] 2 doy_def [symmetric] mp_def)
    have "doy \<le> 364 + (if yoe mod 4 = 3 then 1 else 0)"
      using b(2,3) by (simp add: doy_def split: if_splits)
    moreover have "yoe = 99 \<Longrightarrow> mp < 10" using doe by (simp add: mp_def doy_def)
    ultimately have "greg_date (2000 + yoe + (if m' \<le> 2 then 1 else 0)) m' (doy - (153 * mp + 2) div 5 + 1)"
      and "greg_days (2000 + yoe + (if m' \<le> 2 then 1 else 0)) m' (doy - (153 * mp + 2) div 5 + 1)
             = 11017 + 365 * yoe + yoe div 4 + doy"
      using greg_days_march [OF b(1) _ mp_def _ m'_def refl] by blast+
    moreover have "11017 + 365 * yoe + yoe div 4 + doy = n" using b(2) by (simp add: doy_def n)
    ultimately show ?thesis using civ assms(3) by (simp add: add.commute)
  qed
  then show "greg_date y m d" and "greg_days y m d = n" by blast+
qed


lemma sum_upt_mono: "b \<le> c \<Longrightarrow> a \<le> b \<Longrightarrow> sum_list (map f [a..<b]) \<le> sum_list (map (f :: nat \<Rightarrow> nat) [a..<c])"
  using upt_add_eq_append [of a b "c - b"] by simp

lemma greg_days_in_month:
  assumes "1 \<le> m" and "1 \<le> d" and "d \<le> greg_month_days y m"
  shows "greg_days y m d < sum_list (map greg_year_days [1970..<y])
           + sum_list (map (greg_month_days y) [1..<Suc m])"
  using assms by (simp add: greg_days_def)

lemma greg_days_in_year:
  assumes "1970 \<le> y" and "1 \<le> m" and "m \<le> 12" and "1 \<le> d" and "d \<le> greg_month_days y m"
  shows "greg_days y m d < sum_list (map greg_year_days [1970..<Suc y])"
proof -
  have "sum_list (map (greg_month_days y) [1..<Suc m]) \<le> sum_list (map (greg_month_days y) [1..<13])"
    using assms by (intro sum_upt_mono) auto
  also have "\<dots> = greg_year_days y"
    by (simp add: greg_month_days_def greg_year_days_def upt_conv_Cons)
  finally show ?thesis using greg_days_in_month [OF assms(2,4,5)] assms(1) by simp
qed

lemma greg_days_lex:
  assumes "greg_date y m d" and "greg_date y' m' d'"
    and "y < y' \<or> y = y' \<and> (m < m' \<or> m = m' \<and> d < d')"
  shows "greg_days y m d < greg_days y' m' d'"
proof -
  consider "y < y'" | "y = y'" "m < m'" | "y = y'" "m = m'" "d < d'" using assms(3) by blast
  then show ?thesis
  proof cases
    case 1
    have "greg_days y m d < sum_list (map greg_year_days [1970..<Suc y])"
      using assms(1) greg_days_in_year by (simp add: greg_date_def)
    also have "\<dots> \<le> sum_list (map greg_year_days [1970..<y'])"
      using 1 assms by (intro sum_upt_mono) (auto simp: greg_date_def)
    finally show ?thesis by (simp add: greg_days_def)
  next
    case 2
    have "greg_days y m d < sum_list (map greg_year_days [1970..<y])
           + sum_list (map (greg_month_days y) [1..<Suc m])"
      using assms(1) greg_days_in_month by (simp add: greg_date_def)
    also have "sum_list (map (greg_month_days y) [1..<Suc m]) \<le> sum_list (map (greg_month_days y) [1..<m'])"
      using 2 assms by (intro sum_upt_mono) (auto simp: greg_date_def)
    finally show ?thesis using 2 by (simp add: greg_days_def)
  next
    case 3
    then show ?thesis using assms by (auto simp: greg_days_def greg_date_def)
  qed
qed

lemma greg_days_inj:
  assumes "greg_date y m d" and "greg_date y' m' d'" and "greg_days y m d = greg_days y' m' d'"
  shows "(y, m, d) = (y', m', d')"
proof (rule ccontr)
  assume "(y, m, d) \<noteq> (y', m', d')"
  then have "(y < y' \<or> y = y' \<and> (m < m' \<or> m = m' \<and> d < d')) \<or>
             (y' < y \<or> y' = y \<and> (m' < m \<or> m' = m \<and> d' < d))" by auto
  then show False using greg_days_lex [OF assms(1,2)] greg_days_lex [OF assms(2,1)] assms(3) by auto
qed

lemma greg_days_bounds:
  assumes "greg_date y m d"
  shows "10957 \<le> greg_days y m d" and "greg_days y m d \<le> 47481"
proof -
  have "greg_days y m d < sum_list (map greg_year_days [1970..<Suc y])"
    using assms greg_days_in_year by (simp add: greg_date_def)
  also have "\<dots> \<le> sum_list (map greg_year_days [1970..<2000 + 100])"
    using assms by (intro sum_upt_mono) (auto simp: greg_date_def)
  also have "\<dots> = 47482" using greg_years_closed [of 100] by simp
  finally show "greg_days y m d \<le> 47481" by simp
  have "sum_list (map greg_year_days [1970..<2000 + 0]) \<le> sum_list (map greg_year_days [1970..<y])"
    using assms by (intro sum_upt_mono) (auto simp: greg_date_def)
  then show "10957 \<le> greg_days y m d"
    using greg_years_closed [of 0] by (simp add: greg_days_def)
qed

end
