(* ===== verification/Rtc_Calendar.thy ===== *)
theory Rtc_Calendar
  imports Rtc_Seed Gregorian
begin

text \<open>
  Correctness of the calendar conversions of \<^verbatim>\<open>NwoasRtcSeedCore.c\<close>: the 64-bit computation never
  wraps on the accepted epochs, agrees with the Gregorian reference, and the two directions are
  inverse to one another.
\<close>

lemma civil_no_wrap:
  fixes n :: nat
  assumes "10957 \<le> n" and "n \<le> 47481"
    and "doe = (n + 719468) mod 146097"
    and "yoe = (doe - doe div 1460 + doe div 36524 - doe div 146096) div 365"
  shows "yoe \<le> 399" and "365 * yoe + yoe div 4 - yoe div 100 \<le> doe"
    and "doe - (365 * yoe + yoe div 4 - yoe div 100) \<le> 365"
proof -
  have "yoe \<le> 399 \<and> 365 * yoe + yoe div 4 - yoe div 100 \<le> doe \<and>
        doe - (365 * yoe + yoe div 4 - yoe div 100) \<le> 365"
  proof (cases "n < 11017")
    case True
    define k where "k = n - 10957"
    have k: "n = 10957 + k" "k < 60" using True assms(1) by (simp_all add: k_def)
    have doe: "doe = 146037 + k"
    proof -
      have "n + 719468 = 146037 + k + 4 * 146097" using k by simp
      then show ?thesis using k assms(3) by (simp only: mod_mult_self1) simp
    qed
    have "yoe = 399"
    proof (cases "k = 59")
      case False
      then have "doe div 1460 = 100" "doe div 36524 = 3" "doe div 146096 = 0"
        using doe k by simp_all
      then show ?thesis using assms(4) doe k by simp
    qed (simp add: assms(4) doe)
    then show ?thesis using doe k by simp
  next
    case False
    define k where "k = n - 11017"
    have k: "n = 11017 + k" "k \<le> 36464" using False assms(2) by (simp_all add: k_def)
    have doe: "doe = k"
    proof -
      have "n + 719468 = k + 5 * 146097" using k by simp
      then show ?thesis using k assms(3) by (simp only: mod_mult_self1) simp
    qed
    have yoe: "yoe = (doe - doe div 1460) div 365" using assms(4) k doe by simp
    have "doe \<le> 36464" using doe k by simp
    note b = civil_year_bounds [OF this yoe]
    then show ?thesis by (simp split: if_splits)
  qed
  then show "yoe \<le> 399" and "365 * yoe + yoe div 4 - yoe div 100 \<le> doe"
    and "doe - (365 * yoe + yoe div 4 - yoe div 100) \<le> 365" by blast+
qed

lemma unat_civil_from_days:
  assumes "10957 \<le> unat z0" and "unat z0 \<le> 47481" and "civil_nat (unat z0) = (y, m, d)"
  shows "civil_from_days z0 = (word_of_nat y, word_of_nat m, word_of_nat d)"
proof -
  define z where "z = z0 + 719468"
  define era where "era = z div 146097"
  define doe where "doe = z - era * 146097"
  define yo where "yo = (doe - doe div 1460 + doe div 36524 - doe div 146096) div 365"
  define c where "c = 365 * yo + yo div 4 - yo div 100"
  define dy where "dy = doe - c"
  define mp where "mp = (5 * dy + 2) div 153"
  define e where "e = (153 * mp + 2) div 5"
  have z: "unat z = unat z0 + 719468" using assms(2) by (simp add: z_def unat_add_small)
  have era: "unat era = unat z div 146097" by (simp add: era_def unat_div)
  have doe: "unat doe = unat z mod 146097"
  proof -
    have "unat (era * 146097) = unat z div 146097 * 146097"
      using z assms(2) era by (simp add: unat_mult_small)
    then show ?thesis
      unfolding doe_def by (subst unat_diff_small) (simp_all add: word_le_nat_alt modulo_nat_def)
  qed
  have doe_lt: "unat doe < 146097" by (simp add: doe)
  have yo: "unat yo = (unat doe - unat doe div 1460 + unat doe div 36524 - unat doe div 146096) div 365"
  proof -
    have "unat (doe - doe div 1460) = unat doe - unat doe div 1460"
      by (subst unat_diff_small) (simp_all add: word_le_nat_alt unat_div)
    then have 1: "unat (doe - doe div 1460 + doe div 36524) = unat doe - unat doe div 1460 + unat doe div 36524"
      using doe_lt by (subst unat_add_small) (simp_all add: unat_div)
    have "unat (doe - doe div 1460 + doe div 36524 - doe div 146096)
        = unat doe - unat doe div 1460 + unat doe div 36524 - unat doe div 146096"
      using 1 by (subst unat_diff_small) (simp_all add: word_le_nat_alt unat_div)
    then show ?thesis by (simp add: yo_def unat_div)
  qed
  note b = civil_no_wrap [OF assms(1,2) doe [unfolded z] yo]
  have c: "unat c = 365 * unat yo + unat yo div 4 - unat yo div 100"
  proof -
    have "unat (365 * yo + yo div 4) = 365 * unat yo + unat yo div 4"
      using b(1) by (simp add: unat_add_small unat_mult_small unat_div)
    then show ?thesis
      unfolding c_def by (subst unat_diff_small) (simp_all add: word_le_nat_alt unat_div)
  qed
  have dy: "unat dy = unat doe - unat c"
    unfolding dy_def using b(2) c by (subst unat_diff_small) (simp_all add: word_le_nat_alt)
  have dy_le: "unat dy \<le> 365" using dy b(3) c by simp
  have mp: "unat mp = (5 * unat dy + 2) div 153"
    using dy_le by (simp add: mp_def unat_div unat_add_small unat_mult_small)
  note mb = month_of_doy [OF dy_le mp]
  have e: "unat e = (153 * unat mp + 2) div 5"
    using mb(1) by (simp add: e_def unat_div unat_add_small unat_mult_small)
  have d1: "unat (dy - e + 1) = unat dy - unat e + 1"
    using mb(2) dy_le e by (subst unat_add_small) (simp_all add: unat_diff_small word_le_nat_alt)
  have lt10: "mp < 10 \<longleftrightarrow> unat mp < 10" by (simp add: word_less_nat_alt)
  have m1: "unat (if mp < 10 then mp + 3 else mp - 9) = (if unat mp < 10 then unat mp + 3 else unat mp - 9)"
    using mb(1) by (auto simp: lt10 unat_add_small unat_diff_small word_le_nat_alt)
  have y1: "unat (yo + era * 400) = unat yo + unat era * 400"
    using b(1) era z assms(2) by (simp add: unat_add_small unat_mult_small)
  define m' where "m' = (if mp < 10 then mp + 3 else mp - 9)"
  have "civil_nat (unat z0) =
      (unat yo + unat era * 400 + (if unat m' \<le> 2 then 1 else 0), unat m', unat dy - unat e + 1)"
  proof -
    have doe': "unat z - unat era * 146097 = unat doe"
      by (simp add: doe era minus_div_mult_eq_mod)
    have m': "unat m' = (if unat mp < 10 then unat mp + 3 else unat mp - 9)"
      by (simp only: m'_def m1)
    show ?thesis
      unfolding civil_nat_def Let_def z [symmetric] era [symmetric] doe' yo [symmetric] c [symmetric]
        dy [symmetric] mp [symmetric] e [symmetric] m' [symmetric] by (rule refl)
  qed
  then have y: "y = unat yo + unat era * 400 + (if unat m' \<le> 2 then 1 else 0)"
    and m: "m = unat m'" and d: "d = unat (dy - e + 1)"
    using assms(3) d1 by simp_all
  have "unat m' \<le> 12" using m1 mb(1) unfolding m'_def by (auto split: if_splits)
  then have "unat (ucast m' :: u32) = unat m'" by (simp add: unat_ucast_small)
  then have le2: "(ucast m' :: u32) \<le> 2 \<longleftrightarrow> unat m' \<le> 2" by (simp add: word_le_nat_alt)
  have "civil_from_days z0 = (ucast (yo + era * 400 + (if (ucast m' :: u32) \<le> 2 then 1 else 0)),
      ucast m', ucast (dy - e + 1))"
    by (simp add: civil_from_days_def Let_def z_def era_def doe_def yo_def c_def dy_def mp_def e_def m'_def)
  moreover have "unat (yo + era * 400 + (if (ucast m' :: u32) \<le> 2 then 1 else 0)) = y"
    using y1 y le2 b(1) era z assms(2) by (auto simp: unat_add_small)
  ultimately show ?thesis
    unfolding m d by (metis ucast_word_of_nat_unat)
qed

lemma is_leap_year_greg: "nwoas_rtc_is_leap_year y \<longleftrightarrow> greg_leap (unat y)"
proof -
  have "unat (y mod 4) = unat y mod 4" "unat (y mod 100) = unat y mod 100"
    "unat (y mod 400) = unat y mod 400" by (simp_all add: unat_mod)
  then have "y mod 4 = 0 \<longleftrightarrow> 4 dvd unat y" "y mod 100 = 0 \<longleftrightarrow> 100 dvd unat y"
    "y mod 400 = 0 \<longleftrightarrow> 400 dvd unat y"
    by (simp_all add: word_unat_eq_iff dvd_eq_mod_eq_0)
  then show ?thesis by (auto simp: nwoas_rtc_is_leap_year_def greg_leap_def)
qed

lemma days_in_month_greg:
  assumes "1 \<le> unat m" and "unat m \<le> 12"
  shows "unat (nwoas_rtc_days_in_month y m) = greg_month_days (unat y) (unat m)"
proof -
  define k where "k = unat m - 1"
  have m: "m = word_of_nat (Suc k)" and k: "k \<le> 11"
    using assms by (simp_all add: k_def)
  show ?thesis
    using le_11_cases [OF k] m
    by (elim insertE emptyE)
       (simp_all add: nwoas_rtc_days_in_month_def dim_table_def greg_month_days_def is_leap_year_greg)
qed

lemma days_from_civil_greg:
  assumes "greg_date (unat y) (unat m) (unat d)"
  shows "unat (days_from_civil y m d) = greg_days (unat y) (unat m) (unat d)"
proof -
  have dt: "2000 \<le> unat y" "unat y \<le> 2099" "1 \<le> unat m" "unat m \<le> 12" "1 \<le> unat d" "unat d \<le> 31"
    using assms by (auto simp: greg_date_def greg_month_days_def split: if_splits)
  define y' where "y' = y - (if m \<le> 2 then 1 else 0)"
  define era where "era = (ucast (y' div 400) :: u64)"
  define yoe where "yoe = (ucast y' - era * 400 :: u64)"
  define mp where "mp = (if m > 2 then m - 3 else m + 9)"
  define doy where "doy = (ucast ((153 * mp + 2) div 5 + d - 1) :: u64)"
  have le2: "m \<le> 2 \<longleftrightarrow> unat m \<le> 2" by (simp add: word_le_nat_alt)
  have y': "unat y' = unat y - (if unat m \<le> 2 then 1 else 0)"
    using dt by (auto simp: y'_def le2 unat_diff_small word_le_nat_alt)
  have mp: "unat mp = (if unat m > 2 then unat m - 3 else unat m + 9)"
    using dt by (auto simp: mp_def word_less_nat_alt word_le_nat_alt unat_diff_small unat_add_small)
  then have mp_le: "unat mp \<le> 11" using dt by auto
  have era: "unat era = unat y' div 400"
    using y' dt by (simp add: era_def unat_ucast_small unat_div)
  have yoe: "unat yoe = unat y' mod 400"
  proof -
    have "unat (era * 400) = unat y' div 400 * 400"
      using era y' dt by (simp add: unat_mult_small)
    moreover have "unat (ucast y' :: u64) = unat y'" using y' dt by (simp add: unat_ucast_small)
    ultimately show ?thesis
      unfolding yoe_def by (subst unat_diff_small) (simp_all add: word_le_nat_alt modulo_nat_def)
  qed
  have doy: "unat doy = (153 * unat mp + 2) div 5 + unat d - 1"
  proof -
    have 1: "unat ((153 * mp + 2) div 5) = (153 * unat mp + 2) div 5"
      using mp_le by (simp add: unat_div unat_add_small unat_mult_small)
    then have "unat ((153 * mp + 2) div 5 + d) = (153 * unat mp + 2) div 5 + unat d"
      using mp_le dt by (simp add: unat_add_small)
    then have "unat ((153 * mp + 2) div 5 + d - 1) = (153 * unat mp + 2) div 5 + unat d - 1"
      using dt by (subst unat_diff_small) (simp_all add: word_le_nat_alt)
    then show ?thesis using mp_le dt by (simp add: doy_def unat_ucast_small)
  qed
  define c where "c = yoe * 365 + yoe div 4 - yoe div 100"
  have c: "unat c = unat yoe * 365 + unat yoe div 4 - unat yoe div 100"
  proof -
    have "unat yoe < 400" by (simp add: yoe)
    then have "unat (yoe * 365 + yoe div 4) = unat yoe * 365 + unat yoe div 4"
      by (simp add: unat_add_small unat_mult_small unat_div)
    then show ?thesis
      unfolding c_def by (subst unat_diff_small) (simp_all add: word_le_nat_alt unat_div)
  qed
  have eq: "days_from_civil y m d = era * 146097 + (c + doy) - 719468"
    by (simp add: days_from_civil_def Let_def y'_def era_def yoe_def mp_def doy_def c_def)
  have doy_le: "unat doy \<le> 400" using doy mp_le dt by simp
  show ?thesis
  proof (cases "unat y' = 1999")
    case True
    then have y: "unat y = 2000" "unat m \<le> 2" using y' dt by (auto split: if_splits)
    have e: "era = 4" "unat yoe = 399" using True era yoe by (simp_all add: word_unat_eq_iff)
    then have "c = 145731" using c by (simp add: word_unat_eq_iff)
    then have "days_from_civil y m d = 10651 + doy" using eq e by simp
    then have "unat (days_from_civil y m d) = 10651 + unat doy"
      using doy_le by (simp add: unat_add_small)
    moreover have "unat m = 1 \<or> unat m = 2" using y(2) dt(3) by linarith
    ultimately show ?thesis
      using y doy mp dt(5) greg_years_closed [of 0]
      by (auto simp: greg_days_def greg_month_days_def upt_conv_Cons)
  next
    case False
    define k where "k = unat y' - 2000"
    have k: "unat y' = 2000 + k" "k \<le> 99" using False y' dt by (auto simp: k_def split: if_splits)
    have e: "era = 5" "unat yoe = k"
      using k era yoe by (simp_all add: word_unat_eq_iff mod_if)
    then have c': "unat c = 365 * k + k div 4" using c k by simp
    have "days_from_civil y m d = 11017 + (c + doy)" using eq e by simp
    then have "unat (days_from_civil y m d) = 11017 + (365 * k + k div 4 + unat doy)"
      using doy_le c' k by (simp add: unat_add_small)
    moreover have "greg_days (unat y) (unat m) (unat d)
        = 11017 + 365 * k + k div 4 + (153 * unat mp + 2) div 5 + (unat d - 1)"
      by (rule greg_days_closed [OF k(2) mp_le]) (use k y' mp dt in \<open>auto split: if_splits\<close>)
    ultimately show ?thesis using doy dt(5) by simp
  qed
qed

definition cal_seconds :: "nwoas_rtc_calendar_t \<Rightarrow> nat" where
  "cal_seconds c =
     greg_days (unat (cal_year c)) (unat (cal_month c)) (unat (cal_day c)) * 86400
       + unat (cal_hour c) * 3600 + unat (cal_minute c) * 60 + unat (cal_second c)"

definition cal_utc :: "nwoas_rtc_calendar_t \<Rightarrow> bool" where
  "cal_utc c \<longleftrightarrow> cal_timezone c = NWOAS_RTC_TZ_UNSPECIFIED \<and> cal_daylight c = 0 \<and> cal_nanosecond c = 0"

lemma calendar_validate_OK:
  assumes "nwoas_rtc_calendar_validate (Some c) = NWOAS_RTC_OK"
  shows "greg_date (unat (cal_year c)) (unat (cal_month c)) (unat (cal_day c))"
    and "unat (cal_hour c) \<le> 23" and "unat (cal_minute c) \<le> 59" and "unat (cal_second c) \<le> 59"
proof -
  have v: "unat (cal_year c) \<ge> 2000" "unat (cal_year c) \<le> 2099" "unat (cal_month c) \<ge> 1"
    "unat (cal_month c) \<le> 12" "unat (cal_day c) \<ge> 1"
    "cal_day c \<le> nwoas_rtc_days_in_month (ucast (cal_year c)) (ucast (cal_month c))"
    "unat (cal_hour c) \<le> 23" "unat (cal_minute c) \<le> 59" "unat (cal_second c) \<le> 59"
    using assms
    by (auto simp: nwoas_rtc_calendar_validate_def word_less_nat_alt not_less word_le_nat_alt
        split: if_splits)
  then have "unat (cal_day c) \<le> greg_month_days (unat (cal_year c)) (unat (cal_month c))"
    using days_in_month_greg [of "ucast (cal_month c)" "ucast (cal_year c)"]
    by (simp add: word_le_nat_alt unat_ucast_small)
  with v show "greg_date (unat (cal_year c)) (unat (cal_month c)) (unat (cal_day c))"
    by (simp add: greg_date_def)
  show "unat (cal_hour c) \<le> 23" and "unat (cal_minute c) \<le> 59" and "unat (cal_second c) \<le> 59"
    using v by blast+
qed

lemma calendar_validate_intro:
  assumes "greg_date (unat (cal_year c)) (unat (cal_month c)) (unat (cal_day c))"
    and "unat (cal_hour c) \<le> 23" and "unat (cal_minute c) \<le> 59" and "unat (cal_second c) \<le> 59"
    and "cal_utc c"
  shows "nwoas_rtc_calendar_validate (Some c) = NWOAS_RTC_OK"
proof -
  have "cal_day c \<le> nwoas_rtc_days_in_month (ucast (cal_year c)) (ucast (cal_month c))"
    using assms(1) days_in_month_greg [of "ucast (cal_month c)" "ucast (cal_year c)"]
    by (simp add: greg_date_def word_le_nat_alt unat_ucast_small)
  then show ?thesis
    using assms
    by (auto simp: nwoas_rtc_calendar_validate_def word_less_nat_alt not_less word_le_nat_alt
        greg_date_def cal_utc_def)
qed

lemma epoch_to_calendar_spec:
  assumes "NWOAS_RTC_EPOCH_MIN \<le> epoch" and "epoch \<le> NWOAS_RTC_EPOCH_MAX"
  obtains c where "nwoas_rtc_epoch_to_calendar epoch (Some c0) = (NWOAS_RTC_OK, Some c)"
    and "greg_date (unat (cal_year c)) (unat (cal_month c)) (unat (cal_day c))"
    and "unat (cal_hour c) \<le> 23" and "unat (cal_minute c) \<le> 59" and "unat (cal_second c) \<le> 59"
    and "cal_utc c" and "cal_seconds c = unat epoch"
proof -
  define days where "days = epoch div 86400"
  define sod where "sod = (ucast (epoch - days * 86400) :: u32)"
  obtain y m d where ymd: "civil_nat (unat days) = (y, m, d)" by (metis prod_cases3)
  have ep: "946684800 \<le> unat epoch" "unat epoch \<le> 4102444799"
    using assms by (simp_all add: word_le_nat_alt)
  have days: "unat days = unat epoch div 86400" by (simp add: days_def unat_div)
  then have rng: "10957 \<le> unat days" "unat days \<le> 47481" using ep by simp_all
  have "unat (days * 86400) = unat epoch div 86400 * 86400"
    using days rng by (simp add: unat_mult_small)
  then have "unat (epoch - days * 86400) = unat epoch mod 86400"
    by (subst unat_diff_small) (simp_all add: word_le_nat_alt modulo_nat_def)
  then have sod: "unat sod = unat epoch mod 86400" by (simp add: sod_def unat_ucast_small)
  note date = civil_nat_correct [OF rng ymd]
  have civ: "civil_from_days days = (word_of_nat y, word_of_nat m, word_of_nat d)"
    by (rule unat_civil_from_days [OF rng ymd])
  have b: "y \<le> 2099" "m \<le> 12" "d \<le> 31"
    using date(1) by (auto simp: greg_date_def greg_month_days_def split: if_splits)
  define c where "c = cal_zero\<lparr>cal_year := ucast (word_of_nat y :: u32),
     cal_month := ucast (word_of_nat m :: u32), cal_day := ucast (word_of_nat d :: u32), cal_hour := ucast (sod div 3600),
     cal_minute := ucast ((sod div 60) mod 60), cal_second := ucast (sod mod 60)\<rparr>"
  have f: "unat (cal_year c) = y" "unat (cal_month c) = m" "unat (cal_day c) = d"
    using b by (simp_all add: c_def unat_of_nat_small unat_ucast_small)
  have lt: "unat sod < 86400" by (simp add: sod)
  have h: "unat (cal_hour c) = unat sod div 3600" "unat (cal_minute c) = unat sod div 60 mod 60"
    "unat (cal_second c) = unat sod mod 60"
    using lt by (simp_all add: c_def unat_ucast_small unat_div unat_mod)
  have out: "nwoas_rtc_epoch_to_calendar epoch (Some c0) = (NWOAS_RTC_OK, Some c)"
    using assms civ
    by (simp add: nwoas_rtc_epoch_to_calendar_def not_less [symmetric] Let_def days_def sod_def c_def)
  have secs: "cal_seconds c = unat epoch"
  proof -
    define q where "q = unat sod div 60"
    have "q div 60 * 3600 + q mod 60 * 60 = (q div 60 * 60 + q mod 60) * 60"
      by (simp only: distrib_right mult.assoc)
    also have "\<dots> = q * 60" by (simp only: div_mult_mod_eq)
    finally have "q div 60 * 3600 + q mod 60 * 60 + unat sod mod 60 = unat sod"
      by (simp only: q_def div_mult_mod_eq)
    moreover have "unat sod div 3600 = q div 60" by (simp add: q_def div_mult2_eq [symmetric])
    ultimately have "unat sod div 3600 * 3600 + unat sod div 60 mod 60 * 60 + unat sod mod 60 = unat sod"
      by (simp only: q_def)
    then show ?thesis
      using div_mult_mod_eq [of "unat epoch" 86400] unfolding cal_seconds_def f h date(2) days sod by linarith
  qed
  show thesis
  proof (rule that [OF out])
    show "unat (cal_hour c) \<le> 23" "unat (cal_minute c) \<le> 59" "unat (cal_second c) \<le> 59"
      using lt h by auto
    show "cal_utc c" by (simp add: cal_utc_def c_def cal_zero_def)
  qed (use f date secs in auto)
qed

lemma calendar_to_epoch_spec:
  assumes "nwoas_rtc_calendar_validate (Some c) = NWOAS_RTC_OK"
  shows "nwoas_rtc_calendar_to_epoch (Some c) (Some e0) = (NWOAS_RTC_OK, Some (word_of_nat (cal_seconds c)))"
    and "946684800 \<le> cal_seconds c" and "cal_seconds c \<le> 4102444799"
proof -
  note v = calendar_validate_OK [OF assms]
  have u: "unat (ucast (cal_year c) :: u32) = unat (cal_year c)"
    "unat (ucast (cal_month c) :: u32) = unat (cal_month c)"
    "unat (ucast (cal_day c) :: u32) = unat (cal_day c)"
    by (simp_all add: unat_ucast_small unsigned_less [THEN less_trans])
  have days: "unat (days_from_civil (ucast (cal_year c)) (ucast (cal_month c)) (ucast (cal_day c)))
      = greg_days (unat (cal_year c)) (unat (cal_month c)) (unat (cal_day c))"
    using days_from_civil_greg u v(1) by metis
  note b = greg_days_bounds [OF v(1)]
  show "946684800 \<le> cal_seconds c" and "cal_seconds c \<le> 4102444799"
    using b v by (simp_all add: cal_seconds_def)
  show "nwoas_rtc_calendar_to_epoch (Some c) (Some e0) = (NWOAS_RTC_OK, Some (word_of_nat (cal_seconds c)))"
    using assms by (simp add: nwoas_rtc_calendar_to_epoch_def Let_def cal_seconds_def days [symmetric])
qed



text \<open>
  C15. Every epoch from 2000 to 2099 converts to a calendar that the validator accepts, that
  denotes the same instant by the Gregorian rules, and that converts back to the epoch.
\<close>

theorem epoch_calendar_epoch:
  assumes "NWOAS_RTC_EPOCH_MIN \<le> epoch" and "epoch \<le> NWOAS_RTC_EPOCH_MAX"
  shows "\<exists>c. nwoas_rtc_epoch_to_calendar epoch (Some c0) = (NWOAS_RTC_OK, Some c) \<and>
             nwoas_rtc_calendar_validate (Some c) = NWOAS_RTC_OK \<and>
             cal_seconds c = unat epoch \<and>
             nwoas_rtc_calendar_to_epoch (Some c) (Some e0) = (NWOAS_RTC_OK, Some epoch)"
proof (rule epoch_to_calendar_spec [OF assms])
  fix c
  assume c: "nwoas_rtc_epoch_to_calendar epoch (Some c0) = (NWOAS_RTC_OK, Some c)"
    "greg_date (unat (cal_year c)) (unat (cal_month c)) (unat (cal_day c))"
    "unat (cal_hour c) \<le> 23" "unat (cal_minute c) \<le> 59" "unat (cal_second c) \<le> 59"
    "cal_utc c" "cal_seconds c = unat epoch"
  then have "nwoas_rtc_calendar_validate (Some c) = NWOAS_RTC_OK" by (intro calendar_validate_intro)
  with c calendar_to_epoch_spec(1) [OF this] show ?thesis by auto
qed

theorem epoch_calendar_epoch_witness:
  "\<exists>c. nwoas_rtc_epoch_to_calendar 1709164800 (Some cal_zero) = (NWOAS_RTC_OK, Some c) \<and>
       nwoas_rtc_calendar_validate (Some c) = NWOAS_RTC_OK \<and> cal_seconds c = 1709164800 \<and>
       nwoas_rtc_calendar_to_epoch (Some c) (Some 0) = (NWOAS_RTC_OK, Some 1709164800)"
  using epoch_calendar_epoch [of 1709164800 cal_zero 0] by simp



end
