(* ===== verification/Mmio_Bus.thy ===== *)
theory Mmio_Bus
  imports Nwoas_Prelude
begin

text \<open>
  Memory-mapped register access.  The device behind a register window is not part of the
  repository, so it is a parameter: a read and a write callback over an arbitrary environment
  \<open>'e\<close>, with no assumption on what they return.  Every access also appends an event to a log,
  so that a property about what a driver may write holds for every device.
\<close>

datatype 'v mmio_event = MRead u64 'v | MWrite u64 'v

record ('e, 'v) io_state =
  io_env :: 'e
  io_log :: "'v mmio_event list"

type_synonym ('e, 'v) reg_read = "'e \<Rightarrow> u64 \<Rightarrow> 'v \<times> 'e"
type_synonym ('e, 'v) reg_write = "'e \<Rightarrow> u64 \<Rightarrow> 'v \<Rightarrow> 'e"
type_synonym 'e env_value = "'e \<Rightarrow> u64 \<times> 'e"

definition io_read :: "('e, 'v) reg_read \<Rightarrow> u64 \<Rightarrow> ('e, 'v) io_state \<Rightarrow> 'v \<times> ('e, 'v) io_state" where
  "io_read rd a s =
     (let (v, e) = rd (io_env s) a in (v, \<lparr>io_env = e, io_log = io_log s @ [MRead a v]\<rparr>))"

definition io_write :: "('e, 'v) reg_write \<Rightarrow> u64 \<Rightarrow> 'v \<Rightarrow> ('e, 'v) io_state \<Rightarrow> ('e, 'v) io_state" where
  "io_write wr a v s = \<lparr>io_env = wr (io_env s) a v, io_log = io_log s @ [MWrite a v]\<rparr>"

definition io_sample :: "('e \<Rightarrow> 'a \<times> 'e) \<Rightarrow> ('e, 'v) io_state \<Rightarrow> 'a \<times> ('e, 'v) io_state" where
  "io_sample c s = (let (v, e) = c (io_env s) in (v, s\<lparr>io_env := e\<rparr>))"

fun writes_of :: "'v mmio_event list \<Rightarrow> (u64 \<times> 'v) list" where
  "writes_of [] = []"
| "writes_of (MRead a v # es) = writes_of es"
| "writes_of (MWrite a v # es) = (a, v) # writes_of es"

abbreviation io_writes :: "('e, 'v) io_state \<Rightarrow> (u64 \<times> 'v) list" where
  "io_writes s \<equiv> writes_of (io_log s)"

lemma writes_of_append [simp]: "writes_of (xs @ ys) = writes_of xs @ writes_of ys"
  by (induction xs rule: writes_of.induct) simp_all

lemma io_read_writes [simp]: "io_writes (snd (io_read rd a s)) = io_writes s"
  by (simp add: io_read_def split: prod.splits)

lemma io_sample_writes [simp]: "io_writes (snd (io_sample c s)) = io_writes s"
  by (simp add: io_sample_def split: prod.splits)

lemma io_write_writes [simp]: "io_writes (io_write wr a v s) = io_writes s @ [(a, v)]"
  by (simp add: io_write_def)

lemma io_readE:
  "io_read rd a s = (v, s') \<Longrightarrow> io_writes s' = io_writes s"
  by (metis io_read_writes snd_conv)

lemma io_sampleE:
  "io_sample c s = (v, s') \<Longrightarrow> io_writes s' = io_writes s"
  by (metis io_sample_writes snd_conv)

text \<open>
  The contract of a driver routine: whatever the device answers, it appends a bounded number of
  writes to the log, all of them allowed.
\<close>

locale mmio_driver =
  fixes run :: "('e, 'v) io_state \<Rightarrow> 'r \<times> ('e, 'v) io_state"
    and allowed :: "u64 \<Rightarrow> 'v \<Rightarrow> bool" and bound :: nat
  assumes run_writes: "\<exists>ws. io_writes (snd (run s)) = io_writes s @ ws \<and> length ws \<le> bound \<and>
      (\<forall>(a, v) \<in> set ws. allowed a v)"
begin

fun run_times :: "nat \<Rightarrow> ('e, 'v) io_state \<Rightarrow> ('e, 'v) io_state" where
  "run_times 0 s = s"
| "run_times (Suc n) s = run_times n (snd (run s))"

lemma run_times_writes:
  "\<exists>ws. io_writes (run_times n s) = io_writes s @ ws \<and> length ws \<le> n * bound \<and>
     (\<forall>(a, v) \<in> set ws. allowed a v)"
proof (induction n arbitrary: s)
  case 0
  then show ?case by simp
next
  case (Suc n)
  obtain ws where ws: "io_writes (snd (run s)) = io_writes s @ ws" "length ws \<le> bound"
    "\<forall>(a, v) \<in> set ws. allowed a v" using run_writes by blast
  obtain vs where vs: "io_writes (run_times n (snd (run s))) = io_writes (snd (run s)) @ vs"
    "length vs \<le> n * bound" "\<forall>(a, v) \<in> set vs. allowed a v" using Suc.IH by blast
  have "length (ws @ vs) \<le> Suc n * bound" using ws(2) vs(2) by simp
  moreover have "\<forall>(a, v) \<in> set (ws @ vs). allowed a v" using ws(3) vs(3) by auto
  ultimately show ?case using ws(1) vs(1) by (intro exI [of _ "ws @ vs"]) simp
qed

lemma other_address_untouched:
  assumes "io_writes s = []" and "\<And>v. \<not> allowed a v"
  shows "(a, v) \<notin> set (io_writes (run_times n s))"
  using run_times_writes [of n s] assms by force

end

end
