(* ===== verification/Sera_Rtc.thy ===== *)
theory Sera_Rtc
  imports Mmio_Bus "HOL-Library.Signed_Division"
begin

text \<open>
  The read-only snapshot of the SERA PMU clock over SPMI, \<^verbatim>\<open>nwoas_sera_rtc.c\<close> with its header
  (under \<^verbatim>\<open>firmware-s216/NwoasHardwareBootRtcLib\<close>).  The four callbacks of
  \<^verbatim>\<open>nwoas_sera_rtc_ops_t\<close> are parameters; a NULL callback is \<open>None\<close>.  The signed 64-bit
  seconds are an \<open>int\<close>: every value the code computes lies within 49 bits.
\<close>

section \<open>Types and constants\<close>

datatype nwoas_sera_status_t =
    NWOAS_SERA_OK
  | NWOAS_SERA_E_ARG
  | NWOAS_SERA_E_CNTFRQ
  | NWOAS_SERA_E_FIFO_NOT_IDLE
  | NWOAS_SERA_E_TIMEOUT
  | NWOAS_SERA_E_POLL_CAP
  | NWOAS_SERA_E_BAD_HEADER
  | NWOAS_SERA_E_EXTRA_RESPONSE
  | NWOAS_SERA_E_COUNTER_BACKWARD
  | NWOAS_SERA_E_COUNTER_SPAN
  | NWOAS_SERA_E_NEGATIVE_TIME
  | NWOAS_SERA_E_RANGE

record 'e nwoas_sera_rtc_ops_t =
  sera_read32 :: "('e, u32) reg_read option"
  sera_write32 :: "('e, u32) reg_write option"
  sera_physical_counter :: "'e env_value option"
  sera_counter_frequency :: "'e env_value option"

record nwoas_sera_rtc_result_t =
  res_utc_seconds :: int
  res_subseconds :: u32
  res_nanoseconds :: u32
  res_cntpct :: u64
  res_cntfrq :: u64
  res_counter0 :: u64
  res_offset :: u64
  res_counter1 :: u64
  res_headers :: "u32 list"
  res_transactions_done :: u32
  res_cmd_writes :: u32

record 'e nwoas_sera_bus_t =
  bus_read32 :: "('e, u32) reg_read"
  bus_write32 :: "('e, u32) reg_write"
  bus_counter :: "'e env_value"
  bus_deadline_ticks :: u64

abbreviation NWOAS_SERA_SPMI_STATUS :: u64 where "NWOAS_SERA_SPMI_STATUS \<equiv> 0x23d0d9300"
abbreviation NWOAS_SERA_SPMI_CMD :: u64 where "NWOAS_SERA_SPMI_CMD \<equiv> 0x23d0d9304"
abbreviation NWOAS_SERA_SPMI_RSP :: u64 where "NWOAS_SERA_SPMI_RSP \<equiv> 0x23d0d9308"
abbreviation NWOAS_SERA_STATUS_RX_EMPTY :: u32 where "NWOAS_SERA_STATUS_RX_EMPTY \<equiv> 0x1000000"
abbreviation NWOAS_SERA_STATUS_TX_MASK :: u32 where "NWOAS_SERA_STATUS_TX_MASK \<equiv> 0xff"
abbreviation NWOAS_SERA_CMD_READ_TIME :: u32 where "NWOAS_SERA_CMD_READ_TIME \<equiv> 0xd0028f3d"
abbreviation NWOAS_SERA_CMD_READ_OFFSET :: u32 where "NWOAS_SERA_CMD_READ_OFFSET \<equiv> 0xd1008f3d"
abbreviation NWOAS_SERA_RSP_ECHO_MASK :: u32 where "NWOAS_SERA_RSP_ECHO_MASK \<equiv> 0xffff"
abbreviation NWOAS_SERA_RSP_ECHO :: u32 where "NWOAS_SERA_RSP_ECHO \<equiv> 0x0f3d"
abbreviation NWOAS_SERA_RSP_WORDS :: nat where "NWOAS_SERA_RSP_WORDS \<equiv> 3"
abbreviation NWOAS_SERA_MAX_POLLS :: nat where "NWOAS_SERA_MAX_POLLS \<equiv> 200000"
abbreviation NWOAS_SERA_CNTFRQ_MIN :: u64 where "NWOAS_SERA_CNTFRQ_MIN \<equiv> 1000000"
abbreviation NWOAS_SERA_CNTFRQ_MAX :: u64 where "NWOAS_SERA_CNTFRQ_MAX \<equiv> 4000000000"
abbreviation NWOAS_SERA_MAX_COUNTER_SPAN :: u64 where "NWOAS_SERA_MAX_COUNTER_SPAN \<equiv> 32768"
abbreviation NWOAS_SERA_UTC_MIN :: int where "NWOAS_SERA_UTC_MIN \<equiv> 946684800"
abbreviation NWOAS_SERA_UTC_MAX :: int where "NWOAS_SERA_UTC_MAX \<equiv> 4102444799"
abbreviation NWOAS_SERA_MASK48 :: u64 where "NWOAS_SERA_MASK48 \<equiv> 0xffffffffffff"
abbreviation NWOAS_SERA_MASK49 :: u64 where "NWOAS_SERA_MASK49 \<equiv> 0x1ffffffffffff"

section \<open>Pure helpers\<close>

definition nwoas_sera_rtc_words_to_u48 :: "u32 \<Rightarrow> u32 \<Rightarrow> u64" where
  "nwoas_sera_rtc_words_to_u48 w1 w2 = ucast w1 OR push_bit 32 (ucast (w2 AND 0xffff))"

definition nwoas_sera_rtc_frac_to_ns :: "u32 \<Rightarrow> u32" where
  "nwoas_sera_rtc_frac_to_ns subseconds =
     (let f = ucast (subseconds AND 0xffff) :: u64 in ucast (drop_bit 16 (f * 1000000000)))"

text \<open>The two output cells are \<open>(seconds, subseconds)\<close>.\<close>

definition nwoas_sera_rtc_convert ::
  "u64 \<Rightarrow> u64 \<Rightarrow> int option \<Rightarrow> u32 option \<Rightarrow> nwoas_sera_status_t \<times> int option \<times> u32 option" where
  "nwoas_sera_rtc_convert counter48 offset48 seconds_out subseconds_out =
     (case (seconds_out, subseconds_out) of
        (Some _, Some _) \<Rightarrow>
          let c = counter48 AND NWOAS_SERA_MASK48;
              ofs = offset48 AND NWOAS_SERA_MASK48;
              sum = (c + push_bit 1 ofs) AND NWOAS_SERA_MASK49;
              signed_time = (if sum AND push_bit 48 1 \<noteq> 0 then - uint (push_bit 49 1 - sum)
                             else uint sum);
              q = signed_time sdiv 65536;
              r = signed_time smod 65536;
              q' = (if r < 0 then q - 1 else q);
              r' = (if r < 0 then r + 65536 else r)
          in (if signed_time < 0 then NWOAS_SERA_E_NEGATIVE_TIME
              else if q' < NWOAS_SERA_UTC_MIN \<or> q' > NWOAS_SERA_UTC_MAX then NWOAS_SERA_E_RANGE
              else NWOAS_SERA_OK,
              Some q', Some (word_of_int r'))
      | _ \<Rightarrow> (NWOAS_SERA_E_ARG, seconds_out, subseconds_out))"

definition nwoas_sera_status_str :: "nwoas_sera_status_t \<Rightarrow> string" where
  "nwoas_sera_status_str st =
     (case st of
        NWOAS_SERA_OK \<Rightarrow> ''ok''
      | NWOAS_SERA_E_ARG \<Rightarrow> ''bad argument''
      | NWOAS_SERA_E_CNTFRQ \<Rightarrow> ''implausible physical counter frequency''
      | NWOAS_SERA_E_FIFO_NOT_IDLE \<Rightarrow>
          ''SPMI FIFO not idle; queued transaction preserved, nothing written''
      | NWOAS_SERA_E_TIMEOUT \<Rightarrow> ''100 ms deadline expired waiting for SPMI reply''
      | NWOAS_SERA_E_POLL_CAP \<Rightarrow> ''poll cap reached (frozen counter or stuck controller)''
      | NWOAS_SERA_E_BAD_HEADER \<Rightarrow> ''SPMI reply header does not echo sid/opcode''
      | NWOAS_SERA_E_EXTRA_RESPONSE \<Rightarrow> ''unexpected extra SPMI reply left in FIFO''
      | NWOAS_SERA_E_COUNTER_BACKWARD \<Rightarrow> ''RTC counter went backwards between reads''
      | NWOAS_SERA_E_COUNTER_SPAN \<Rightarrow> ''RTC counter advanced too far between reads''
      | NWOAS_SERA_E_NEGATIVE_TIME \<Rightarrow> ''counter + offset is negative; no valid clock''
      | NWOAS_SERA_E_RANGE \<Rightarrow> ''decoded time outside 2000..2099; no valid clock'')"

section \<open>Bus access\<close>

definition nwoas_sera_fifo_idle :: "u32 \<Rightarrow> bool" where
  "nwoas_sera_fifo_idle status \<longleftrightarrow>
     status AND NWOAS_SERA_STATUS_RX_EMPTY \<noteq> 0 \<and> status AND NWOAS_SERA_STATUS_TX_MASK = 0"

text \<open>
  The poll loop; the first argument is the number of polls left of \<open>NWOAS_SERA_MAX_POLLS\<close>.
\<close>

fun nwoas_sera_wait_rx ::
  "nat \<Rightarrow> 'e nwoas_sera_bus_t \<Rightarrow> u64 \<Rightarrow> ('e, u32) io_state
     \<Rightarrow> nwoas_sera_status_t \<times> ('e, u32) io_state" where
  "nwoas_sera_wait_rx polls bus start s =
     (if polls = 0 then (NWOAS_SERA_E_POLL_CAP, s)
      else
        let (status, s1) = io_read (bus_read32 bus) NWOAS_SERA_SPMI_STATUS s;
            (now, s2) = io_sample (bus_counter bus) s1
        in if now - start \<ge> bus_deadline_ticks bus then (NWOAS_SERA_E_TIMEOUT, s2)
           else if status AND NWOAS_SERA_STATUS_RX_EMPTY = 0 then (NWOAS_SERA_OK, s2)
           else nwoas_sera_wait_rx (polls - 1) bus start s2)"

declare nwoas_sera_wait_rx.simps [simp del]

text \<open>The loop over the reply words: wait, then read one word.\<close>

fun nwoas_sera_read_words ::
  "nat \<Rightarrow> 'e nwoas_sera_bus_t \<Rightarrow> u64 \<Rightarrow> u32 list \<Rightarrow> ('e, u32) io_state
     \<Rightarrow> nwoas_sera_status_t \<times> u32 list \<times> ('e, u32) io_state" where
  "nwoas_sera_read_words 0 bus start ws s = (NWOAS_SERA_OK, ws, s)"
| "nwoas_sera_read_words (Suc n) bus start ws s =
     (let (st, s1) = nwoas_sera_wait_rx NWOAS_SERA_MAX_POLLS bus start s
      in if st \<noteq> NWOAS_SERA_OK then (st, ws, s1)
         else let (w, s2) = io_read (bus_read32 bus) NWOAS_SERA_SPMI_RSP s1
              in nwoas_sera_read_words n bus start (ws @ [w]) s2)"

text \<open>The result is the status, the result structure and the 48-bit value cell.\<close>

definition nwoas_sera_read_reg ::
  "'e nwoas_sera_bus_t \<Rightarrow> u32 \<Rightarrow> nwoas_sera_rtc_result_t \<Rightarrow> nat \<Rightarrow> ('e, u32) io_state
     \<Rightarrow> nwoas_sera_status_t \<times> nwoas_sera_rtc_result_t \<times> u64 \<times> ('e, u32) io_state" where
  "nwoas_sera_read_reg bus cmd res index s =
     (let (status, s1) = io_read (bus_read32 bus) NWOAS_SERA_SPMI_STATUS s
      in if \<not> nwoas_sera_fifo_idle status then (NWOAS_SERA_E_FIFO_NOT_IDLE, res, 0, s1)
         else
           let (start, s2) = io_sample (bus_counter bus) s1;
               s3 = io_write (bus_write32 bus) NWOAS_SERA_SPMI_CMD cmd s2;
               res1 = res\<lparr>res_cmd_writes := res_cmd_writes res + 1\<rparr>;
               (st, ws, s4) = nwoas_sera_read_words NWOAS_SERA_RSP_WORDS bus start [] s3
           in if st \<noteq> NWOAS_SERA_OK then (st, res1, 0, s4)
              else
                let res2 = res1\<lparr>res_headers := (res_headers res1)[index := ws ! 0]\<rparr>
                in if ws ! 0 AND NWOAS_SERA_RSP_ECHO_MASK \<noteq> NWOAS_SERA_RSP_ECHO
                   then (NWOAS_SERA_E_BAD_HEADER, res2, 0, s4)
                   else
                     let (status', s5) = io_read (bus_read32 bus) NWOAS_SERA_SPMI_STATUS s4
                     in if status' AND NWOAS_SERA_STATUS_RX_EMPTY = 0
                        then (NWOAS_SERA_E_EXTRA_RESPONSE, res2, 0, s5)
                        else
                          let (now, s6) = io_sample (bus_counter bus) s5
                          in if now - start \<ge> bus_deadline_ticks bus
                             then (NWOAS_SERA_E_TIMEOUT, res2, 0, s6)
                             else (NWOAS_SERA_OK,
                                   res2\<lparr>res_transactions_done := of_nat index + 1\<rparr>,
                                   nwoas_sera_rtc_words_to_u48 (ws ! 1) (ws ! 2), s6))"

section \<open>Top level\<close>

definition nwoas_sera_result_clear :: nwoas_sera_rtc_result_t where
  "nwoas_sera_result_clear =
     \<lparr>res_utc_seconds = 0, res_subseconds = 0, res_nanoseconds = 0, res_cntpct = 0, res_cntfrq = 0,
      res_counter0 = 0, res_offset = 0, res_counter1 = 0, res_headers = [0, 0, 0],
      res_transactions_done = 0, res_cmd_writes = 0\<rparr>"

text \<open>
  \<^verbatim>\<open>nwoas_sera_rtc_read\<close> in three pieces: the three transactions with the paired counter sample,
  the decoding of what they returned, and the argument and frequency checks around them.
\<close>

definition sera_snapshot ::
  "'e nwoas_sera_bus_t \<Rightarrow> nwoas_sera_rtc_result_t \<Rightarrow> ('e, u32) io_state
     \<Rightarrow> nwoas_sera_status_t \<times> nwoas_sera_rtc_result_t \<times> ('e, u32) io_state" where
  "sera_snapshot bus r s =
     (let (st0, r0, v0, s0) = nwoas_sera_read_reg bus NWOAS_SERA_CMD_READ_TIME r 0 s;
          r0 = r0\<lparr>res_counter0 := v0\<rparr>
      in if st0 \<noteq> NWOAS_SERA_OK then (st0, r0, s0)
         else
           let (st1, r1, v1, s1) = nwoas_sera_read_reg bus NWOAS_SERA_CMD_READ_OFFSET r0 1 s0;
               r1 = r1\<lparr>res_offset := v1\<rparr>
           in if st1 \<noteq> NWOAS_SERA_OK then (st1, r1, s1)
              else
                let (st2, r2, v2, s2) = nwoas_sera_read_reg bus NWOAS_SERA_CMD_READ_TIME r1 2 s1;
                    r2 = r2\<lparr>res_counter1 := v2\<rparr>
                in if st2 \<noteq> NWOAS_SERA_OK then (st2, r2, s2)
                   else let (pct, s3) = io_sample (bus_counter bus) s2
                        in (NWOAS_SERA_OK, r2\<lparr>res_cntpct := pct\<rparr>, s3))"

definition sera_decode ::
  "nwoas_sera_rtc_result_t \<Rightarrow> nwoas_sera_status_t \<times> nwoas_sera_rtc_result_t" where
  "sera_decode r =
     (if res_counter1 r < res_counter0 r then (NWOAS_SERA_E_COUNTER_BACKWARD, r)
      else if res_counter1 r - res_counter0 r > NWOAS_SERA_MAX_COUNTER_SPAN
      then (NWOAS_SERA_E_COUNTER_SPAN, r)
      else
        let (st, sec, frac) = nwoas_sera_rtc_convert (res_counter1 r) (res_offset r) (Some 0) (Some 0)
        in if st \<noteq> NWOAS_SERA_OK then (st, r)
           else (NWOAS_SERA_OK,
                 r\<lparr>res_utc_seconds := the sec, res_subseconds := the frac,
                   res_nanoseconds := nwoas_sera_rtc_frac_to_ns (the frac)\<rparr>))"

definition nwoas_sera_rtc_read ::
  "'e nwoas_sera_rtc_ops_t option \<Rightarrow> nwoas_sera_rtc_result_t option \<Rightarrow> ('e, u32) io_state
     \<Rightarrow> (nwoas_sera_status_t \<times> nwoas_sera_rtc_result_t option) \<times> ('e, u32) io_state" where
  "nwoas_sera_rtc_read ops out s =
     (case out of
        None \<Rightarrow> ((NWOAS_SERA_E_ARG, None), s)
      | Some _ \<Rightarrow>
        (let r0 = nwoas_sera_result_clear in
         case ops of
           None \<Rightarrow> ((NWOAS_SERA_E_ARG, Some r0), s)
         | Some p \<Rightarrow>
           (case (sera_read32 p, sera_write32 p, sera_physical_counter p, sera_counter_frequency p) of
              (Some rd, Some wr, Some pc, Some cf) \<Rightarrow>
                (let (freq, s1) = io_sample cf s in
                 if freq < NWOAS_SERA_CNTFRQ_MIN \<or> freq > NWOAS_SERA_CNTFRQ_MAX
                 then ((NWOAS_SERA_E_CNTFRQ, Some r0), s1)
                 else
                   let bus = \<lparr>bus_read32 = rd, bus_write32 = wr, bus_counter = pc,
                              bus_deadline_ticks = (freq * 100) div 1000\<rparr>;
                       (st, r, s2) = sera_snapshot bus (r0\<lparr>res_cntfrq := freq\<rparr>) s1
                   in if st \<noteq> NWOAS_SERA_OK then ((st, Some r), s2)
                      else let (st', r') = sera_decode r in ((st', Some r'), s2))
            | _ \<Rightarrow> ((NWOAS_SERA_E_ARG, Some r0), s))))"

section \<open>What is written\<close>

lemma wait_rx_writes:
  "nwoas_sera_wait_rx n bus start s = (st, s') \<Longrightarrow> io_writes s' = io_writes s"
proof (induction n bus start s rule: nwoas_sera_wait_rx.induct)
  case (1 polls bus start s)
  show ?case
    using 1 nwoas_sera_wait_rx.simps [of polls bus start s]
    by (auto simp: Let_def split: prod.splits if_splits dest!: io_readE io_sampleE)
qed

lemma read_words_writes:
  "nwoas_sera_read_words n bus start ws s = (st, ws', s') \<Longrightarrow> io_writes s' = io_writes s"
  by (induction n bus start ws s rule: nwoas_sera_read_words.induct)
    (auto simp: Let_def split: prod.splits if_splits dest!: io_readE wait_rx_writes)

lemma read_words_length:
  "nwoas_sera_read_words n bus start ws s = (NWOAS_SERA_OK, ws', s') \<Longrightarrow>
     length ws' = length ws + n"
  by (induction n bus start ws s rule: nwoas_sera_read_words.induct)
    (auto simp: Let_def split: prod.splits if_splits)

lemma wait_rx_status:
  "nwoas_sera_wait_rx n bus start s = (st, s') \<Longrightarrow>
     st \<in> {NWOAS_SERA_OK, NWOAS_SERA_E_TIMEOUT, NWOAS_SERA_E_POLL_CAP}"
proof (induction n bus start s rule: nwoas_sera_wait_rx.induct)
  case (1 polls bus start s)
  show ?case
    using 1 nwoas_sera_wait_rx.simps [of polls bus start s]
    by (auto simp: Let_def split: prod.splits if_splits)
qed

lemma read_words_status:
  "nwoas_sera_read_words n bus start ws s = (st, ws', s') \<Longrightarrow>
     st \<in> {NWOAS_SERA_OK, NWOAS_SERA_E_TIMEOUT, NWOAS_SERA_E_POLL_CAP}"
proof (induction n bus start ws s rule: nwoas_sera_read_words.induct)
  case (2 n bus start ws s)
  then show ?case
    using wait_rx_status [of NWOAS_SERA_MAX_POLLS bus start s]
    by (auto simp: Let_def split: prod.splits if_splits)
qed simp

text \<open>One transaction writes its command word at most once, and only after it saw an idle FIFO.\<close>

lemma read_reg_writes:
  assumes "nwoas_sera_read_reg bus cmd res i s = (st, res', v, s')"
  shows "(io_writes s' = io_writes s \<and> res_cmd_writes res' = res_cmd_writes res \<and>
            st = NWOAS_SERA_E_FIFO_NOT_IDLE) \<or>
         (io_writes s' = io_writes s @ [(NWOAS_SERA_SPMI_CMD, cmd)] \<and>
            res_cmd_writes res' = res_cmd_writes res + 1 \<and> st \<noteq> NWOAS_SERA_E_FIFO_NOT_IDLE)"
proof -
  obtain status s1 where 1: "io_read (bus_read32 bus) NWOAS_SERA_SPMI_STATUS s = (status, s1)"
    by fastforce
  obtain start s2 where 2: "io_sample (bus_counter bus) s1 = (start, s2)" by fastforce
  define s3 where "s3 = io_write (bus_write32 bus) NWOAS_SERA_SPMI_CMD cmd s2"
  obtain st4 ws s4 where 4:
    "nwoas_sera_read_words NWOAS_SERA_RSP_WORDS bus start [] s3 = (st4, ws, s4)"
    by (metis prod_cases3)
  have w: "io_writes s4 = io_writes s @ [(NWOAS_SERA_SPMI_CMD, cmd)]" "io_writes s1 = io_writes s"
    using io_readE [OF 1] io_sampleE [OF 2] read_words_writes [OF 4] by (simp_all add: s3_def)
  show ?thesis
    using assms 1 2 4 w read_words_status [OF 4] unfolding nwoas_sera_read_reg_def
    by (auto simp: Let_def s3_def split: prod.splits if_splits dest!: io_readE io_sampleE)
qed

abbreviation sera_cmds :: "(u64 \<times> u32) list" where
  "sera_cmds \<equiv> [(NWOAS_SERA_SPMI_CMD, NWOAS_SERA_CMD_READ_TIME),
                (NWOAS_SERA_SPMI_CMD, NWOAS_SERA_CMD_READ_OFFSET),
                (NWOAS_SERA_SPMI_CMD, NWOAS_SERA_CMD_READ_TIME)]"

lemma snapshot_writes:
  assumes "sera_snapshot bus r s = (st, r', s')" and "res_cmd_writes r = 0"
  shows "\<exists>k \<le> 3. io_writes s' = io_writes s @ take k sera_cmds \<and> (st = NWOAS_SERA_OK \<longrightarrow> k = 3) \<and>
     unat (res_cmd_writes r') = k"
proof -
  obtain st0 r0 v0 s0 where 0:
    "nwoas_sera_read_reg bus NWOAS_SERA_CMD_READ_TIME r 0 s = (st0, r0, v0, s0)" by (metis prod_cases4)
  obtain st1 r1 v1 s1 where 1:
    "nwoas_sera_read_reg bus NWOAS_SERA_CMD_READ_OFFSET (r0\<lparr>res_counter0 := v0\<rparr>) 1 s0 = (st1, r1, v1, s1)"
    by (metis prod_cases4)
  obtain st2 r2 v2 s2 where 2:
    "nwoas_sera_read_reg bus NWOAS_SERA_CMD_READ_TIME (r1\<lparr>res_offset := v1\<rparr>) 2 s1 = (st2, r2, v2, s2)"
    by (metis prod_cases4)
  obtain pct s3 where 3: "io_sample (bus_counter bus) s2 = (pct, s3)" by fastforce
  consider (a) "st0 \<noteq> NWOAS_SERA_OK" | (b) "st0 = NWOAS_SERA_OK" "st1 \<noteq> NWOAS_SERA_OK"
    | (c) "st0 = NWOAS_SERA_OK" "st1 = NWOAS_SERA_OK" "st2 \<noteq> NWOAS_SERA_OK"
    | (d) "st0 = NWOAS_SERA_OK" "st1 = NWOAS_SERA_OK" "st2 = NWOAS_SERA_OK" by blast
  then show ?thesis
  proof cases
    case a
    then show ?thesis
      using assms 0 read_reg_writes [OF 0]
      by (auto simp: sera_snapshot_def intro: exI [of _ 0] exI [of _ 1])
  next
    case b
    then show ?thesis
      using assms 0 1 read_reg_writes [OF 0] read_reg_writes [OF 1]
      by (auto simp: sera_snapshot_def intro: exI [of _ 1] exI [of _ 2])
  next
    case c
    then show ?thesis
      using assms 0 1 2 read_reg_writes [OF 0] read_reg_writes [OF 1] read_reg_writes [OF 2]
      by (auto simp: sera_snapshot_def intro: exI [of _ 2] exI [of _ 3])
  next
    case d
    then show ?thesis
      using assms 0 1 2 3 read_reg_writes [OF 0] read_reg_writes [OF 1] read_reg_writes [OF 2] io_sampleE [OF 3]
      by (auto simp: sera_snapshot_def intro: exI [of _ 3])
  qed
qed

lemma decode_cmd_writes: "sera_decode r = (st, r') \<Longrightarrow> res_cmd_writes r' = res_cmd_writes r"
  by (auto simp: sera_decode_def Let_def split: if_splits prod.splits)

lemma sera_rtc_read_checked:
  assumes "sera_read32 p = Some rd" and "sera_write32 p = Some wr"
    and "sera_physical_counter p = Some pc" and "sera_counter_frequency p = Some cf"
    and "io_sample cf s = (freq, s1)"
    and "\<not> (freq < NWOAS_SERA_CNTFRQ_MIN \<or> freq > NWOAS_SERA_CNTFRQ_MAX)"
  shows "nwoas_sera_rtc_read (Some p) (Some out) s =
     (let (st, r, s2) = sera_snapshot \<lparr>bus_read32 = rd, bus_write32 = wr, bus_counter = pc,
                              bus_deadline_ticks = (freq * 100) div 1000\<rparr>
                           (nwoas_sera_result_clear\<lparr>res_cntfrq := freq\<rparr>) s1
      in if st \<noteq> NWOAS_SERA_OK then ((st, Some r), s2)
         else let (st', r') = sera_decode r in ((st', Some r'), s2))"
  using assms unfolding nwoas_sera_rtc_read_def by (simp only: option.case prod.case Let_def if_False)

lemma sera_rtc_read_rejected:
  assumes "nwoas_sera_rtc_read ops out s = ((st, r), s')"
  obtains "io_writes s' = io_writes s" and "st \<noteq> NWOAS_SERA_OK"
      and "r = None \<or> r = Some nwoas_sera_result_clear"
  | p out' rd wr pc cf freq s1 where "ops = Some p" and "out = Some out'" and "sera_read32 p = Some rd"
      and "sera_write32 p = Some wr" and "sera_physical_counter p = Some pc"
      and "sera_counter_frequency p = Some cf" and "io_sample cf s = (freq, s1)"
      and "\<not> (freq < NWOAS_SERA_CNTFRQ_MIN \<or> freq > NWOAS_SERA_CNTFRQ_MAX)"
proof (cases "\<exists>p out' rd wr pc cf. ops = Some p \<and> out = Some out' \<and> sera_read32 p = Some rd \<and>
    sera_write32 p = Some wr \<and> sera_physical_counter p = Some pc \<and> sera_counter_frequency p = Some cf")
  case False
  then have "s' = s" "st = NWOAS_SERA_E_ARG" "r = None \<or> r = Some nwoas_sera_result_clear"
    using assms unfolding nwoas_sera_rtc_read_def Let_def by (auto split: option.splits)
  then show ?thesis using that(1) by simp
next
  case True
  then obtain p out' rd wr pc cf where p: "ops = Some p" "out = Some out'" "sera_read32 p = Some rd"
    "sera_write32 p = Some wr" "sera_physical_counter p = Some pc" "sera_counter_frequency p = Some cf"
    by blast
  obtain freq s1 where f: "io_sample cf s = (freq, s1)" by fastforce
  show ?thesis
  proof (cases "freq < NWOAS_SERA_CNTFRQ_MIN \<or> freq > NWOAS_SERA_CNTFRQ_MAX")
    case True
    then show ?thesis
      using assms p f io_sampleE [OF f] that(1) unfolding nwoas_sera_rtc_read_def by simp
  qed (use that(2) p f in blast)
qed

lemma sera_rtc_read_writes:
  assumes "nwoas_sera_rtc_read ops out s = ((st, r), s')"
  shows "\<exists>k \<le> 3. io_writes s' = io_writes s @ take k sera_cmds \<and> (st = NWOAS_SERA_OK \<longrightarrow> k = 3) \<and>
     (case r of None \<Rightarrow> k = 0 | Some q \<Rightarrow> unat (res_cmd_writes q) = k)"
  using assms
proof (cases rule: sera_rtc_read_rejected)
  case 1
  then show ?thesis by (intro exI [of _ 0]) (auto simp: nwoas_sera_result_clear_def)
next
  case (2 p out' rd wr pc cf freq s1)
  define bus where "bus = \<lparr>bus_read32 = rd, bus_write32 = wr, bus_counter = pc,
                              bus_deadline_ticks = (freq * 100) div 1000\<rparr>"
  obtain st0 r0 s2 where 0:
    "sera_snapshot bus (nwoas_sera_result_clear\<lparr>res_cntfrq := freq\<rparr>) s1 = (st0, r0, s2)" by (metis prod_cases3)
  obtain st1 r1 where 1: "sera_decode r0 = (st1, r1)" by fastforce
  obtain k where k: "k \<le> 3" "io_writes s2 = io_writes s1 @ take k sera_cmds"
    "st0 = NWOAS_SERA_OK \<longrightarrow> k = 3" "unat (res_cmd_writes r0) = k"
    using snapshot_writes [OF 0] by (auto simp: nwoas_sera_result_clear_def)
  have "s' = s2 \<and> (if st0 = NWOAS_SERA_OK then st = st1 \<and> r = Some r1 else st = st0 \<and> r = Some r0)"
    using assms sera_rtc_read_checked [OF 2(3-8), of out'] 0 1 2(1,2) by (simp add: bus_def split: if_splits)
  then show ?thesis
    using k io_sampleE [OF 2(7)] decode_cmd_writes [OF 1] by (intro exI [of _ k]) (auto split: if_splits)
qed

lemma sera_rtc_read_driver:
  "\<exists>ws. io_writes (snd (nwoas_sera_rtc_read ops out s)) = io_writes s @ ws \<and> length ws \<le> 3 \<and>
     (\<forall>(a, v) \<in> set ws. a = NWOAS_SERA_SPMI_CMD \<and>
        v \<in> {NWOAS_SERA_CMD_READ_TIME, NWOAS_SERA_CMD_READ_OFFSET})"
proof -
  obtain st r s' where "nwoas_sera_rtc_read ops out s = ((st, r), s')" by (metis surj_pair)
  moreover obtain k where "k \<le> 3" "io_writes s' = io_writes s @ take k sera_cmds"
    using sera_rtc_read_writes [OF calculation] by blast
  moreover have "\<forall>(a, v) \<in> set (take k sera_cmds). a = NWOAS_SERA_SPMI_CMD \<and>
        v \<in> {NWOAS_SERA_CMD_READ_TIME, NWOAS_SERA_CMD_READ_OFFSET}"
    using set_take_subset [of k sera_cmds] by auto
  ultimately show ?thesis by (intro exI [of _ "take k sera_cmds"]) simp
qed

interpretation sera: mmio_driver "nwoas_sera_rtc_read ops out"
    "\<lambda>a v. a = NWOAS_SERA_SPMI_CMD \<and> v \<in> {NWOAS_SERA_CMD_READ_TIME, NWOAS_SERA_CMD_READ_OFFSET}" 3
  for ops out
  by unfold_locales (rule sera_rtc_read_driver)

section \<open>The 49-bit clock arithmetic\<close>

text \<open>The clock value the header documents: a signed 49-bit number of 1/65536 seconds.\<close>

definition sera_time :: "u64 \<Rightarrow> u64 \<Rightarrow> int" where
  "sera_time counter48 offset48 =
     (let t = (uint counter48 mod 2 ^ 48 + 2 * (uint offset48 mod 2 ^ 48)) mod 2 ^ 49
      in if t < 2 ^ 48 then t else t - 2 ^ 49)"

lemma sdiv_floor:
  fixes t :: int
  shows "(if t smod 65536 < 0 then t sdiv 65536 - 1 else t sdiv 65536) = t div 65536"
    and "(if t smod 65536 < 0 then t smod 65536 + 65536 else t smod 65536) = t mod 65536"
proof -
  define q r where "q = (if t smod 65536 < 0 then t sdiv 65536 - 1 else t sdiv 65536)"
    and "r = (if t smod 65536 < 0 then t smod 65536 + 65536 else t smod 65536)"
  have e: "65536 * (t sdiv 65536) + t smod 65536 = t" by (rule mult_sdiv_smod_eq)
  have "- 65536 < t smod 65536" "t smod 65536 < 65536"
    using smod_int_range [of 65536 t] by simp_all
  then have "t = q * 65536 + r" "0 \<le> r" "r < 65536" using e by (auto simp: q_def r_def)
  then show "q = t div 65536" "r = t mod 65536" by simp_all
qed

lemma mask48: "NWOAS_SERA_MASK48 = mask 48" and mask49: "NWOAS_SERA_MASK49 = mask 49"
  by (simp_all add: mask_eq_exp_minus_1)

lemma and_bit48: "x AND push_bit 48 1 \<noteq> 0 \<longleftrightarrow> bit (x :: u64) 48"
  by (simp add: bit_iff_and_push_bit_not_eq_0)

lemma sera_signed_sum:
  fixes c o' :: u64
  defines "x \<equiv> (c AND NWOAS_SERA_MASK48) + push_bit 1 (o' AND NWOAS_SERA_MASK48)"
  shows "(if (x AND NWOAS_SERA_MASK49) AND push_bit 48 1 \<noteq> 0
          then - uint (push_bit 49 1 - (x AND NWOAS_SERA_MASK49)) else uint (x AND NWOAS_SERA_MASK49))
         = sera_time c o'"
proof -
  define a b where "a = uint c mod 2 ^ 48" and "b = uint o' mod 2 ^ 48"
  have ab: "0 \<le> a" "a < 2 ^ 48" "0 \<le> b" "b < 2 ^ 48" by (simp_all add: a_def b_def)
  have c': "uint (c AND NWOAS_SERA_MASK48) = a" "uint (o' AND NWOAS_SERA_MASK48) = b"
    by (simp_all only: mask48 uint_and_mask a_def b_def)
  have "uint (push_bit 1 (o' AND NWOAS_SERA_MASK48)) = 2 * b"
    using ab by (simp add: push_bit_eq_mult) (subst uint_mult_lem [THEN iffD1], simp_all add: c')
  then have "uint x = a + 2 * b"
    unfolding x_def using ab by (subst uint_add_lem [THEN iffD1]) (simp_all add: c')
  then have u: "uint (x AND NWOAS_SERA_MASK49) = (a + 2 * b) mod 2 ^ 49"
    by (simp only: mask49 uint_and_mask)
  define t where "t = (a + 2 * b) mod 2 ^ 49"
  have t: "0 \<le> t" "t < 2 ^ 49" by (simp_all add: t_def)
  have bit: "(x AND NWOAS_SERA_MASK49) AND push_bit 48 1 \<noteq> 0 \<longleftrightarrow> \<not> t < 2 ^ 48"
  proof -
    have "bit (x AND NWOAS_SERA_MASK49) 48 \<longleftrightarrow> bit t 48"
      using bit_uint_iff [of "x AND NWOAS_SERA_MASK49" 48] by (simp only: u t_def) simp
    also have "\<dots> \<longleftrightarrow> odd (t div 2 ^ 48)" by (simp add: bit_iff_odd)
    also have "\<dots> \<longleftrightarrow> \<not> t < 2 ^ 48"
    proof (cases "t < 2 ^ 48")
      case False
      then have "t div 2 ^ 48 = 1" using t by simp
      then show ?thesis using False by simp
    qed (use t in simp)
    finally show ?thesis by (simp only: and_bit48)
  qed
  have "uint (push_bit 49 1 - (x AND NWOAS_SERA_MASK49)) = 2 ^ 49 - t"
    using t by (subst uint_sub_lem [THEN iffD1]) (simp_all add: u t_def)
  then show ?thesis
    unfolding bit u sera_time_def Let_def by (simp only: a_def b_def t_def) simp
qed

lemma sera_convert_spec:
  "nwoas_sera_rtc_convert c o' (Some x) (Some y) =
     (if sera_time c o' < 0 then NWOAS_SERA_E_NEGATIVE_TIME
      else if sera_time c o' div 65536 < NWOAS_SERA_UTC_MIN \<or>
              sera_time c o' div 65536 > NWOAS_SERA_UTC_MAX then NWOAS_SERA_E_RANGE
      else NWOAS_SERA_OK,
      Some (sera_time c o' div 65536), Some (word_of_int (sera_time c o' mod 65536)))"
  unfolding nwoas_sera_rtc_convert_def prod.case option.case Let_def sera_signed_sum sdiv_floor
  by (rule refl)

lemma frac_to_ns_spec:
  "unat (nwoas_sera_rtc_frac_to_ns f) = unat f mod 65536 * 1000000000 div 65536"
proof -
  define g where "g = (ucast (f AND 0xffff) :: u64)"
  have m: "(0xffff :: u32) = mask 16" by (simp add: mask_eq_exp_minus_1)
  have "unat (f AND 0xffff) = unat f mod 65536"
    unfolding m by (simp add: unat_and_mask)
  then have g: "unat g = unat f mod 65536" by (simp add: g_def unat_ucast_small)
  then have "unat g < 65536" by simp
  then have 1: "unat (drop_bit 16 (g * 1000000000)) = unat g * 1000000000 div 65536"
    by (simp only: drop_bit_eq_div unat_div) (simp add: unat_mult_small)
  then have "unat (drop_bit 16 (g * 1000000000)) < 2 ^ 32"
    using \<open>unat g < 65536\<close> by simp
  then show ?thesis
    using 1 g by (simp add: nwoas_sera_rtc_frac_to_ns_def Let_def g_def [symmetric] unat_ucast_small)
qed

text \<open>What a successful read hands out.\<close>

definition sera_result_ok :: "nwoas_sera_rtc_result_t \<Rightarrow> bool" where
  "sera_result_ok r \<longleftrightarrow>
     res_utc_seconds r * 65536 + int (unat (res_subseconds r)) = sera_time (res_counter1 r) (res_offset r) \<and>
     NWOAS_SERA_UTC_MIN \<le> res_utc_seconds r \<and> res_utc_seconds r \<le> NWOAS_SERA_UTC_MAX \<and>
     unat (res_subseconds r) < 65536 \<and>
     unat (res_nanoseconds r) = unat (res_subseconds r) * 1000000000 div 65536 \<and>
     unat (res_nanoseconds r) \<le> 999984741 \<and>
     unat (res_counter0 r) \<le> unat (res_counter1 r) \<and>
     unat (res_counter1 r) \<le> unat (res_counter0 r) + 32768"

lemma sera_decode_ok:
  assumes "sera_decode r = (NWOAS_SERA_OK, r')"
  shows "sera_result_ok r'" and "res_cntfrq r' = res_cntfrq r" and "res_cntpct r' = res_cntpct r"
proof -
  define t where "t = sera_time (res_counter1 r) (res_offset r)"
  define f where "f = (word_of_int (t mod 65536) :: u32)"
  have r': "r' = r\<lparr>res_utc_seconds := t div 65536, res_subseconds := f,
      res_nanoseconds := nwoas_sera_rtc_frac_to_ns f\<rparr>"
    and rng: "NWOAS_SERA_UTC_MIN \<le> t div 65536" "t div 65536 \<le> NWOAS_SERA_UTC_MAX"
    and c: "res_counter0 r \<le> res_counter1 r" "res_counter1 r - res_counter0 r \<le> 32768"
    using assms unfolding sera_decode_def sera_convert_spec
    by (auto simp: Let_def t_def f_def not_less split: if_splits)
  have "uint f = t mod 65536" by (simp add: f_def unsigned_of_int take_bit_int_eq_self)
  then have f: "int (unat f) = t mod 65536" by simp
  then have lt: "unat f < 65536" by (metis nat_int_comparison(2) of_nat_numeral pos_mod_bound zero_less_numeral)
  have ns: "unat (nwoas_sera_rtc_frac_to_ns f) = unat f * 1000000000 div 65536"
    using lt by (simp add: frac_to_ns_spec)
  have "unat (res_counter1 r) - unat (res_counter0 r) \<le> 32768"
    using c by (simp add: word_le_nat_alt unat_diff_small)
  moreover have "unat f * 1000000000 div 65536 \<le> 999984741" using lt by simp
  moreover have "t div 65536 * 65536 + t mod 65536 = t" by (rule div_mult_mod_eq)
  ultimately show "sera_result_ok r'"
    using rng c lt ns f unfolding sera_result_ok_def r' by (simp add: t_def [symmetric] word_le_nat_alt)
  show "res_cntfrq r' = res_cntfrq r" "res_cntpct r' = res_cntpct r" by (simp_all add: r')
qed

lemma read_reg_cntfrq:
  "nwoas_sera_read_reg bus cmd res i s = (st, res', v, s') \<Longrightarrow> res_cntfrq res' = res_cntfrq res"
  unfolding nwoas_sera_read_reg_def by (auto simp: Let_def split: prod.splits if_splits)

lemma snapshot_cntfrq:
  "sera_snapshot bus r s = (st, r', s') \<Longrightarrow> res_cntfrq r' = res_cntfrq r"
  unfolding sera_snapshot_def by (auto simp: Let_def split: prod.splits if_splits dest!: read_reg_cntfrq)

lemma sera_rtc_read_ok:
  assumes "nwoas_sera_rtc_read ops out s = ((NWOAS_SERA_OK, Some r), s')"
  shows "sera_result_ok r \<and> NWOAS_SERA_CNTFRQ_MIN \<le> res_cntfrq r \<and> res_cntfrq r \<le> NWOAS_SERA_CNTFRQ_MAX"
  using assms
proof (cases rule: sera_rtc_read_rejected)
  case (2 p out' rd wr pc cf freq s1)
  then obtain r0 s2 where
    0: "sera_snapshot \<lparr>bus_read32 = rd, bus_write32 = wr, bus_counter = pc,
          bus_deadline_ticks = (freq * 100) div 1000\<rparr> (nwoas_sera_result_clear\<lparr>res_cntfrq := freq\<rparr>) s1
        = (NWOAS_SERA_OK, r0, s2)" and 1: "sera_decode r0 = (NWOAS_SERA_OK, r)"
    using assms sera_rtc_read_checked [OF 2(3-8), of out']
    by (auto simp: Let_def split: prod.splits if_splits)
  have "res_cntfrq r = freq" using snapshot_cntfrq [OF 0] sera_decode_ok(2) [OF 1] by simp
  then show ?thesis using sera_decode_ok(1) [OF 1] 2(8) by (simp add: not_less)
qed simp

section \<open>The value the clock owner stores\<close>

definition aplpmu_settime_offset :: "u64 \<Rightarrow> u64 \<Rightarrow> u64 \<Rightarrow> u64" where
  "aplpmu_settime_offset tv_sec tv_usec counter =
     (let time = push_bit 16 tv_sec OR (push_bit 16 tv_usec) div 1000000
      in drop_bit 1 (time - counter))"

definition settime_ticks :: "u64 \<Rightarrow> u64 \<Rightarrow> int" where
  "settime_ticks tv_sec tv_usec = uint tv_sec * 65536 + uint tv_usec * 65536 div 1000000"

lemma settime_word:
  assumes "uint tv_sec < 2 ^ 32" and "uint tv_usec < 1000000"
  shows "uint (push_bit 16 tv_sec OR (push_bit 16 tv_usec) div 1000000 :: u64) = settime_ticks tv_sec tv_usec"
    and "0 \<le> settime_ticks tv_sec tv_usec" and "settime_ticks tv_sec tv_usec < 2 ^ 48"
proof -
  define f where "f = (push_bit 16 tv_usec) div (1000000 :: u64)"
  have u: "uint (push_bit 16 tv_usec) = uint tv_usec * 65536"
    using assms(2) by (simp add: push_bit_eq_mult) (subst uint_mult_lem [THEN iffD1], simp_all)
  have sc: "uint (push_bit 16 tv_sec) = uint tv_sec * 65536"
    using assms(1) by (simp add: push_bit_eq_mult) (subst uint_mult_lem [THEN iffD1], simp_all)
  have f: "uint f = uint tv_usec * 65536 div 1000000" by (simp add: f_def uint_div u)
  have f_lt: "uint f < 65536" using assms(2) f by simp
  have dis: "push_bit 16 tv_sec AND f = 0"
  proof (rule bit_word_eqI)
    fix k :: nat
    have "bit f k \<Longrightarrow> k < 16"
    proof (rule ccontr)
      assume b: "bit f k" "\<not> k < 16"
      have "f = take_bit 16 f"
        using f_lt by (simp add: word_uint_eq_iff unsigned_take_bit_eq take_bit_int_eq_self)
      then show False using b by (metis bit_take_bit_iff)
    qed
    then show "bit (push_bit 16 tv_sec AND f) k = bit 0 k" by (auto simp: bit_simps)
  qed
  then have "push_bit 16 tv_sec OR f = push_bit 16 tv_sec + f"
    by (simp add: disjunctive_add_eq_or)
  moreover have "uint (push_bit 16 tv_sec + f) = settime_ticks tv_sec tv_usec"
    unfolding settime_ticks_def using assms(1) f_lt sc f
    by (subst uint_add_lem [THEN iffD1]) simp_all
  ultimately show "uint (push_bit 16 tv_sec OR (push_bit 16 tv_usec) div 1000000 :: u64) = settime_ticks tv_sec tv_usec"
    by (simp add: f_def)
  show "0 \<le> settime_ticks tv_sec tv_usec" "settime_ticks tv_sec tv_usec < 2 ^ 48"
    using assms(1) f_lt f [symmetric] by (simp_all add: settime_ticks_def)
qed

lemma settime_convert:
  assumes "uint tv_sec < 2 ^ 32" and "uint tv_usec < 1000000" and "uint c < 2 ^ 48"
  shows "sera_time c (aplpmu_settime_offset tv_sec tv_usec c)
           = settime_ticks tv_sec tv_usec - (settime_ticks tv_sec tv_usec - uint c) mod 2"
proof -
  define T where "T = settime_ticks tv_sec tv_usec"
  define D where "D = (T - uint c) mod 2 ^ 64"
  note w = settime_word [OF assms(1,2), folded T_def]
  have ofs: "uint (aplpmu_settime_offset tv_sec tv_usec c) = D div 2"
    unfolding aplpmu_settime_offset_def Let_def D_def
    by (simp only: drop_bit_eq_div uint_div) (simp add: uint_word_ariths w)
  have twice: "2 * (D div 2 mod 2 ^ 48) = (D - D mod 2) mod 2 ^ 49"
  proof -
    have "2 * (D div 2 mod 2 ^ 48) = (2 * (D div 2)) mod (2 * 2 ^ 48)" by (rule mult_mod_right)
    also have "2 * (D div 2) = D - D mod 2" by (simp add: minus_mod_eq_mult_div)
    finally show ?thesis by simp
  qed
  have par: "D mod 2 = (T - uint c) mod 2" by (simp add: D_def mod_mod_cancel)
  have sm: "(uint c + (D - (T - uint c) mod 2) mod 2 ^ 49) mod 2 ^ 49
      = (T - (T - uint c) mod 2) mod 2 ^ 49"
  proof -
    define e where "e = (T - uint c) mod 2"
    have "(uint c + (D - e) mod 2 ^ 49) mod 2 ^ 49 = (uint c + (D - e)) mod 2 ^ 49"
      by (rule mod_add_right_eq)
    also have "uint c + (D - e) = (D + (uint c - e))" by simp
    also have "(D + (uint c - e)) mod 2 ^ 49 = (D mod 2 ^ 49 + (uint c - e)) mod 2 ^ 49"
      by (rule mod_add_left_eq [symmetric])
    also have "D mod 2 ^ 49 = (T - uint c) mod 2 ^ 49"
      unfolding D_def by (rule mod_mod_cancel) simp
    also have "((T - uint c) mod 2 ^ 49 + (uint c - e)) mod 2 ^ 49 = ((T - uint c) + (uint c - e)) mod 2 ^ 49"
      by (rule mod_add_left_eq)
    finally show ?thesis by (simp add: e_def)
  qed
  have p49: "2 * 2 ^ 48 = (2 ^ 49 :: int)" by simp
  have cm: "uint c mod 2 ^ 48 = uint c" using assms(3) by simp
  have "sera_time c (aplpmu_settime_offset tv_sec tv_usec c) =
      (let t = (T - (T - uint c) mod 2) mod (2 * 2 ^ 48) in if t < 2 ^ 48 then t else t - 2 * 2 ^ 48)"
    unfolding sera_time_def cm ofs twice par sm p49 by (rule refl)
  also have "\<dots> = T - (T - uint c) mod 2"
  proof (rule signed_residue)
    have e: "0 \<le> (T - uint c) mod 2" "(T - uint c) mod 2 < 2" "(2 :: int) \<le> 2 ^ 48" by simp_all
    show "- (2 ^ 48) \<le> T - (T - uint c) mod 2" using e w(2) by linarith
    show "T - (T - uint c) mod 2 < 2 ^ 48" using e w(3) by linarith
  qed
  finally show ?thesis by (simp only: T_def)
qed

end
