(* ===== verification/Hw_Rtc.thy ===== *)
theory Hw_Rtc
  imports Rtc_Calendar Sera_Rtc
begin

text \<open>
  The runtime clock library, \<^verbatim>\<open>NwoasHardwareBootRtcLib.c\<close>: the device-tree check, the single
  hardware snapshot taken by \<^verbatim>\<open>LibRtcInitialize\<close> and the clock \<^verbatim>\<open>LibGetTime\<close> derives from
  it.  The platform (MMIO, generic timer, Apple device tree) is a parameter.
\<close>

section \<open>State and platform\<close>

datatype EFI_STATUS = EFI_SUCCESS | EFI_INVALID_PARAMETER | EFI_DEVICE_ERROR | EFI_UNSUPPORTED

record EFI_TIME =
  efi_Year :: u16
  efi_Month :: u8
  efi_Day :: u8
  efi_Hour :: u8
  efi_Minute :: u8
  efi_Second :: u8
  efi_Pad1 :: u8
  efi_Nanosecond :: u32
  efi_TimeZone :: "16 word"
  efi_Daylight :: u8
  efi_Pad2 :: u8

record EFI_TIME_CAPABILITIES =
  cap_Resolution :: u32
  cap_Accuracy :: u32
  cap_SetsToZero :: bool

record rtc_globals =
  mSeedValid :: bool
  mSeed :: nwoas_rtc_seed_t
  mFreqHz :: u64
  mSeedNs :: u32

type_synonym dt_node = "string \<Rightarrow> bytes option"

record 'e rtc_platform =
  MmioRead32 :: "('e, u32) reg_read"
  MmioWrite32 :: "('e, u32) reg_write"
  ArmGenericTimerGetSystemCount :: "'e env_value"
  ArmGenericTimerGetTimerFreq :: "'e env_value"
  dt_get :: "string \<Rightarrow> dt_node option"

abbreviation EFI_UNSPECIFIED_TIMEZONE :: "16 word" where "EFI_UNSPECIFIED_TIMEZONE \<equiv> 0x7FF"

definition rtc_capabilities :: EFI_TIME_CAPABILITIES where
  "rtc_capabilities = \<lparr>cap_Resolution = 1, cap_Accuracy = 100000000, cap_SetsToZero = False\<rparr>"

section \<open>Reading the clock\<close>

definition rtc_carry :: "u64 \<Rightarrow> u32 \<Rightarrow> u32 \<Rightarrow> (u64 \<times> u32) option" where
  "rtc_carry epoch ns seed_ns =
     (let n = ns + seed_ns
      in if n \<ge> 1000000000
         then (if epoch \<ge> NWOAS_RTC_EPOCH_MAX then None else Some (epoch + 1, n - 1000000000))
         else Some (epoch, n))"

definition rtc_fill :: "nwoas_rtc_calendar_t \<Rightarrow> u32 \<Rightarrow> EFI_TIME" where
  "rtc_fill c ns =
     \<lparr>efi_Year = cal_year c, efi_Month = cal_month c, efi_Day = cal_day c, efi_Hour = cal_hour c,
      efi_Minute = cal_minute c, efi_Second = cal_second c, efi_Pad1 = 0, efi_Nanosecond = ns,
      efi_TimeZone = EFI_UNSPECIFIED_TIMEZONE, efi_Daylight = 0, efi_Pad2 = 0\<rparr>"

definition LibGetTime ::
  "'e rtc_platform \<Rightarrow> rtc_globals \<Rightarrow> EFI_TIME option \<Rightarrow> EFI_TIME_CAPABILITIES option
     \<Rightarrow> ('e, u32) io_state
     \<Rightarrow> EFI_STATUS \<times> EFI_TIME option \<times> EFI_TIME_CAPABILITIES option \<times> ('e, u32) io_state" where
  "LibGetTime p g Time Capabilities s =
     (case Time of
        None \<Rightarrow> (EFI_INVALID_PARAMETER, None, Capabilities, s)
      | Some tm \<Rightarrow>
          let caps = map_option (\<lambda>_. rtc_capabilities) Capabilities
          in if \<not> mSeedValid g then (EFI_DEVICE_ERROR, Time, caps, s)
             else
               let (freq, s1) = io_sample (ArmGenericTimerGetTimerFreq p) s
               in if freq \<noteq> mFreqHz g then (EFI_DEVICE_ERROR, Time, caps, s1)
                  else
                    let (now, s2) = io_sample (ArmGenericTimerGetSystemCount p) s1;
                        (st, e, ns) = nwoas_rtc_advance (Some (mSeed g)) now freq (Some 0) (Some 0)
                    in if st \<noteq> NWOAS_RTC_OK then (EFI_DEVICE_ERROR, Time, caps, s2)
                       else
                         (case rtc_carry (the e) (the ns) (mSeedNs g) of
                            None \<Rightarrow> (EFI_DEVICE_ERROR, Time, caps, s2)
                          | Some (e', ns') \<Rightarrow>
                              let (st', c) = nwoas_rtc_epoch_to_calendar e' (Some cal_zero)
                              in if st' \<noteq> NWOAS_RTC_OK then (EFI_DEVICE_ERROR, Time, caps, s2)
                                 else (EFI_SUCCESS, Some (rtc_fill (the c) ns'), caps, s2)))"

definition LibSetTime :: "EFI_TIME \<Rightarrow> EFI_STATUS" where
  "LibSetTime tm = EFI_UNSUPPORTED"

definition LibGetWakeupTime :: "bool \<Rightarrow> bool \<Rightarrow> EFI_TIME \<Rightarrow> EFI_STATUS" where
  "LibGetWakeupTime enabled pending tm = EFI_UNSUPPORTED"

definition LibSetWakeupTime :: "bool \<Rightarrow> EFI_TIME \<Rightarrow> EFI_STATUS" where
  "LibSetWakeupTime enabled tm = EFI_UNSUPPORTED"

section \<open>Taking the snapshot\<close>

text \<open>\<open>CopyMem\<close> into an integer is a little-endian load.\<close>

definition RtcProp32 :: "dt_node option \<Rightarrow> string \<Rightarrow> u32 \<Rightarrow> bool" where
  "RtcProp32 node name expected =
     (case node of
        None \<Rightarrow> False
      | Some n \<Rightarrow>
          (case n name of
             None \<Rightarrow> False
           | Some p \<Rightarrow> \<not> length p < 4 \<and> le_word (take 4 p) = expected))"

definition RtcTopology :: "'e rtc_platform \<Rightarrow> bool" where
  "RtcTopology p =
     (let chosen = dt_get p ''/chosen'';
          ctrl = dt_get p ''/arm-io/nub-spmi'';
          pmu = dt_get p ''/arm-io/nub-spmi/spmi-pmu''
      in if \<not> RtcProp32 chosen ''chip-id'' 0x8103 \<or> ctrl = None \<or> pmu = None \<or>
            \<not> RtcProp32 pmu ''reg'' 15 \<or> \<not> RtcProp32 pmu ''info-rtc'' 0xd002 \<or>
            \<not> RtcProp32 pmu ''info-rtc_scrpad'' 0xd100
         then False
         else
           (case the ctrl ''reg'' of
              None \<Rightarrow> False
            | Some q \<Rightarrow>
                \<not> length q < 16 \<and> (le_word (take 8 q) :: u64) = 0x3d0d9300 \<and>
                (le_word (take 8 (drop 8 q)) :: u64) = 0x100))"

definition rtc_globals_clear :: rtc_globals where
  "rtc_globals_clear = \<lparr>mSeedValid = False, mSeed = seed_zero, mFreqHz = 0, mSeedNs = 0\<rparr>"

definition rtc_ops :: "'e rtc_platform \<Rightarrow> 'e nwoas_sera_rtc_ops_t" where
  "rtc_ops p = \<lparr>sera_read32 = Some (MmioRead32 p), sera_write32 = Some (MmioWrite32 p),
                sera_physical_counter = Some (ArmGenericTimerGetSystemCount p),
                sera_counter_frequency = Some (ArmGenericTimerGetTimerFreq p)\<rparr>"

definition rtc_seed_of :: "nwoas_sera_rtc_result_t \<Rightarrow> u64 \<Rightarrow> nwoas_rtc_seed_t" where
  "rtc_seed_of r freq =
     \<lparr>seed_magic = NWOAS_RTC_SEED_MAGIC, seed_version = NWOAS_RTC_SEED_VERSION,
      seed_epoch = word_of_int (res_utc_seconds r), seed_cntpct = res_cntpct r,
      seed_cntfrq = ucast freq, seed_flags = NWOAS_RTC_SEED_FLAG_VALID OR NWOAS_RTC_SEED_FLAG_SPMI\<rparr>"

text \<open>The result is the status and the module globals; the previous globals are overwritten.\<close>

definition LibRtcInitialize ::
  "'e rtc_platform \<Rightarrow> rtc_globals \<Rightarrow> ('e, u32) io_state
     \<Rightarrow> (EFI_STATUS \<times> rtc_globals) \<times> ('e, u32) io_state" where
  "LibRtcInitialize p g s =
     (let g0 = rtc_globals_clear
      in if \<not> RtcTopology p then ((EFI_SUCCESS, g0), s)
         else
           let (before, s1) = io_sample (ArmGenericTimerGetSystemCount p) s;
               (freq, s2) = io_sample (ArmGenericTimerGetTimerFreq p) s1;
               ((status, out), s3) =
                 nwoas_sera_rtc_read (Some (rtc_ops p)) (Some nwoas_sera_result_clear) s2;
               (after, s4) = io_sample (ArmGenericTimerGetSystemCount p) s3;
               r = the out
           in if status \<noteq> NWOAS_SERA_OK \<or> freq = 0 \<or> after < before \<or> after - before > freq \<or>
                 res_cntfrq r \<noteq> freq \<or> res_cntpct r > after
              then ((EFI_SUCCESS, g0), s4)
              else
                let seed = rtc_seed_of r freq;
                    g1 = g0\<lparr>mSeed := seed\<rparr>
                in if nwoas_rtc_seed_validate (Some seed) freq \<noteq> NWOAS_RTC_OK \<or>
                      fst (nwoas_rtc_epoch_to_calendar (seed_epoch seed) (Some cal_zero)) \<noteq> NWOAS_RTC_OK
                   then ((EFI_SUCCESS, g1), s4)
                   else ((EFI_SUCCESS, g1\<lparr>mSeedNs := res_nanoseconds r, mFreqHz := freq,
                                          mSeedValid := True\<rparr>), s4))"

definition LibRtcVirtualNotifyEvent :: "rtc_globals \<Rightarrow> rtc_globals" where
  "LibRtcVirtualNotifyEvent g = g"

section \<open>The invariant of the module globals\<close>

definition rtc_inv :: "rtc_globals \<Rightarrow> bool" where
  "rtc_inv g \<longleftrightarrow> (mSeedValid g \<longrightarrow>
     nwoas_rtc_seed_validate (Some (mSeed g)) (mFreqHz g) = NWOAS_RTC_OK \<and>
     NWOAS_SERA_CNTFRQ_MIN \<le> mFreqHz g \<and> mFreqHz g \<le> NWOAS_SERA_CNTFRQ_MAX \<and>
     unat (mSeedNs g) < 1000000000)"

lemma rtc_initialize_inv:
  assumes "LibRtcInitialize p g s = ((st, g'), s')"
  shows "rtc_inv g'"
proof (cases "mSeedValid g'")
  case True
  then obtain s2 s3 r where
    r: "nwoas_sera_rtc_read (Some (rtc_ops p)) (Some nwoas_sera_result_clear) s2 = ((NWOAS_SERA_OK, r), s3)"
    and f: "res_cntfrq (the r) = mFreqHz g'" "mSeedNs g' = res_nanoseconds (the r)"
    and v: "nwoas_rtc_seed_validate (Some (mSeed g')) (mFreqHz g') = NWOAS_RTC_OK"
    using assms
    by (auto simp: LibRtcInitialize_def rtc_globals_clear_def Let_def split: prod.splits if_splits)
  obtain q where q: "r = Some q"
    using r by (auto simp: nwoas_sera_rtc_read_def rtc_ops_def Let_def split: prod.splits if_splits)
  from sera_rtc_read_ok [OF r [unfolded q]] show ?thesis
    using f v q by (auto simp: rtc_inv_def sera_result_ok_def)
qed (simp add: rtc_inv_def)

lemma rtc_initialize_writes:
  assumes "LibRtcInitialize p g s = ((st, g'), s')"
  shows "\<exists>k \<le> 3. io_writes s' = io_writes s @ take k sera_cmds \<and>
     (mSeedValid g' \<longrightarrow> k = 3) \<and> (\<not> RtcTopology p \<longrightarrow> k = 0 \<and> g' = rtc_globals_clear) \<and> st = EFI_SUCCESS"
proof (cases "RtcTopology p")
  case False
  then show ?thesis
    using assms by (auto simp: LibRtcInitialize_def Let_def rtc_globals_clear_def intro!: exI [of _ 0])
next
  case True
  obtain b s1 where 1: "io_sample (ArmGenericTimerGetSystemCount p) s = (b, s1)" by fastforce
  obtain f s2 where 2: "io_sample (ArmGenericTimerGetTimerFreq p) s1 = (f, s2)" by fastforce
  obtain stt r s3 where
    3: "nwoas_sera_rtc_read (Some (rtc_ops p)) (Some nwoas_sera_result_clear) s2 = ((stt, r), s3)"
    by (metis surj_pair)
  obtain a s4 where 4: "io_sample (ArmGenericTimerGetSystemCount p) s3 = (a, s4)" by fastforce
  obtain k where k: "k \<le> 3" "io_writes s3 = io_writes s2 @ take k sera_cmds"
    "stt = NWOAS_SERA_OK \<longrightarrow> k = 3" using sera_rtc_read_writes [OF 3] by blast
  have "s' = s4" and "mSeedValid g' \<Longrightarrow> stt = NWOAS_SERA_OK" and "st = EFI_SUCCESS"
    using assms True 1 2 3 4
    by (auto simp: LibRtcInitialize_def Let_def rtc_globals_clear_def split: if_splits)
  then show ?thesis
    using k True io_sampleE [OF 1] io_sampleE [OF 2] io_sampleE [OF 4] by (intro exI [of _ k]) auto
qed

section \<open>The time GetTime returns\<close>

text \<open>Nanoseconds since 1 January 1970 of an EFI time.\<close>

definition efi_cal :: "EFI_TIME \<Rightarrow> nwoas_rtc_calendar_t" where
  "efi_cal t = \<lparr>cal_year = efi_Year t, cal_month = efi_Month t, cal_day = efi_Day t,
     cal_hour = efi_Hour t, cal_minute = efi_Minute t, cal_second = efi_Second t,
     cal_nanosecond = efi_Nanosecond t, cal_timezone = efi_TimeZone t, cal_daylight = efi_Daylight t\<rparr>"

definition efi_ns :: "EFI_TIME \<Rightarrow> nat" where
  "efi_ns t = cal_seconds (efi_cal t) * 1000000000 + unat (efi_Nanosecond t)"

definition rtc_elapsed_ns :: "rtc_globals \<Rightarrow> u64 \<Rightarrow> nat" where
  "rtc_elapsed_ns g now =
     unat (seed_epoch (mSeed g)) * 1000000000 + unat (mSeedNs g)
       + (unat now - unat (seed_cntpct (mSeed g))) * 1000000000 div unat (mFreqHz g)"

lemma rtc_carry_spec:
  assumes "rtc_carry e ns sns = Some (e', ns')" and "unat ns < 1000000000" and "unat sns < 1000000000"
    and "NWOAS_RTC_EPOCH_MIN \<le> e" and "e \<le> NWOAS_RTC_EPOCH_MAX"
  shows "unat e' * 1000000000 + unat ns' = unat e * 1000000000 + unat ns + unat sns"
    and "unat ns' < 1000000000" and "NWOAS_RTC_EPOCH_MIN \<le> e'" and "e' \<le> NWOAS_RTC_EPOCH_MAX"
proof -
  have n: "unat (ns + sns) = unat ns + unat sns" using assms(2,3) by (simp add: unat_add_small)
  have "unat e' * 1000000000 + unat ns' = unat e * 1000000000 + unat ns + unat sns \<and>
    unat ns' < 1000000000 \<and> NWOAS_RTC_EPOCH_MIN \<le> e' \<and> e' \<le> NWOAS_RTC_EPOCH_MAX"
  proof (cases "ns + sns \<ge> 1000000000")
    case True
    then have e: "e' = e + 1" "ns' = ns + sns - 1000000000" "e < NWOAS_RTC_EPOCH_MAX"
      using assms(1) by (auto simp: rtc_carry_def Let_def not_le split: if_splits)
    have "unat e' = unat e + 1"
      using e(1,3) by (simp add: unat_add_small word_less_nat_alt)
    moreover have "unat ns' = unat ns + unat sns - 1000000000"
      using True e(2) n by (simp add: unat_diff_small)
    ultimately show ?thesis
      using assms True e(3) n by (simp add: word_le_nat_alt word_less_nat_alt)
  next
    case False
    then show ?thesis
      using assms n by (auto simp: rtc_carry_def Let_def word_le_nat_alt)
  qed
  then show "unat e' * 1000000000 + unat ns' = unat e * 1000000000 + unat ns + unat sns"
    and "unat ns' < 1000000000" and "NWOAS_RTC_EPOCH_MIN \<le> e'" and "e' \<le> NWOAS_RTC_EPOCH_MAX" by blast+
qed

text \<open>
  The environment at the counter sample: \<^verbatim>\<open>LibGetTime\<close> samples the frequency, then the counter.
\<close>

definition rtc_now :: "'e rtc_platform \<Rightarrow> 'e \<Rightarrow> u64" where
  "rtc_now p e = fst (ArmGenericTimerGetSystemCount p (snd (ArmGenericTimerGetTimerFreq p e)))"

lemma LibGetTime_success:
  assumes "LibGetTime p g (Some t0) caps s = (EFI_SUCCESS, Some t, caps', s')" and "rtc_inv g"
  shows "nwoas_rtc_calendar_validate (Some (efi_cal t)) = NWOAS_RTC_OK"
    and "efi_ns t = rtc_elapsed_ns g (rtc_now p (io_env s))"
    and "seed_cntpct (mSeed g) \<le> rtc_now p (io_env s)"
proof -
  define now where "now = rtc_now p (io_env s)"
  obtain freq e1 where f: "ArmGenericTimerGetTimerFreq p (io_env s) = (freq, e1)" by fastforce
  obtain e ns e' ns' c where
    g: "mSeedValid g" "freq = mFreqHz g"
    and adv: "nwoas_rtc_advance (Some (mSeed g)) now freq (Some 0) (Some 0) = (NWOAS_RTC_OK, e, ns)"
    and car: "rtc_carry (the e) (the ns) (mSeedNs g) = Some (e', ns')"
    and cal: "nwoas_rtc_epoch_to_calendar e' (Some cal_zero) = (NWOAS_RTC_OK, c)"
    and t: "t = rtc_fill (the c) ns'"
    using assms(1) f
    by (auto simp: LibGetTime_def now_def rtc_now_def io_sample_def Let_def
        split: prod.splits if_splits option.splits)
  obtain e0 ns0 where e0: "e = Some e0" "ns = Some ns0"
    using adv by (auto simp: nwoas_rtc_advance_def Let_def split: if_splits)
  note a = advance_exact [OF adv [unfolded e0]]
  have sns: "unat (mSeedNs g) < 1000000000" using assms(2) g by (simp add: rtc_inv_def)
  note cr = rtc_carry_spec [OF car [unfolded e0 option.sel] a(2) sns a(3,4)]
  obtain c' where c': "nwoas_rtc_epoch_to_calendar e' (Some cal_zero) = (NWOAS_RTC_OK, Some c')"
    "greg_date (unat (cal_year c')) (unat (cal_month c')) (unat (cal_day c'))"
    "unat (cal_hour c') \<le> 23" "unat (cal_minute c') \<le> 59" "unat (cal_second c') \<le> 59"
    "cal_utc c'" "cal_seconds c' = unat e'"
    using epoch_to_calendar_spec [OF cr(3,4)] by blast
  have t': "t = rtc_fill c' ns'" using t cal c'(1) by auto
  have "nwoas_rtc_calendar_validate (Some c') = NWOAS_RTC_OK"
    using c' by (intro calendar_validate_intro)
  then show "nwoas_rtc_calendar_validate (Some (efi_cal t)) = NWOAS_RTC_OK"
    using cr(2)
    by (auto simp: t' efi_cal_def rtc_fill_def nwoas_rtc_calendar_validate_def not_less
        word_le_nat_alt split: if_splits)
  have "efi_ns t = unat e' * 1000000000 + unat ns'"
    using c'(7) by (simp add: efi_ns_def t' efi_cal_def rtc_fill_def cal_seconds_def)
  then show "efi_ns t = rtc_elapsed_ns g (rtc_now p (io_env s))"
    using cr(1) a(1) g(2) by (simp add: rtc_elapsed_ns_def now_def)
  show "seed_cntpct (mSeed g) \<le> rtc_now p (io_env s)"
    using adv by (auto simp: nwoas_rtc_advance_def now_def Let_def not_less split: if_splits)
qed

lemma LibGetTime_frame:
  assumes "LibGetTime p g t0 caps s = (st, t, caps', s')"
  shows "io_writes s' = io_writes s" and "st \<noteq> EFI_SUCCESS \<Longrightarrow> t = t0"
  using assms
  by (auto simp: LibGetTime_def Let_def split: prod.splits if_splits option.splits dest!: io_sampleE)

lemma rtc_elapsed_mono:
  "unat a \<le> unat b \<Longrightarrow> rtc_elapsed_ns g a \<le> rtc_elapsed_ns g b"
  by (simp add: rtc_elapsed_ns_def div_le_mono)

section \<open>A concrete platform\<close>

text \<open>A device for the witnesses: a reply queue that answers each command with three words.\<close>

definition demo_read :: "(u32 list, u32) reg_read" where
  "demo_read q a =
     (if a = NWOAS_SERA_SPMI_STATUS then (if q = [] then 0x1000000 else 0, q)
      else if a = NWOAS_SERA_SPMI_RSP then (hd q, tl q) else (0, q))"

definition demo_write :: "(u32 list, u32) reg_write" where
  "demo_write q a v =
     (if v = NWOAS_SERA_CMD_READ_TIME then [0x003f0f3d, 0x80000000, 0x1234]
      else [0x003f0f3d, 0, 0x3000])"

definition demo_platform :: "u32 list rtc_platform" where
  "demo_platform = \<lparr>MmioRead32 = demo_read, MmioWrite32 = demo_write,
     ArmGenericTimerGetSystemCount = (\<lambda>e. (5000, e)), ArmGenericTimerGetTimerFreq = (\<lambda>e. (24000000, e)),
     dt_get = (\<lambda>path. Some (\<lambda>prop.
        if prop = ''chip-id'' then Some [0x03, 0x81, 0, 0]
        else if prop = ''info-rtc'' then Some [0x02, 0xd0, 0, 0]
        else if prop = ''info-rtc_scrpad'' then Some [0x00, 0xd1, 0, 0]
        else if path = ''/arm-io/nub-spmi'' then Some (le_bytes 8 (0x3d0d9300 :: u64) @ le_bytes 8 (0x100 :: u64))
        else Some [15, 0, 0, 0]))\<rparr>"

definition demo_bus :: "u32 list nwoas_sera_bus_t" where
  "demo_bus = \<lparr>bus_read32 = demo_read, bus_write32 = demo_write, bus_counter = (\<lambda>e. (5000, e)),
     bus_deadline_ticks = 2400000\<rparr>"

lemma demo_wait:
  "nwoas_sera_wait_rx NWOAS_SERA_MAX_POLLS demo_bus 5000 \<lparr>io_env = x # q, io_log = l\<rparr>
     = (NWOAS_SERA_OK, \<lparr>io_env = x # q, io_log = l @ [MRead NWOAS_SERA_SPMI_STATUS 0]\<rparr>)"
  by (subst nwoas_sera_wait_rx.simps) (simp add: demo_bus_def io_read_def io_sample_def demo_read_def)

lemma demo_words:
  "nwoas_sera_read_words NWOAS_SERA_RSP_WORDS demo_bus 5000 [] \<lparr>io_env = [a, b, c], io_log = l\<rparr>
     = (NWOAS_SERA_OK, [a, b, c], \<lparr>io_env = [], io_log = l @
         [MRead NWOAS_SERA_SPMI_STATUS 0, MRead NWOAS_SERA_SPMI_RSP a, MRead NWOAS_SERA_SPMI_STATUS 0,
          MRead NWOAS_SERA_SPMI_RSP b, MRead NWOAS_SERA_SPMI_STATUS 0, MRead NWOAS_SERA_SPMI_RSP c]\<rparr>)"
proof -
  have "bus_read32 demo_bus = demo_read" by (simp add: demo_bus_def)
  then show ?thesis by (simp add: numeral_3_eq_3 demo_wait io_read_def demo_read_def)
qed

lemma demo_read_reg:
  "\<exists>l'. nwoas_sera_read_reg demo_bus NWOAS_SERA_CMD_READ_TIME r i \<lparr>io_env = [], io_log = l\<rparr> =
    (NWOAS_SERA_OK, r\<lparr>res_cmd_writes := res_cmd_writes r + 1, res_headers := (res_headers r)[i := 0x003f0f3d],
       res_transactions_done := of_nat i + 1\<rparr>, 0x123480000000, \<lparr>io_env = [], io_log = l @ l'\<rparr>)"
  "\<exists>l'. nwoas_sera_read_reg demo_bus NWOAS_SERA_CMD_READ_OFFSET r i \<lparr>io_env = [], io_log = l\<rparr> =
    (NWOAS_SERA_OK, r\<lparr>res_cmd_writes := res_cmd_writes r + 1, res_headers := (res_headers r)[i := 0x003f0f3d],
       res_transactions_done := of_nat i + 1\<rparr>, 0x300000000000, \<lparr>io_env = [], io_log = l @ l'\<rparr>)"
proof -
  have b: "io_read (bus_read32 demo_bus) NWOAS_SERA_SPMI_STATUS \<lparr>io_env = [], io_log = m\<rparr>
      = (0x1000000, \<lparr>io_env = [], io_log = m @ [MRead NWOAS_SERA_SPMI_STATUS 0x1000000]\<rparr>)"
    "io_sample (bus_counter demo_bus) \<lparr>io_env = [], io_log = m\<rparr> = (5000, \<lparr>io_env = [], io_log = m\<rparr>)"
    "io_write (bus_write32 demo_bus) NWOAS_SERA_SPMI_CMD NWOAS_SERA_CMD_READ_TIME \<lparr>io_env = [], io_log = m\<rparr> =
      \<lparr>io_env = [0x003f0f3d, 0x80000000, 0x1234], io_log = m @ [MWrite NWOAS_SERA_SPMI_CMD NWOAS_SERA_CMD_READ_TIME]\<rparr>"
    "io_write (bus_write32 demo_bus) NWOAS_SERA_SPMI_CMD NWOAS_SERA_CMD_READ_OFFSET \<lparr>io_env = [], io_log = m\<rparr> =
      \<lparr>io_env = [0x003f0f3d, 0, 0x3000], io_log = m @ [MWrite NWOAS_SERA_SPMI_CMD NWOAS_SERA_CMD_READ_OFFSET]\<rparr>"
    for m
    by (simp_all add: demo_bus_def io_read_def io_sample_def io_write_def demo_read_def demo_write_def)
  have d: "bus_deadline_ticks demo_bus = 2400000" by (simp add: demo_bus_def)
  show "\<exists>l'. nwoas_sera_read_reg demo_bus NWOAS_SERA_CMD_READ_TIME r i \<lparr>io_env = [], io_log = l\<rparr> =
    (NWOAS_SERA_OK, r\<lparr>res_cmd_writes := res_cmd_writes r + 1, res_headers := (res_headers r)[i := 0x003f0f3d],
       res_transactions_done := of_nat i + 1\<rparr>, 0x123480000000, \<lparr>io_env = [], io_log = l @ l'\<rparr>)"
  "\<exists>l'. nwoas_sera_read_reg demo_bus NWOAS_SERA_CMD_READ_OFFSET r i \<lparr>io_env = [], io_log = l\<rparr> =
    (NWOAS_SERA_OK, r\<lparr>res_cmd_writes := res_cmd_writes r + 1, res_headers := (res_headers r)[i := 0x003f0f3d],
       res_transactions_done := of_nat i + 1\<rparr>, 0x300000000000, \<lparr>io_env = [], io_log = l @ l'\<rparr>)"
    by (simp_all add: nwoas_sera_read_reg_def b d demo_words nwoas_sera_fifo_idle_def nwoas_sera_rtc_words_to_u48_def)
qed


lemma demo_snapshot:
  "\<exists>l'. sera_snapshot demo_bus r \<lparr>io_env = [], io_log = l\<rparr> =
    (NWOAS_SERA_OK, r\<lparr>res_cmd_writes := res_cmd_writes r + 3,
       res_headers := (res_headers r)[0 := 0x003f0f3d, 1 := 0x003f0f3d, 2 := 0x003f0f3d],
       res_transactions_done := 3, res_counter0 := 0x123480000000, res_offset := 0x300000000000,
       res_counter1 := 0x123480000000, res_cntpct := 5000\<rparr>, \<lparr>io_env = [], io_log = l @ l'\<rparr>)"
proof -
  obtain l1 where 1: "nwoas_sera_read_reg demo_bus NWOAS_SERA_CMD_READ_TIME r 0 \<lparr>io_env = [], io_log = l\<rparr> =
    (NWOAS_SERA_OK, r\<lparr>res_cmd_writes := res_cmd_writes r + 1, res_headers := (res_headers r)[0 := 0x003f0f3d],
       res_transactions_done := of_nat 0 + 1\<rparr>, 0x123480000000, \<lparr>io_env = [], io_log = l @ l1\<rparr>)"
    using demo_read_reg(1) by blast
  define r1 where "r1 = r\<lparr>res_cmd_writes := res_cmd_writes r + 1, res_headers := (res_headers r)[0 := 0x003f0f3d],
       res_transactions_done := 1, res_counter0 := 0x123480000000\<rparr>"
  obtain l2 where 2: "nwoas_sera_read_reg demo_bus NWOAS_SERA_CMD_READ_OFFSET r1 1 \<lparr>io_env = [], io_log = l @ l1\<rparr> =
    (NWOAS_SERA_OK, r1\<lparr>res_cmd_writes := res_cmd_writes r1 + 1, res_headers := (res_headers r1)[1 := 0x003f0f3d],
       res_transactions_done := of_nat 1 + 1\<rparr>, 0x300000000000, \<lparr>io_env = [], io_log = (l @ l1) @ l2\<rparr>)"
    using demo_read_reg(2) by blast
  define r2 where "r2 = r1\<lparr>res_cmd_writes := res_cmd_writes r1 + 1, res_headers := (res_headers r1)[1 := 0x003f0f3d],
       res_transactions_done := 2, res_offset := 0x300000000000\<rparr>"
  obtain l3 where 3: "nwoas_sera_read_reg demo_bus NWOAS_SERA_CMD_READ_TIME r2 2 \<lparr>io_env = [], io_log = (l @ l1) @ l2\<rparr> =
    (NWOAS_SERA_OK, r2\<lparr>res_cmd_writes := res_cmd_writes r2 + 1, res_headers := (res_headers r2)[2 := 0x003f0f3d],
       res_transactions_done := of_nat 2 + 1\<rparr>, 0x123480000000, \<lparr>io_env = [], io_log = ((l @ l1) @ l2) @ l3\<rparr>)"
    using demo_read_reg(1) by blast
  have c: "bus_counter demo_bus = (\<lambda>e. (5000, e))" by (simp add: demo_bus_def)
  show ?thesis
    by (rule exI [of _ "l1 @ l2 @ l3"])
      (use 2 3 in \<open>simp add: sera_snapshot_def 1 r2_def r1_def io_sample_def c\<close>)
qed

lemma demo_rtc_read:
  "\<exists>l' r. nwoas_sera_rtc_read (Some (rtc_ops demo_platform)) (Some nwoas_sera_result_clear)
       \<lparr>io_env = [], io_log = l\<rparr> = ((NWOAS_SERA_OK, Some r), \<lparr>io_env = [], io_log = l @ l'\<rparr>) \<and>
     res_utc_seconds r = 1916043264 \<and> res_nanoseconds r = 0 \<and> res_cntpct r = 5000 \<and> res_cntfrq r = 24000000"
proof -
  define r0 where "r0 = nwoas_sera_result_clear\<lparr>res_cntfrq := 24000000\<rparr>"
  obtain l1 where 1: "sera_snapshot demo_bus r0 \<lparr>io_env = [], io_log = l\<rparr> =
    (NWOAS_SERA_OK, r0\<lparr>res_cmd_writes := res_cmd_writes r0 + 3,
       res_headers := (res_headers r0)[0 := 0x003f0f3d, 1 := 0x003f0f3d, 2 := 0x003f0f3d],
       res_transactions_done := 3, res_counter0 := 0x123480000000, res_offset := 0x300000000000,
       res_counter1 := 0x123480000000, res_cntpct := 5000\<rparr>, \<lparr>io_env = [], io_log = l @ l1\<rparr>)"
    using demo_snapshot by blast
  have cv: "nwoas_sera_rtc_convert 0x123480000000 0x300000000000 (Some 0) (Some 0)
      = (NWOAS_SERA_OK, Some 1916043264, Some 0)"
    by (simp add: sera_convert_spec sera_time_def)
  have ns: "nwoas_sera_rtc_frac_to_ns 0 = 0" by (simp add: nwoas_sera_rtc_frac_to_ns_def)
  have f: "ArmGenericTimerGetTimerFreq demo_platform = (\<lambda>e. (24000000, e))"
    "ArmGenericTimerGetSystemCount demo_platform = (\<lambda>e. (5000, e))" "MmioRead32 demo_platform = demo_read"
    "MmioWrite32 demo_platform = demo_write" by (simp_all add: demo_platform_def)
  have b: "\<lparr>bus_read32 = demo_read, bus_write32 = demo_write, bus_counter = Pair 5000,
       bus_deadline_ticks = 2400000\<rparr> = demo_bus" by (simp add: demo_bus_def fun_eq_iff)
  show ?thesis
    by (simp add: nwoas_sera_rtc_read_def rtc_ops_def f io_sample_def b)
       (simp add: 1 [unfolded r0_def] sera_decode_def cv ns)
qed

lemma demo_topology: "RtcTopology demo_platform"
  by (simp add: RtcTopology_def RtcProp32_def demo_platform_def le_word_roundtrip)

lemma demo_initialize:
  "\<exists>s'. LibRtcInitialize demo_platform rtc_globals_clear \<lparr>io_env = [], io_log = []\<rparr> =
     ((EFI_SUCCESS, \<lparr>mSeedValid = True,
        mSeed = \<lparr>seed_magic = NWOAS_RTC_SEED_MAGIC, seed_version = NWOAS_RTC_SEED_VERSION,
          seed_epoch = 1916043264, seed_cntpct = 5000, seed_cntfrq = 24000000, seed_flags = 3\<rparr>,
        mFreqHz = 24000000, mSeedNs = 0\<rparr>), s') \<and> io_env s' = []"
proof -
  obtain l' r where r: "nwoas_sera_rtc_read (Some (rtc_ops demo_platform)) (Some nwoas_sera_result_clear)
       \<lparr>io_env = [], io_log = []\<rparr> = ((NWOAS_SERA_OK, Some r), \<lparr>io_env = [], io_log = [] @ l'\<rparr>)"
     "res_utc_seconds r = 1916043264" "res_nanoseconds r = 0" "res_cntpct r = 5000" "res_cntfrq r = 24000000"
    using demo_rtc_read [of "[]"] by blast
  have f: "ArmGenericTimerGetTimerFreq demo_platform = (\<lambda>e. (24000000, e))"
    "ArmGenericTimerGetSystemCount demo_platform = (\<lambda>e. (5000, e))" by (simp_all add: demo_platform_def)
  have c: "fst (nwoas_rtc_epoch_to_calendar 1916043264 (Some cal_zero)) = NWOAS_RTC_OK"
    by (simp add: nwoas_rtc_epoch_to_calendar_def Let_def split: prod.splits)
  show ?thesis
    by (simp add: LibRtcInitialize_def demo_topology f io_sample_def r rtc_seed_of_def
        nwoas_rtc_seed_validate_def rtc_globals_clear_def c)
qed

section \<open>Properties\<close>

text \<open>
  C21. The snapshot is read-only: whatever the SPMI controller and the counter answer, the only
  register writes \<^verbatim>\<open>nwoas_sera_rtc_read\<close> performs are a prefix of the three command words (counter,
  offset, counter) to the CMD register; a successful read made all three; the result counts them.
\<close>

theorem sera_read_only_commands:
  assumes "nwoas_sera_rtc_read ops out s = ((st, r), s')"
  shows "\<exists>k \<le> 3. io_writes s' = io_writes s @ take k
            [(0x23d0d9304, 0xd0028f3d), (0x23d0d9304, 0xd1008f3d), (0x23d0d9304, 0xd0028f3d)] \<and>
     (st = NWOAS_SERA_OK \<longrightarrow> k = 3) \<and>
     (case r of None \<Rightarrow> k = 0 | Some q \<Rightarrow> unat (res_cmd_writes q) = k)"
  using sera_rtc_read_writes [OF assms] .

theorem sera_read_only_commands_witness:
  "\<exists>s' r. nwoas_sera_rtc_read (Some (rtc_ops demo_platform)) (Some nwoas_sera_result_clear)
       \<lparr>io_env = [], io_log = []\<rparr> = ((NWOAS_SERA_OK, Some r), s') \<and>
     io_writes s' = [(0x23d0d9304, 0xd0028f3d), (0x23d0d9304, 0xd1008f3d), (0x23d0d9304, 0xd0028f3d)]"
proof -
  obtain l' r where r: "nwoas_sera_rtc_read (Some (rtc_ops demo_platform)) (Some nwoas_sera_result_clear)
       \<lparr>io_env = [], io_log = []\<rparr> = ((NWOAS_SERA_OK, Some r), \<lparr>io_env = [], io_log = [] @ l'\<rparr>)"
    using demo_rtc_read [of "[]"] by blast
  from sera_read_only_commands [OF r] r show ?thesis by auto
qed

text \<open>
  C22. A successful snapshot is the documented clock: its seconds and fraction are the signed
  49-bit value of counter plus twice the offset, it lies in 2000..2099, the nanoseconds are the
  fraction rounded down, the two counter samples are ordered and at most half a second apart,
  and the reported frequency is plausible.
\<close>

theorem sera_read_ok_decodes:
  assumes "nwoas_sera_rtc_read ops out s = ((NWOAS_SERA_OK, Some r), s')"
  shows "res_utc_seconds r * 65536 + int (unat (res_subseconds r))
            = sera_time (res_counter1 r) (res_offset r)
    \<and> 946684800 \<le> res_utc_seconds r \<and> res_utc_seconds r \<le> 4102444799
    \<and> unat (res_subseconds r) < 65536
    \<and> unat (res_nanoseconds r) = unat (res_subseconds r) * 1000000000 div 65536
    \<and> unat (res_counter0 r) \<le> unat (res_counter1 r)
    \<and> unat (res_counter1 r) \<le> unat (res_counter0 r) + 32768
    \<and> 1000000 \<le> res_cntfrq r \<and> res_cntfrq r \<le> 4000000000"
  using sera_rtc_read_ok [OF assms] unfolding sera_result_ok_def by blast

theorem sera_read_ok_decodes_witness:
  "\<exists>r s'. nwoas_sera_rtc_read (Some (rtc_ops demo_platform)) (Some nwoas_sera_result_clear)
       \<lparr>io_env = [], io_log = []\<rparr> = ((NWOAS_SERA_OK, Some r), s') \<and>
     sera_time (res_counter1 r) (res_offset r) = 1916043264 * 65536 + int (unat (res_subseconds r))"
proof -
  obtain l' r where r: "nwoas_sera_rtc_read (Some (rtc_ops demo_platform)) (Some nwoas_sera_result_clear)
       \<lparr>io_env = [], io_log = []\<rparr> = ((NWOAS_SERA_OK, Some r), \<lparr>io_env = [], io_log = [] @ l'\<rparr>)"
     "res_utc_seconds r = 1916043264"
    using demo_rtc_read [of "[]"] by blast
  from sera_read_ok_decodes [OF r(1)] r show ?thesis by auto
qed

text \<open>
  C23. Reading back what the clock's owner stored: after \<^verbatim>\<open>aplpmu_settime\<close> stored the offset for the time
  \<open>T\<close> (in 1/65536 s) against the counter \<open>C\<close>, the conversion returns \<open>T\<close> exactly when
  \<open>T - C\<close> is even and one unit less when it is odd.
\<close>

theorem sera_settime_roundtrip:
  assumes "uint tv_sec < 2 ^ 32" and "uint tv_usec < 1000000" and "uint c < 2 ^ 48"
  defines "T \<equiv> settime_ticks tv_sec tv_usec"
  defines "D \<equiv> T - (T - uint c) mod 2"
  assumes "946684800 \<le> D div 65536" and "D div 65536 \<le> 4102444799"
  shows "nwoas_sera_rtc_convert c (aplpmu_settime_offset tv_sec tv_usec c) (Some x) (Some y) =
     (NWOAS_SERA_OK, Some (D div 65536), Some (word_of_int (D mod 65536)))"
proof -
  have "sera_time c (aplpmu_settime_offset tv_sec tv_usec c) = D"
    using settime_convert [OF assms(1-3)] by (simp add: D_def T_def)
  moreover have "\<not> D < 0" using assms(6) by auto
  ultimately show ?thesis using assms(6,7) by (simp add: sera_convert_spec)
qed

theorem sera_settime_roundtrip_witness:
  "nwoas_sera_rtc_convert 2 (aplpmu_settime_offset 1000000000 0 2) (Some 0) (Some 0) =
     (NWOAS_SERA_OK, Some 1000000000, Some 0)"
  using sera_settime_roundtrip [of 1000000000 0 2 0 0] by (simp add: settime_ticks_def)

text \<open>
  The lost bit can reach the seconds: a time set on a whole second against an odd counter reads
  back one second low, in its last 1/65536.
\<close>

lemma settime_odd_counter_second:
  "nwoas_sera_rtc_convert 1 (aplpmu_settime_offset 1000000000 0 1) (Some 0) (Some 0) =
     (NWOAS_SERA_OK, Some 999999999, Some 65535)"
proof -
  have "sera_time 1 (aplpmu_settime_offset 1000000000 0 1) = 65535999999999 + 0"
    using settime_convert [of 1000000000 0 1] by (simp add: settime_ticks_def)
  then show ?thesis by (simp add: sera_convert_spec)
qed

text \<open>
  C24. Initialization is safe on every platform: it always reports success, it leaves the module
  globals in a state where a valid seed passes the seed validator at the recorded frequency, its
  register writes are the three command words at most, and on a machine whose device tree is not
  the expected one it writes nothing and leaves no seed.
\<close>

theorem rtc_initialize_safe:
  assumes "LibRtcInitialize p g s = ((st, g'), s')"
  shows "st = EFI_SUCCESS \<and> rtc_inv g' \<and>
    (\<exists>k \<le> 3. io_writes s' = io_writes s @ take k
        [(0x23d0d9304, 0xd0028f3d), (0x23d0d9304, 0xd1008f3d), (0x23d0d9304, 0xd0028f3d)] \<and>
      (mSeedValid g' \<longrightarrow> k = 3) \<and> (\<not> RtcTopology p \<longrightarrow> k = 0 \<and> g' = rtc_globals_clear))"
  using rtc_initialize_inv [OF assms] rtc_initialize_writes [OF assms] by blast

theorem rtc_initialize_safe_witness:
  "\<exists>g' s'. LibRtcInitialize demo_platform rtc_globals_clear \<lparr>io_env = [], io_log = []\<rparr> =
     ((EFI_SUCCESS, g'), s') \<and> mSeedValid g' \<and> rtc_inv g' \<and> length (io_writes s') = 3"
proof -
  obtain g' s' where g: "LibRtcInitialize demo_platform rtc_globals_clear \<lparr>io_env = [], io_log = []\<rparr> =
     ((EFI_SUCCESS, g'), s')" "mSeedValid g'" using demo_initialize by auto
  from rtc_initialize_safe [OF g(1)] g show ?thesis by auto
qed

text \<open>
  C25. The clock is exact: from globals that satisfy the invariant, a successful \<^verbatim>\<open>LibGetTime\<close>
  returns a calendar the validator accepts whose instant, in nanoseconds, is the snapshot plus
  the elapsed counter ticks at the recorded frequency, rounded down; it writes no register, and
  when it fails it leaves the caller's time untouched.
\<close>

theorem rtc_get_time_exact:
  assumes "rtc_inv g" and "LibGetTime p g (Some t0) caps s = (st, t, caps', s')"
  shows "io_writes s' = io_writes s \<and>
    (if st = EFI_SUCCESS
     then nwoas_rtc_calendar_validate (Some (efi_cal (the t))) = NWOAS_RTC_OK \<and>
          efi_ns (the t) =
            unat (seed_epoch (mSeed g)) * 1000000000 + unat (mSeedNs g)
              + (unat (rtc_now p (io_env s)) - unat (seed_cntpct (mSeed g))) * 1000000000
                  div unat (mFreqHz g) \<and>
          seed_cntpct (mSeed g) \<le> rtc_now p (io_env s)
     else t = Some t0)"
proof (cases "st = EFI_SUCCESS")
  case True
  then obtain u where u: "t = Some u"
    using assms(2) by (auto simp: LibGetTime_def Let_def split: prod.splits if_splits option.splits)
  show ?thesis
    using True u LibGetTime_success [OF assms(2) [unfolded True u] assms(1)] LibGetTime_frame [OF assms(2)]
    by (simp add: rtc_elapsed_ns_def)
qed (use LibGetTime_frame [OF assms(2)] in simp)

theorem rtc_get_time_exact_witness:
  "\<exists>g t s'. rtc_inv g \<and>
     LibGetTime demo_platform g (Some (rtc_fill cal_zero 0)) None \<lparr>io_env = [], io_log = []\<rparr>
        = (EFI_SUCCESS, Some t, None, s') \<and> efi_ns t = 1916043264 * 1000000000"
proof -
  define g where "g = \<lparr>mSeedValid = True,
        mSeed = \<lparr>seed_magic = NWOAS_RTC_SEED_MAGIC, seed_version = NWOAS_RTC_SEED_VERSION,
          seed_epoch = 1916043264, seed_cntpct = 5000, seed_cntfrq = 24000000, seed_flags = 3\<rparr>,
        mFreqHz = 24000000, mSeedNs = 0\<rparr>"
  have inv: "rtc_inv g" by (simp add: rtc_inv_def g_def nwoas_rtc_seed_validate_def)
  have f: "ArmGenericTimerGetTimerFreq demo_platform = (\<lambda>e. (24000000, e))"
    "ArmGenericTimerGetSystemCount demo_platform = (\<lambda>e. (5000, e))" by (simp_all add: demo_platform_def)
  have "\<exists>c. nwoas_rtc_epoch_to_calendar 1916043264 (Some cal_zero) = (NWOAS_RTC_OK, c)"
    by (simp add: nwoas_rtc_epoch_to_calendar_def Let_def split: prod.splits)
  then obtain c where "nwoas_rtc_epoch_to_calendar 1916043264 (Some cal_zero) = (NWOAS_RTC_OK, c)" ..
  then obtain s' where t: "LibGetTime demo_platform g (Some (rtc_fill cal_zero 0)) None
      \<lparr>io_env = [], io_log = []\<rparr> = (EFI_SUCCESS, Some (rtc_fill (the c) 0), None, s')"
    by (simp add: LibGetTime_def g_def f io_sample_def nwoas_rtc_advance_def rtc_carry_def)
  from rtc_get_time_exact [OF inv t] t inv show ?thesis
    by (auto simp: g_def rtc_now_def f)
qed

end
