(* ===== verification/Nvme_Control.thy ===== *)
theory Nvme_Control
  imports Nwoas_Prelude
begin

text \<open>
  The PCI and controller-register model of the synthetic NVMe function,
  \<^verbatim>\<open>native-s209/model.c\<close> and \<^verbatim>\<open>model.h\<close>.

  The C callbacks receive an opaque pointer to the object that encloses the controller, so a
  callback is modelled as a transformer of a state \<open>nwoas_control \<times> 'e\<close>: it can read the
  controller and change the environment.  The callback table is fixed by
  \<^verbatim>\<open>nwoas_control_init\<close> and is passed to every operation; a NULL callback is \<open>None\<close>.
\<close>

datatype nwoas_access = NWOAS_HANDLED | NWOAS_NOT_HANDLED | NWOAS_INVALID

record nwoas_control =
  ctl_bar :: u64
  ctl_asq :: u64
  ctl_acq :: u64
  ctl_cc :: u32
  ctl_csts :: u32
  ctl_aqa :: u32
  ctl_mask :: u32
  ctl_command :: u16
  ctl_probe_low :: bool
  ctl_probe_high :: bool
  ctl_pending :: bool

type_synonym 'e ctl_state = "nwoas_control \<times> 'e"

record 'e nwoas_callbacks =
  ccb_contains :: "('e ctl_state \<Rightarrow> u64 \<Rightarrow> u32 \<Rightarrow> bool) option"
  ccb_setup :: "(u64 \<Rightarrow> u16 \<Rightarrow> u64 \<Rightarrow> u16 \<Rightarrow> 'e ctl_state \<Rightarrow> bool \<times> 'e ctl_state) option"
  ccb_reset :: "('e ctl_state \<Rightarrow> 'e ctl_state) option"
  ccb_flush :: "('e ctl_state \<Rightarrow> bool \<times> 'e ctl_state) option"
  ccb_irq :: "(bool \<Rightarrow> 'e ctl_state \<Rightarrow> 'e ctl_state) option"

section \<open>Widths and bytes\<close>

definition width_ok :: "nat \<Rightarrow> bool" where
  "width_ok w \<longleftrightarrow> w = 8 \<or> w = 16 \<or> w = 32 \<or> w = 64"

definition width_mask :: "nat \<Rightarrow> u64" where
  "width_mask w = (if w = 64 then -1 else push_bit w 1 - 1)"

definition fits :: "u32 \<Rightarrow> nat \<Rightarrow> u32 \<Rightarrow> bool" where
  "fits off w sz \<longleftrightarrow> width_ok w \<and> off \<le> sz \<and> of_nat (w div 8) \<le> sz - off"

definition byte_of :: "u64 \<Rightarrow> nat \<Rightarrow> u8" where
  "byte_of v b = ucast (drop_bit (8 * b) v)"

definition collect_bytes :: "(u32 \<Rightarrow> u8) \<Rightarrow> u32 \<Rightarrow> nat \<Rightarrow> u64" where
  "collect_bytes f off w =
     foldl (\<lambda>v i. v OR push_bit (8 * i) (ucast (f (off + of_nat i)))) 0 [0..<w div 8]"

section \<open>Interrupt line and reset\<close>

definition ctl_irq_update :: "'e nwoas_callbacks \<Rightarrow> 'e ctl_state \<Rightarrow> 'e ctl_state" where
  "ctl_irq_update cb s =
     (case ccb_irq cb of
        None \<Rightarrow> s
      | Some f \<Rightarrow> f (ctl_pending (fst s) \<and> ctl_mask (fst s) AND 1 = 0 \<and>
                     ctl_command (fst s) AND 0x400 = 0) s)"

definition ctl_queues_reset :: "'e nwoas_callbacks \<Rightarrow> 'e ctl_state \<Rightarrow> 'e ctl_state" where
  "ctl_queues_reset cb s =
     (let s1 = apfst (ctl_pending_update (\<lambda>_. False)) s
      in case ccb_reset cb of None \<Rightarrow> s1 | Some f \<Rightarrow> f s1)"

definition nwoas_control_reset :: "'e nwoas_callbacks \<Rightarrow> 'e ctl_state \<Rightarrow> 'e ctl_state" where
  "nwoas_control_reset cb s =
     (let s1 = apfst (\<lambda>c. c\<lparr>ctl_cc := 0, ctl_csts := 0, ctl_aqa := 0, ctl_mask := 0,
                            ctl_asq := 0, ctl_acq := 0\<rparr>) s
      in ctl_irq_update cb (ctl_queues_reset cb s1))"

definition nwoas_control_init :: "u64 \<Rightarrow> 'e nwoas_callbacks \<Rightarrow> 'e ctl_state \<Rightarrow> 'e ctl_state" where
  "nwoas_control_init bar cb s =
     nwoas_control_reset cb
       (apfst (\<lambda>c. c\<lparr>ctl_bar := bar, ctl_command := 0, ctl_probe_low := False,
                     ctl_probe_high := False\<rparr>) s)"

definition nwoas_control_pending :: "'e nwoas_callbacks \<Rightarrow> bool \<Rightarrow> 'e ctl_state \<Rightarrow> 'e ctl_state" where
  "nwoas_control_pending cb p s = ctl_irq_update cb (apfst (ctl_pending_update (\<lambda>_. p)) s)"

section \<open>PCI configuration space\<close>

definition pci_byte :: "nwoas_control \<Rightarrow> u32 \<Rightarrow> u8" where
  "pci_byte c off =
     (if off < 4 then byte_of 0x00101234 (unat off)
      else if off < 6 then byte_of (ucast (ctl_command c)) (unat off - 4)
      else if off < 8 then byte_of (if ctl_pending c then 8 else 0) (unat off - 6)
      else if off < 12 then byte_of 0x01080201 (unat off - 8)
      else if off \<ge> 0x10 \<and> off < 0x14
      then byte_of (if ctl_probe_low c then 0xffffc004 else (ctl_bar c AND 0xffffffff) OR 4)
             (unat off - 0x10)
      else if off \<ge> 0x14 \<and> off < 0x18
      then byte_of (if ctl_probe_high c then 0xffffffff else drop_bit 32 (ctl_bar c)) (unat off - 0x14)
      else if off \<ge> 0x2c \<and> off < 0x30 then byte_of 0x00101234 (unat off - 0x2c)
      else if off = 0x3d then 1 else 0)"

definition nwoas_pci_read ::
  "nwoas_control \<Rightarrow> u32 \<Rightarrow> nat \<Rightarrow> u64 option \<Rightarrow> nwoas_access \<times> u64 option" where
  "nwoas_pci_read c off w v =
     (if v = None \<or> \<not> width_ok w then (NWOAS_INVALID, v)
      else if \<not> fits off w 4096 then (NWOAS_INVALID, Some (width_mask w))
      else (NWOAS_HANDLED, Some (collect_bytes (pci_byte c) off w)))"

definition pci_command_byte :: "u64 \<Rightarrow> u32 \<Rightarrow> u16 \<Rightarrow> nat \<Rightarrow> u16" where
  "pci_command_byte v off cmd i =
     (if off + of_nat i \<ge> 4 \<and> off + of_nat i < 6
      then let shift = 8 * unat (off + of_nat i - 4)
           in (cmd AND NOT (push_bit shift 0xff)) OR push_bit shift (ucast (byte_of v i))
      else cmd)"

definition nwoas_pci_write ::
  "'e nwoas_callbacks \<Rightarrow> u32 \<Rightarrow> nat \<Rightarrow> u64 \<Rightarrow> 'e ctl_state \<Rightarrow> nwoas_access \<times> 'e ctl_state" where
  "nwoas_pci_write cb off w v0 s =
     (if \<not> fits off w 4096 then (NWOAS_INVALID, s)
      else
        let v = v0 AND width_mask w
        in if off \<le> 4 \<and> 4 - off < of_nat (w div 8)
           then let cmd = foldl (pci_command_byte v off) (ctl_command (fst s)) [0..<w div 8]
                in (NWOAS_HANDLED,
                    ctl_irq_update cb (apfst (ctl_command_update (\<lambda>_. cmd AND 0x407)) s))
           else if w = 32 \<and> (off = 0x10 \<or> off = 0x14)
           then (NWOAS_HANDLED,
                 if off = 0x10 then apfst (ctl_probe_low_update (\<lambda>_. v = 0xffffffff)) s
                 else apfst (ctl_probe_high_update (\<lambda>_. v = 0xffffffff)) s)
           else (NWOAS_HANDLED, s))"

section \<open>Controller registers\<close>

definition reg_byte :: "nwoas_control \<Rightarrow> u32 \<Rightarrow> u8" where
  "reg_byte c off =
     (if off < 8 then byte_of (255 OR push_bit 16 1 OR push_bit 24 20 OR push_bit 37 1) (unat off)
      else if off < 12 then byte_of 0x10300 (unat off - 8)
      else if off < 16 then byte_of (ucast (ctl_mask c)) (unat off - 12)
      else if off < 20 then byte_of (ucast (ctl_mask c)) (unat off - 16)
      else if off < 24 then byte_of (ucast (ctl_cc c)) (unat off - 20)
      else if off \<ge> 0x1c \<and> off < 0x20 then byte_of (ucast (ctl_csts c)) (unat off - 0x1c)
      else if off \<ge> 0x24 \<and> off < 0x28 then byte_of (ucast (ctl_aqa c)) (unat off - 0x24)
      else if off \<ge> 0x28 \<and> off < 0x30 then byte_of (ctl_asq c) (unat off - 0x28)
      else if off \<ge> 0x30 \<and> off < 0x38 then byte_of (ctl_acq c) (unat off - 0x30)
      else 0)"

definition nwoas_reg_read ::
  "nwoas_control \<Rightarrow> u32 \<Rightarrow> nat \<Rightarrow> u64 option \<Rightarrow> nwoas_access \<times> u64 option" where
  "nwoas_reg_read c off w v =
     (if v = None then (NWOAS_INVALID, None)
      else if \<not> fits off w 0x4000 then (NWOAS_INVALID, Some 0)
      else (NWOAS_HANDLED, Some (collect_bytes (reg_byte c) off w)))"

definition ctl_fatal :: "'e nwoas_callbacks \<Rightarrow> 'e ctl_state \<Rightarrow> 'e ctl_state" where
  "ctl_fatal cb s =
     (let s1 = apfst (ctl_csts_update (\<lambda>x. x OR 2)) s
      in case ccb_irq cb of None \<Rightarrow> s1 | Some f \<Rightarrow> f False s1)"

definition ctl_queue_valid :: "'e nwoas_callbacks \<Rightarrow> 'e ctl_state \<Rightarrow> u64 \<Rightarrow> u16 \<Rightarrow> u32 \<Rightarrow> bool" where
  "ctl_queue_valid cb s base depth stride =
     (let bytes = ucast depth * stride :: u32
      in depth \<ge> 2 \<and> depth \<le> 256 \<and> base \<noteq> 0 \<and> base AND 4095 = 0 \<and>
         base \<le> -1 - ucast bytes \<and>
         (case ccb_contains cb of None \<Rightarrow> False | Some f \<Rightarrow> f s base bytes))"

definition ctl_sq_depth :: "u32 \<Rightarrow> u16" where
  "ctl_sq_depth aqa = ucast ((aqa AND 0xfff) + 1)"

definition ctl_cq_depth :: "u32 \<Rightarrow> u16" where
  "ctl_cq_depth aqa = ucast ((drop_bit 16 aqa AND 0xfff) + 1)"

text \<open>The shutdown request of a CC write.\<close>

definition ctl_shutdown ::
  "'e nwoas_callbacks \<Rightarrow> u64 \<Rightarrow> 'e ctl_state \<Rightarrow> nwoas_access \<times> 'e ctl_state" where
  "ctl_shutdown cb v s =
     (if drop_bit 14 v AND 3 \<noteq> 0 \<and> ctl_csts (fst s) AND 2 = 0 \<and> ctl_csts (fst s) AND 12 \<noteq> 8
      then
        let s1 = apfst (ctl_csts_update (\<lambda>x. (x AND NOT 12) OR 4)) s;
            (ok, s2) = (case ccb_flush cb of None \<Rightarrow> (False, s1) | Some f \<Rightarrow> f s1)
        in if \<not> ok then (NWOAS_HANDLED, ctl_fatal cb s2)
           else (NWOAS_HANDLED, apfst (ctl_csts_update (\<lambda>x. (x AND NOT 12) OR 8)) s2)
      else (NWOAS_HANDLED, s))"

text \<open>The enable transition of a CC write: \<open>None\<close> when the controller goes fatal.\<close>

definition ctl_enable :: "'e nwoas_callbacks \<Rightarrow> u64 \<Rightarrow> 'e ctl_state \<Rightarrow> bool \<times> 'e ctl_state" where
  "ctl_enable cb v s =
     (let c = fst s;
          sq = ctl_sq_depth (ctl_aqa c);
          cq = ctl_cq_depth (ctl_aqa c)
      in if drop_bit 7 v AND 15 \<noteq> 0 \<or> drop_bit 4 v AND 7 \<noteq> 0 \<or> drop_bit 16 v AND 15 \<noteq> 6 \<or>
            drop_bit 20 v AND 15 \<noteq> 4 \<or>
            \<not> ctl_queue_valid cb s (ctl_asq c) sq 64 \<or> \<not> ctl_queue_valid cb s (ctl_acq c) cq 16
         then (False, s)
         else case ccb_setup cb of
                None \<Rightarrow> (False, s)
              | Some f \<Rightarrow>
                  let (ok, s1) = f (ctl_asq c) sq (ctl_acq c) cq s
                  in if \<not> ok then (False, s1) else (True, apfst (ctl_csts_update (\<lambda>_. 1)) s1))"

definition ctl_write_cc ::
  "'e nwoas_callbacks \<Rightarrow> u64 \<Rightarrow> 'e ctl_state \<Rightarrow> nwoas_access \<times> 'e ctl_state" where
  "ctl_write_cc cb v s =
     (let old = ctl_cc (fst s);
          s1 = apfst (ctl_cc_update (\<lambda>_. ucast v)) s
      in if v AND 1 = 0
         then ctl_shutdown cb v
                (ctl_irq_update cb (apfst (ctl_csts_update (\<lambda>_. 0)) (ctl_queues_reset cb s1)))
         else if old AND 1 = 0
         then (case ctl_enable cb v s1 of
                 (False, s2) \<Rightarrow> (NWOAS_HANDLED, ctl_fatal cb s2)
               | (True, s2) \<Rightarrow> ctl_shutdown cb v s2)
         else ctl_shutdown cb v s1)"

definition ctl_base_write :: "u32 \<Rightarrow> nat \<Rightarrow> u64 \<Rightarrow> u64 \<Rightarrow> u64" where
  "ctl_base_write off w v base =
     (if w = 64 then v
      else let shift = (if off AND 4 \<noteq> 0 then 32 else 0)
           in (base AND NOT (push_bit shift 0xffffffff)) OR push_bit shift v)"

definition nwoas_reg_write ::
  "'e nwoas_callbacks \<Rightarrow> u32 \<Rightarrow> nat \<Rightarrow> u64 \<Rightarrow> 'e ctl_state \<Rightarrow> nwoas_access \<times> 'e ctl_state" where
  "nwoas_reg_write cb off w v0 s =
     (if \<not> fits off w 0x4000 \<or> (w \<noteq> 32 \<and> w \<noteq> 64) \<or> off AND 3 \<noteq> 0 then (NWOAS_INVALID, s)
      else if off \<ge> 0x1000 then (NWOAS_NOT_HANDLED, s)
      else if w = 64 \<and> off \<noteq> 0x28 \<and> off \<noteq> 0x30 \<and> drop_bit 32 v0 \<noteq> 0 then (NWOAS_INVALID, s)
      else if w = 64 \<and> (off = 0x2c \<or> off = 0x34) then (NWOAS_INVALID, s)
      else
        let v = v0 AND width_mask w
        in if off = 0xc
           then (NWOAS_HANDLED, ctl_irq_update cb (apfst (ctl_mask_update (\<lambda>m. m OR ucast v)) s))
           else if off = 0x10
           then (NWOAS_HANDLED, ctl_irq_update cb (apfst (ctl_mask_update (\<lambda>m. m AND NOT (ucast v))) s))
           else if off = 0x14 then ctl_write_cc cb v s
           else if off = 0x24 \<and> ctl_cc (fst s) AND 1 = 0
           then (NWOAS_HANDLED, apfst (ctl_aqa_update (\<lambda>_. ucast v)) s)
           else if (off = 0x28 \<or> off = 0x2c \<or> off = 0x30 \<or> off = 0x34) \<and> ctl_cc (fst s) AND 1 = 0
           then (NWOAS_HANDLED,
                 if off < 0x30 then apfst (ctl_asq_update (ctl_base_write off w v)) s
                 else apfst (ctl_acq_update (ctl_base_write off w v)) s)
           else (NWOAS_HANDLED, s))"

section \<open>Reading registers\<close>

lemma collect_bytes_eq:
  "collect_bytes f off w = le_word (map (\<lambda>i. f (off + of_nat i)) [0..<w div 8])"
  unfolding collect_bytes_def by (rule foldl_le_word)

lemma collect_le_bytes:
  assumes "\<And>i. i < w div 8 \<Longrightarrow> f (off + of_nat i) = ucast (drop_bit (8 * i) v)"
    and "w div 8 * 8 \<le> 64"
  shows "collect_bytes f off w = take_bit (8 * (w div 8)) (v :: u64)"
proof -
  have "map (\<lambda>i. f (off + of_nat i)) [0..<w div 8] = le_bytes (w div 8) v"
    by (simp add: le_bytes_def assms(1))
  then show ?thesis by (simp add: collect_bytes_eq le_word_le_bytes)
qed

lemma reg_byte_nat:
  assumes "unat off = k + i"
  shows "k = 0x14 \<Longrightarrow> i < 4 \<Longrightarrow> reg_byte c off = byte_of (ucast (ctl_cc c)) i"
    and "k = 0x0c \<Longrightarrow> i < 4 \<Longrightarrow> reg_byte c off = byte_of (ucast (ctl_mask c)) i"
    and "k = 0x10 \<Longrightarrow> i < 4 \<Longrightarrow> reg_byte c off = byte_of (ucast (ctl_mask c)) i"
    and "k = 0x1c \<Longrightarrow> i < 4 \<Longrightarrow> reg_byte c off = byte_of (ucast (ctl_csts c)) i"
    and "k = 0x24 \<Longrightarrow> i < 4 \<Longrightarrow> reg_byte c off = byte_of (ucast (ctl_aqa c)) i"
    and "k = 0x28 \<Longrightarrow> i < 8 \<Longrightarrow> reg_byte c off = byte_of (ctl_asq c) i"
    and "k = 0x30 \<Longrightarrow> i < 8 \<Longrightarrow> reg_byte c off = byte_of (ctl_acq c) i"
  using assms by (simp_all add: reg_byte_def word_less_nat_alt word_le_nat_alt)

lemma reg_off: "k < 2 ^ 16 \<Longrightarrow> i < 8 \<Longrightarrow> unat (word_of_nat k + word_of_nat i :: u32) = k + i"
  by (simp add: unat_of_nat_small flip: of_nat_add)

lemma reg_read_field:
  assumes "fits (word_of_nat k) w 0x4000" and "k < 2 ^ 16" and "w \<le> 64"
    and "\<And>i. i < w div 8 \<Longrightarrow> reg_byte c (word_of_nat k + word_of_nat i) = byte_of v i"
  shows "nwoas_reg_read c (word_of_nat k) w (Some x) = (NWOAS_HANDLED, Some (take_bit (8 * (w div 8)) v))"
proof -
  have "collect_bytes (reg_byte c) (word_of_nat k) w = take_bit (8 * (w div 8)) v"
    using assms(3,4) by (intro collect_le_bytes) (simp_all add: byte_of_def)
  then show ?thesis using assms(1) by (simp add: nwoas_reg_read_def)
qed

lemma reg_off_numeral:
  "(numeral k :: nat) < 2 ^ 16 \<Longrightarrow> i < 8 \<Longrightarrow> unat (numeral k + word_of_nat i :: u32) = numeral k + i"
  using reg_off [of "numeral k" i] by simp

lemma reg_bytes_at:
  "i < 4 \<Longrightarrow> reg_byte c (0x0c + word_of_nat i) = byte_of (ucast (ctl_mask c)) i"
  "i < 4 \<Longrightarrow> reg_byte c (0x10 + word_of_nat i) = byte_of (ucast (ctl_mask c)) i"
  "i < 4 \<Longrightarrow> reg_byte c (0x14 + word_of_nat i) = byte_of (ucast (ctl_cc c)) i"
  "i < 4 \<Longrightarrow> reg_byte c (0x1c + word_of_nat i) = byte_of (ucast (ctl_csts c)) i"
  "i < 4 \<Longrightarrow> reg_byte c (0x24 + word_of_nat i) = byte_of (ucast (ctl_aqa c)) i"
  "i < 8 \<Longrightarrow> reg_byte c (0x28 + word_of_nat i) = byte_of (ctl_asq c) i"
  "i < 8 \<Longrightarrow> reg_byte c (0x30 + word_of_nat i) = byte_of (ctl_acq c) i"
  by (simp_all add: reg_byte_nat(2) [OF reg_off_numeral] reg_byte_nat(3) [OF reg_off_numeral] reg_byte_nat(1) [OF reg_off_numeral] reg_byte_nat(4) [OF reg_off_numeral] reg_byte_nat(5) [OF reg_off_numeral] reg_byte_nat(6) [OF reg_off_numeral] reg_byte_nat(7) [OF reg_off_numeral])

lemma reg_read_at:
  "nwoas_reg_read c 0x0c 32 (Some x) = (NWOAS_HANDLED, Some (ucast (ctl_mask c)))"
  "nwoas_reg_read c 0x10 32 (Some x) = (NWOAS_HANDLED, Some (ucast (ctl_mask c)))"
  "nwoas_reg_read c 0x14 32 (Some x) = (NWOAS_HANDLED, Some (ucast (ctl_cc c)))"
  "nwoas_reg_read c 0x1c 32 (Some x) = (NWOAS_HANDLED, Some (ucast (ctl_csts c)))"
  "nwoas_reg_read c 0x24 32 (Some x) = (NWOAS_HANDLED, Some (ucast (ctl_aqa c)))"
  "nwoas_reg_read c 0x28 64 (Some x) = (NWOAS_HANDLED, Some (ctl_asq c))"
  "nwoas_reg_read c 0x30 64 (Some x) = (NWOAS_HANDLED, Some (ctl_acq c))"
proof -
  show "nwoas_reg_read c 0x0c 32 (Some x) = (NWOAS_HANDLED, Some (ucast (ctl_mask c)))"
    using reg_read_field [of "0x0c" 32 c "ucast (ctl_mask c)" x] by (simp add: reg_bytes_at fits_def width_ok_def take_bit_32_ucast take_bit_word_eq_self)
  show "nwoas_reg_read c 0x10 32 (Some x) = (NWOAS_HANDLED, Some (ucast (ctl_mask c)))"
    using reg_read_field [of "0x10" 32 c "ucast (ctl_mask c)" x] by (simp add: reg_bytes_at fits_def width_ok_def take_bit_32_ucast take_bit_word_eq_self)
  show "nwoas_reg_read c 0x14 32 (Some x) = (NWOAS_HANDLED, Some (ucast (ctl_cc c)))"
    using reg_read_field [of "0x14" 32 c "ucast (ctl_cc c)" x] by (simp add: reg_bytes_at fits_def width_ok_def take_bit_32_ucast take_bit_word_eq_self)
  show "nwoas_reg_read c 0x1c 32 (Some x) = (NWOAS_HANDLED, Some (ucast (ctl_csts c)))"
    using reg_read_field [of "0x1c" 32 c "ucast (ctl_csts c)" x] by (simp add: reg_bytes_at fits_def width_ok_def take_bit_32_ucast take_bit_word_eq_self)
  show "nwoas_reg_read c 0x24 32 (Some x) = (NWOAS_HANDLED, Some (ucast (ctl_aqa c)))"
    using reg_read_field [of "0x24" 32 c "ucast (ctl_aqa c)" x] by (simp add: reg_bytes_at fits_def width_ok_def take_bit_32_ucast take_bit_word_eq_self)
  show "nwoas_reg_read c 0x28 64 (Some x) = (NWOAS_HANDLED, Some (ctl_asq c))"
    using reg_read_field [of "0x28" 64 c "ctl_asq c" x] by (simp add: reg_bytes_at fits_def width_ok_def take_bit_32_ucast take_bit_word_eq_self)
  show "nwoas_reg_read c 0x30 64 (Some x) = (NWOAS_HANDLED, Some (ctl_acq c))"
    using reg_read_field [of "0x30" 64 c "ctl_acq c" x] by (simp add: reg_bytes_at fits_def width_ok_def take_bit_32_ucast take_bit_word_eq_self)
qed

section \<open>Callbacks that do not reenter\<close>

definition ctl_q_ok :: "u64 \<Rightarrow> u16 \<Rightarrow> u32 \<Rightarrow> bool" where
  "ctl_q_ok base depth stride \<longleftrightarrow>
     2 \<le> depth \<and> depth \<le> 256 \<and> base \<noteq> 0 \<and> base AND 4095 = 0 \<and> base \<le> -1 - ucast (ucast depth * stride :: u32)"

text \<open>
  The controller invariant: it is ready only while enabled, and then its admin queue registers
  hold page-aligned queues of 2 to 256 entries that do not wrap the address space; the PCI
  command register only holds the implemented bits.
\<close>

definition ctl_inv :: "nwoas_control \<Rightarrow> bool" where
  "ctl_inv c \<longleftrightarrow>
     (ctl_csts c AND 1 \<noteq> 0 \<longrightarrow>
        ctl_cc c AND 1 \<noteq> 0 \<and> ctl_q_ok (ctl_asq c) (ctl_sq_depth (ctl_aqa c)) 64 \<and>
        ctl_q_ok (ctl_acq c) (ctl_cq_depth (ctl_aqa c)) 16) \<and>
     ctl_command c AND NOT 0x407 = 0"

lemma ctl_queue_valid_ok: "ctl_queue_valid cb s base depth stride \<Longrightarrow> ctl_q_ok base depth stride"
  by (simp add: ctl_queue_valid_def ctl_q_ok_def Let_def)

lemma csts_bit0:
  "(x OR 2) AND 1 = (x AND 1 :: u32)" "((x AND NOT 12) OR 4) AND 1 = x AND 1"
  "((x AND NOT 12) OR 8) AND 1 = x AND 1"
  by (rule bit_word_eqI, simp add: bit_simps, fastforce)+

lemma or_2_set:
  fixes x :: u32
  assumes "x AND 2 \<noteq> 0"
  shows "x OR 2 = x"
proof -
  have "bit x 1" using assms and_exp_eq_0_iff_not_bit [of x 1] by simp
  then show ?thesis by (intro bit_word_eqI) (auto simp: bit_or_iff bit_2_iff)
qed

lemma width_mask_32_id:
  assumes "drop_bit 32 v = 0"
  shows "v AND width_mask 32 = v"
proof -
  have "width_mask 32 = mask 32" by (simp add: width_mask_def mask_eq_exp_minus_1)
  then show ?thesis using assms by (simp add: take_bit_eq_self_iff_drop_bit_eq_0 flip: take_bit_eq_mask)
qed

lemma ctl_enable_bad_cc:
  assumes "drop_bit 7 v AND 15 \<noteq> 0 \<or> drop_bit 4 v AND 7 \<noteq> 0 \<or> drop_bit 16 v AND 15 \<noteq> 6 \<or> drop_bit 20 v AND 15 \<noteq> 4"
  shows "ctl_enable cb v s = (False, s)"
  unfolding ctl_enable_def Let_def using assms by auto

lemma ctl_inv_frame [simp]:
  "ctl_inv (c\<lparr>ctl_mask := m\<rparr>) = ctl_inv c" "ctl_inv (c\<lparr>ctl_pending := p\<rparr>) = ctl_inv c"
  "ctl_inv (c\<lparr>ctl_probe_low := b\<rparr>) = ctl_inv c" "ctl_inv (c\<lparr>ctl_probe_high := b\<rparr>) = ctl_inv c"
  by (simp_all add: ctl_inv_def)

lemma ctl_inv_command: "ctl_inv c \<Longrightarrow> ctl_inv (c\<lparr>ctl_command := x AND 0x407\<rparr>)"
  using and_mask_not [of x "0x407"] by (simp add: ctl_inv_def)

lemma ctl_inv_csts: "ctl_inv c \<Longrightarrow> x AND 1 = ctl_csts c AND 1 \<Longrightarrow> ctl_inv (c\<lparr>ctl_csts := x\<rparr>)"
  by (simp add: ctl_inv_def)

lemma ctl_inv_disabled:
  assumes "ctl_inv c" and "ctl_cc c AND 1 = 0"
  shows "ctl_inv (c\<lparr>ctl_aqa := a\<rparr>)" "ctl_inv (c\<lparr>ctl_asq := b\<rparr>)" "ctl_inv (c\<lparr>ctl_acq := b\<rparr>)"
  using assms by (auto simp: ctl_inv_def)

text \<open>
  The contract the header states for the callbacks: they do not reenter the controller.  \<open>quiet\<close>
  is the condition on the environment under which the owner invokes the model; \<open>linked\<close> is what a
  successful setup establishes about the queues it was given, and the other callbacks keep.
\<close>

locale control_callbacks =
  fixes cb :: "'e nwoas_callbacks" and quiet :: "'e \<Rightarrow> bool"
    and linked :: "u64 \<Rightarrow> u16 \<Rightarrow> u64 \<Rightarrow> u16 \<Rightarrow> 'e \<Rightarrow> bool"
  assumes reset_frame: "ccb_reset cb = Some fr \<Longrightarrow> quiet (snd s) \<Longrightarrow> fst (fr s) = fst s \<and> quiet (snd (fr s))"
    and setup_frame: "ccb_setup cb = Some fs \<Longrightarrow> quiet (snd s) \<Longrightarrow> fs a na b nb s = (ok, s') \<Longrightarrow>
       fst s' = fst s \<and> quiet (snd s') \<and> (ok \<longrightarrow> linked a na b nb (snd s'))"
    and flush_frame: "ccb_flush cb = Some ff \<Longrightarrow> quiet (snd s) \<Longrightarrow> ff s = (ok, s') \<Longrightarrow>
       fst s' = fst s \<and> quiet (snd s') \<and> (linked a na b nb (snd s) \<longrightarrow> linked a na b nb (snd s'))"
    and irq_frame: "ccb_irq cb = Some fi \<Longrightarrow> quiet (snd s) \<Longrightarrow>
       fst (fi l s) = fst s \<and> quiet (snd (fi l s)) \<and>
       (linked a na b nb (snd s) \<longrightarrow> linked a na b nb (snd (fi l s)))"
begin

definition linv :: "'e ctl_state \<Rightarrow> bool" where
  "linv s \<longleftrightarrow> quiet (snd s) \<and> ctl_inv (fst s) \<and>
     (ctl_csts (fst s) AND 1 \<noteq> 0 \<longrightarrow>
        linked (ctl_asq (fst s)) (ctl_sq_depth (ctl_aqa (fst s)))
               (ctl_acq (fst s)) (ctl_cq_depth (ctl_aqa (fst s))) (snd s))"

lemma irq_update_frame:
  "quiet (snd s) \<Longrightarrow> fst (ctl_irq_update cb s) = fst s \<and> quiet (snd (ctl_irq_update cb s)) \<and>
     (linked a na b nb (snd s) \<longrightarrow> linked a na b nb (snd (ctl_irq_update cb s)))"
  by (simp add: ctl_irq_update_def irq_frame split: option.splits)

lemma irq_update_inv: "linv s \<Longrightarrow> linv (ctl_irq_update cb s)"
  using irq_update_frame by (simp add: linv_def)

lemma queues_reset_frame:
  assumes "quiet (snd s)"
  shows "fst (ctl_queues_reset cb s) = (fst s)\<lparr>ctl_pending := False\<rparr> \<and> quiet (snd (ctl_queues_reset cb s))"
  using assms reset_frame [of _ "apfst (ctl_pending_update (\<lambda>_. False)) s"]
  by (simp add: ctl_queues_reset_def Let_def split: option.splits)

lemma fatal_inv:
  assumes "linv s"
  shows "linv (ctl_fatal cb s)"
proof -
  define s1 where "s1 = apfst (ctl_csts_update (\<lambda>x. x OR 2)) s"
  have "linv s1" using assms by (simp add: s1_def linv_def ctl_inv_def csts_bit0)
  then show ?thesis
    using irq_frame [of _ s1] by (auto simp: ctl_fatal_def linv_def s1_def [symmetric] split: option.splits)
qed

lemma csts_update_inv:
  assumes "linv s" and "\<And>x. f x AND 1 = x AND 1"
  shows "linv (apfst (ctl_csts_update f) s)"
  using assms by (simp add: linv_def ctl_inv_def)

lemma shutdown_inv:
  assumes "linv s" and "ctl_shutdown cb v s = (a, s')"
  shows "linv s'"
proof (cases "drop_bit 14 v AND 3 \<noteq> 0 \<and> ctl_csts (fst s) AND 2 = 0 \<and> ctl_csts (fst s) AND 12 \<noteq> 8")
  case False
  then show ?thesis using assms by (auto simp: ctl_shutdown_def)
next
  case True
  define s1 where "s1 = apfst (ctl_csts_update (\<lambda>x. (x AND NOT 12) OR 4)) s"
  have i1: "linv s1" unfolding s1_def by (rule csts_update_inv [OF assms(1)]) (rule csts_bit0)
  then have q1: "quiet (snd s1)" by (simp add: linv_def)
  obtain ok s2 where 2: "(case ccb_flush cb of None \<Rightarrow> (False, s1) | Some f \<Rightarrow> f s1) = (ok, s2)"
    by (metis surj_pair)
  have i2: "linv s2"
    using 2 i1 flush_frame [OF _ q1] by (auto simp: linv_def split: option.splits)
  have "s' = (if ok then apfst (ctl_csts_update (\<lambda>x. (x AND NOT 12) OR 8)) s2 else ctl_fatal cb s2)"
    using assms(2) unfolding ctl_shutdown_def if_P [OF True] Let_def s1_def [symmetric] 2 prod.case
    by (simp split: if_splits)
  then show ?thesis
    using csts_update_inv [OF i2 csts_bit0(3)] fatal_inv [OF i2] by (cases ok) simp_all
qed

lemma enable_inv:
  assumes "linv s" and "ctl_cc (fst s) AND 1 \<noteq> 0"
    and "ctl_csts (fst s) AND 1 = 0" and "ctl_enable cb v s = (ok, s')"
  shows "linv s'"
proof (cases "ccb_setup cb")
  case None
  then show ?thesis using assms by (auto simp: ctl_enable_def Let_def split: if_splits)
next
  case (Some f)
  have q: "quiet (snd s)" "ctl_inv (fst s)" using assms(1) by (simp_all add: linv_def)
  obtain ok1 s1 where 1: "f (ctl_asq (fst s)) (ctl_sq_depth (ctl_aqa (fst s))) (ctl_acq (fst s))
      (ctl_cq_depth (ctl_aqa (fst s))) s = (ok1, s1)" by (metis surj_pair)
  note f1 = setup_frame [OF Some q(1) 1]
  show ?thesis
    using assms Some 1 f1 q
    by (auto simp: ctl_enable_def Let_def linv_def ctl_inv_def dest!: ctl_queue_valid_ok split: if_splits)
qed

lemma write_cc_inv:
  assumes "linv s" and "ctl_write_cc cb v s = (a, s')"
  shows "linv s'"
proof -
  define s1 where "s1 = apfst (ctl_cc_update (\<lambda>_. ucast v)) s"
  have s1: "quiet (snd s1)" "ctl_cc (fst s1) = ucast v" "ctl_csts (fst s1) = ctl_csts (fst s)"
    using assms(1) by (simp_all add: s1_def linv_def)
  consider (off) "v AND 1 = 0" | (on) "v AND 1 \<noteq> 0" "ctl_cc (fst s) AND 1 = 0"
    | (keep) "v AND 1 \<noteq> 0" "ctl_cc (fst s) AND 1 \<noteq> 0" by blast
  then show ?thesis
  proof cases
    case off
    define s2 where "s2 = apfst (ctl_csts_update (\<lambda>_. 0)) (ctl_queues_reset cb s1)"
    have "linv s2"
      using queues_reset_frame [OF s1(1)] assms(1) by (simp add: s2_def linv_def ctl_inv_def s1_def)
    moreover have "ctl_shutdown cb v (ctl_irq_update cb s2) = (a, s')"
      using assms(2) off by (simp add: ctl_write_cc_def s2_def s1_def)
    ultimately show ?thesis using shutdown_inv [OF irq_update_inv] by blast
  next
    case on
    have b: "ctl_csts (fst s1) AND 1 = 0" using on assms(1) s1(3) by (auto simp: linv_def ctl_inv_def)
    then have i1: "linv s1" using assms(1) by (simp add: linv_def ctl_inv_def s1_def)
    have e: "ctl_cc (fst s1) AND 1 \<noteq> 0" using on s1(2) by (simp add: and_1_ucast)
    obtain ok s2 where 2: "ctl_enable cb v s1 = (ok, s2)" by (metis surj_pair)
    note i2 = enable_inv [OF i1 e b 2]
    have "(a, s') = (if ok then ctl_shutdown cb v s2 else (NWOAS_HANDLED, ctl_fatal cb s2))"
      using assms(2) on unfolding ctl_write_cc_def Let_def s1_def [symmetric] 2 by (simp split: bool.splits)
    then show ?thesis
      using fatal_inv [OF i2] shutdown_inv [OF i2, of v a s'] by (simp split: if_splits)
  next
    case keep
    have i1: "linv s1" using keep assms(1) by (auto simp: linv_def ctl_inv_def s1_def and_1_ucast)
    have "ctl_shutdown cb v s1 = (a, s')"
      using assms(2) keep unfolding ctl_write_cc_def Let_def s1_def [symmetric] by simp
    then show ?thesis by (rule shutdown_inv [OF i1])
  qed
qed

lemma linv_disabled:
  assumes "linv s" and "ctl_cc (fst s) AND 1 = 0"
  shows "linv (apfst (ctl_aqa_update f) s)" "linv (apfst (ctl_asq_update g) s)" "linv (apfst (ctl_acq_update g) s)"
  using assms by (auto simp: linv_def ctl_inv_def)

lemma reg_write_inv:
  assumes "linv s" and "nwoas_reg_write cb off w v s = (a, s')"
  shows "linv s'"
proof (cases "off = 0x14")
  case True
  then have "s' = s \<or> ctl_write_cc cb (v AND width_mask w) s = (a, s')"
    using assms(2) unfolding nwoas_reg_write_def Let_def by (simp split: if_splits)
  then show ?thesis using assms(1) write_cc_inv [OF assms(1)] by blast
next
  case False
  have i: "linv (ctl_irq_update cb (apfst (ctl_mask_update m) s))" for m
    using assms(1) by (intro irq_update_inv) (simp add: linv_def ctl_inv_def)
  show ?thesis
    using False assms i linv_disabled [OF assms(1)] unfolding nwoas_reg_write_def Let_def
    by (auto split: if_splits)
qed

lemma pci_write_inv:
  assumes "linv s" and "nwoas_pci_write cb off w v s = (a, s')"
  shows "linv s'"
proof -
  have i: "linv (ctl_irq_update cb (apfst (ctl_command_update (\<lambda>_. x AND 0x407)) s))" for x
    using assms(1) ctl_inv_command [of "fst s" x] by (intro irq_update_inv) (simp add: linv_def)
  have p: "linv (apfst (ctl_probe_low_update f) s)" "linv (apfst (ctl_probe_high_update f) s)" for f
    using assms(1) by (simp_all add: linv_def ctl_inv_def)
  show ?thesis
    using assms i p unfolding nwoas_pci_write_def Let_def by (auto split: if_splits)
qed

lemma control_pending_inv: "linv s \<Longrightarrow> linv (nwoas_control_pending cb p s)"
  unfolding nwoas_control_pending_def by (rule irq_update_inv) (simp add: linv_def ctl_inv_def)

lemma control_reset_inv:
  assumes "quiet (snd s)" and "ctl_command (fst s) AND NOT 0x407 = 0"
  shows "linv (nwoas_control_reset cb s)"
proof -
  define s1 where "s1 = apfst (\<lambda>c. c\<lparr>ctl_cc := 0, ctl_csts := 0, ctl_aqa := 0, ctl_mask := 0,
                            ctl_asq := 0, ctl_acq := 0\<rparr>) s"
  have "quiet (snd s1)" using assms(1) by (simp add: s1_def)
  note q = queues_reset_frame [OF this]
  have "linv (ctl_queues_reset cb s1)" using q assms(2) by (simp add: s1_def linv_def ctl_inv_def)
  then show ?thesis unfolding nwoas_control_reset_def s1_def by (simp add: irq_update_inv)
qed

end

end
