(* ===== verification/Admin_Payload.thy ===== *)
theory Admin_Payload
  imports Nwoas_Prelude
begin

text \<open>
  Construction of Identify and Get Log Page responses, \<^verbatim>\<open>native-s225/admin_payload.c\<close>.  The output
  buffer is a byte list whose length is the capacity the caller passes; it is handed back with
  the stores the code performed.
\<close>

record nwoas_identity_policy =
  pol_primary_lbas :: u64
  pol_link_lbas :: u64
  pol_mdts :: u8
  pol_paired :: bool
  pol_primary_readonly :: bool
  pol_volatile_cache :: bool

record nwoas_admin_payload_result =
  pay_status :: u16
  pay_bytes :: u32

section \<open>Byte helpers\<close>

definition le32 :: "bytes \<Rightarrow> u32" where
  "le32 p = ucast (p ! 0) OR push_bit 8 (ucast (p ! 1)) OR push_bit 16 (ucast (p ! 2))
              OR push_bit 24 (ucast (p ! 3))"

definition le64 :: "bytes \<Rightarrow> u64" where
  "le64 p = ucast (le32 p) OR push_bit 32 (ucast (le32 (drop 4 p)))"

text \<open>The stores take the buffer and the offset of the pointer in it.\<close>

fun put_le :: "bytes \<Rightarrow> nat \<Rightarrow> u64 \<Rightarrow> nat \<Rightarrow> bytes" where
  "put_le out off v 0 = out"
| "put_le out off v (Suc n) = (put_le out off v n)[off + n := ucast (drop_bit (n * 8) v)]"

fun zero_bytes :: "bytes \<Rightarrow> nat \<Rightarrow> bytes" where
  "zero_bytes out 0 = out"
| "zero_bytes out (Suc n) = (zero_bytes out n)[n := 0]"

fun put_text :: "bytes \<Rightarrow> nat \<Rightarrow> string \<Rightarrow> nat \<Rightarrow> bytes" where
  "put_text out off s 0 = out"
| "put_text out off [] (Suc n) = put_text (out[off := 0x20]) (Suc off) [] n"
| "put_text out off (c # cs) (Suc n) = put_text (out[off := of_char c]) (Suc off) cs n"

section \<open>The response builder\<close>

definition policy_valid :: "nwoas_identity_policy \<Rightarrow> bool" where
  "policy_valid p \<longleftrightarrow>
     pol_primary_lbas p \<noteq> 0 \<and> \<not> pol_primary_lbas p \<ge> push_bit 40 1 \<and> \<not> pol_mdts p > 8 \<and>
     \<not> (pol_paired p \<and> (pol_link_lbas p = 0 \<or> pol_link_lbas p \<ge> push_bit 40 1))"

definition identify_namespace :: "nwoas_identity_policy \<Rightarrow> u32 \<Rightarrow> bytes \<Rightarrow> bytes" where
  "identify_namespace p nsid out =
     (let lbas = (if nsid = 1 then pol_primary_lbas p else pol_link_lbas p);
          b1 = put_le (put_le (put_le (zero_bytes out 4096) 0 lbas 8) 8 lbas 8) 16 lbas 8
      in b1[130 := 12, 99 := (if nsid = 1 \<and> pol_primary_readonly p then 1 else 0)])"

definition identify_controller :: "nwoas_identity_policy \<Rightarrow> bytes \<Rightarrow> bytes" where
  "identify_controller p out =
     (let b1 = put_le (put_le (zero_bytes out 4096) 0 0x1234 2) 2 0x1234 2;
          b2 = put_text b1 4 ''NWOAS-RO-00000000001'' 20;
          b3 = put_text (put_text b2 24 ''NWOAS ANS2 READ ONLY BRIDGE'' 40) 64 ''S92'' 8;
          b4 = put_le (put_le (b3[77 := pol_mdts p]) 78 1 2) 80 0x10300 4;
          b5 = put_le (b4[512 := 0x66, 513 := 0x44]) 516 (if pol_paired p then 2 else 1) 4
      in b5[525 := (if pol_volatile_cache p then 1 else 0)])"

definition identify_list :: "nwoas_identity_policy \<Rightarrow> u32 \<Rightarrow> bytes \<Rightarrow> bytes" where
  "identify_list p nsid out =
     (let b0 = zero_bytes out 4096;
          (b1, i) = (if nsid < 1 then (put_le b0 0 1 4, 1) else (b0, 0 :: nat))
      in if pol_paired p \<and> nsid < 2 then put_le b1 (4 * i) 2 4 else b1)"

definition log_page :: "u32 \<Rightarrow> nat \<Rightarrow> bytes \<Rightarrow> bytes" where
  "log_page lid bytes out =
     (let b0 = zero_bytes out bytes;
          b1 = (if lid = 2 then (put_le b0 1 300 2)[3 := 100] else b0)
      in if lid = 3 \<and> bytes \<ge> 16 then put_text (b1[0 := 1]) 8 ''S93'' 8 else b1)"

definition nwoas_admin_payload ::
  "bytes option \<Rightarrow> nwoas_identity_policy option \<Rightarrow> bytes option \<Rightarrow> nwoas_admin_payload_result option
     \<Rightarrow> int \<times> bytes option \<times> nwoas_admin_payload_result option" where
  "nwoas_admin_payload cmd policy out r =
     (case r of
        None \<Rightarrow> (-1, out, None)
      | Some _ \<Rightarrow>
        (let r0 = \<lparr>pay_status = 2, pay_bytes = 0\<rparr> in
         case (cmd, policy, out) of
           (Some c, Some p, Some b) \<Rightarrow>
             if length c \<noteq> 64 \<or> length b < 4096 \<or> \<not> policy_valid p then (-1, out, Some r0)
             else if c ! 0 \<noteq> 6 \<and> c ! 0 \<noteq> 2 then (0, out, Some r0)
             else if c ! 1 \<noteq> 0 \<or> le64 (drop 16 c) \<noteq> 0 then (1, out, Some r0)
             else
               let nsid = le32 (drop 4 c);
                   dw = (\<lambda>i. le32 (drop (40 + i * 4) c))
               in if c ! 0 = 6
                  then
                    (if drop_bit 8 (dw 0) \<noteq> 0 \<or> dw 1 \<noteq> 0 \<or> dw 2 \<noteq> 0 \<or> dw 3 \<noteq> 0 \<or> dw 4 \<noteq> 0 \<or> dw 5 \<noteq> 0
                     then (1, out, Some r0)
                     else
                       let cns = dw 0 AND 255
                       in if cns = 0
                          then (if nsid \<noteq> 1 \<and> \<not> (pol_paired p \<and> nsid = 2)
                                then (1, out, Some (r0\<lparr>pay_status := 0xb\<rparr>))
                                else (1, Some (identify_namespace p nsid b),
                                      Some \<lparr>pay_status = 0, pay_bytes = 4096\<rparr>))
                          else if cns = 1
                          then (if nsid \<noteq> 0 \<and> nsid \<noteq> 0xffffffff
                                then (1, out, Some (r0\<lparr>pay_status := 0xb\<rparr>))
                                else (1, Some (identify_controller p b),
                                      Some \<lparr>pay_status = 0, pay_bytes = 4096\<rparr>))
                          else if cns = 2
                          then (1, Some (identify_list p nsid b), Some \<lparr>pay_status = 0, pay_bytes = 4096\<rparr>)
                          else (1, out, Some r0))
                  else
                    let lid = dw 0 AND 255;
                        numd = ucast (drop_bit 16 (dw 0)) OR push_bit 16 (ucast (dw 1 AND 0xffff)) :: u64;
                        bytes = (numd + 1) * 4
                    in if (lid \<noteq> 1 \<and> lid \<noteq> 2 \<and> lid \<noteq> 3) \<or> bytes > 4096 \<or> dw 2 \<noteq> 0 \<or> dw 3 \<noteq> 0
                       then (1, out, Some r0)
                       else (1, Some (log_page lid (unat bytes) b),
                             Some \<lparr>pay_status = 0, pay_bytes = ucast bytes\<rparr>)
         | _ \<Rightarrow> (-1, out, Some r0)))"

section \<open>The stores\<close>

lemma length_put_le [simp]: "length (put_le out off v n) = length out"
  by (induction n) simp_all

lemma length_zero_bytes [simp]: "length (zero_bytes out n) = length out"
  by (induction n) simp_all

lemma length_put_text [simp]: "length (put_text out off s n) = length out"
  by (induction out off s n rule: put_text.induct) simp_all

lemma nth_put_le:
  "off + n \<le> length out \<Longrightarrow>
     put_le out off v n ! i =
       (if off \<le> i \<and> i < off + n then ucast (drop_bit (8 * (i - off)) v) else out ! i)"
  by (induction n) (auto simp: nth_list_update mult.commute)

lemma nth_zero_bytes:
  "n \<le> length out \<Longrightarrow> zero_bytes out n ! i = (if i < n then 0 else out ! i)"
  by (induction n) (auto simp: nth_list_update less_Suc_eq)

lemma nth_put_text:
  "off + n \<le> length out \<Longrightarrow>
     put_text out off s n ! i =
       (if off \<le> i \<and> i < off + n
        then (if i - off < length s then of_char (s ! (i - off)) else 0x20) else out ! i)"
proof (induction out off s n rule: put_text.induct)
  case (2 out off n)
  then show ?case by (auto simp: nth_list_update)
next
  case (3 out off c cs n)
  have "i - off = Suc (i - Suc off)" if "off < i" using that by simp
  then show ?case using 3 by (auto simp: nth_list_update nth_Cons split: nat.splits)
qed auto

lemmas store_nth = nth_put_le nth_zero_bytes nth_put_text nth_list_update

lemma le32_eq: "4 \<le> length p \<Longrightarrow> le32 p = le_word (take 4 p)"
  unfolding le32_def by (rule le_word_4)

interpretation pay_le32: le_reader le32 4
  by unfold_locales (simp_all add: le32_eq)

interpretation pay_le64: le_reader le64 8
  by unfold_locales (simp_all add: le64_def pay_le32.rd_eq le_word_8)

section \<open>The buffers\<close>

lemma identify_namespace_nth:
  assumes "4096 \<le> length out"
  shows "identify_namespace p nsid out ! i =
    (let lbas = (if nsid = 1 then pol_primary_lbas p else pol_link_lbas p)
     in if i < 24 then ucast (drop_bit (8 * (i mod 8)) lbas)
        else if i = 99 then (if nsid = 1 \<and> pol_primary_readonly p then 1 else 0)
        else if i = 130 then 12
        else if i < 4096 then 0 else out ! i)"
proof -
  have m: "8 \<le> i \<Longrightarrow> i < 16 \<Longrightarrow> i mod 8 = i - 8" "16 \<le> i \<Longrightarrow> i < 24 \<Longrightarrow> i mod 8 = i - 16"
    by (auto simp: mod_if)
  show ?thesis
    using assms m
    by (auto simp: identify_namespace_def Let_def nth_list_update nth_put_le nth_zero_bytes)
qed

lemma identify_controller_nth:
  assumes "4096 \<le> length out" and "i < 4096" and "i \<notin> {4..<72}"
  shows "identify_controller p out ! i =
    (if i < 4 then ucast (drop_bit (8 * (i mod 2)) (0x1234 :: u64))
     else if i = 77 then pol_mdts p
     else if 78 \<le> i \<and> i < 80 then ucast (drop_bit (8 * (i - 78)) (1 :: u64))
     else if 80 \<le> i \<and> i < 84 then ucast (drop_bit (8 * (i - 80)) (0x10300 :: u64))
     else if i = 512 then 0x66 else if i = 513 then 0x44
     else if 516 \<le> i \<and> i < 520 then ucast (drop_bit (8 * (i - 516)) (if pol_paired p then 2 else 1 :: u64))
     else if i = 525 then (if pol_volatile_cache p then 1 else 0) else 0)"
proof -
  have m: "i < 2 \<Longrightarrow> i mod 2 = i" "2 \<le> i \<Longrightarrow> i < 4 \<Longrightarrow> i mod 2 = i - 2" by (auto simp: mod_if)
  show ?thesis
    using assms m
    by (auto simp: identify_controller_def Let_def nth_list_update nth_put_le nth_zero_bytes nth_put_text)
qed

lemma identify_controller_frame:
  "4096 \<le> length out \<Longrightarrow> 4096 \<le> i \<Longrightarrow> identify_controller p out ! i = out ! i"
  by (simp add: identify_controller_def Let_def nth_list_update nth_put_le nth_zero_bytes nth_put_text)

lemma identify_list_frame:
  "4096 \<le> length out \<Longrightarrow> 4096 \<le> i \<Longrightarrow> identify_list p nsid out ! i = out ! i"
  by (auto simp: identify_list_def Let_def nth_put_le nth_zero_bytes)

lemma log_page_frame:
  "n \<le> length out \<Longrightarrow> 4 \<le> n \<Longrightarrow> n \<le> i \<Longrightarrow> log_page lid n out ! i = out ! i"
  by (auto simp: log_page_def Let_def nth_list_update nth_put_le nth_zero_bytes nth_put_text)

lemma payload_lengths [simp]:
  "length (identify_namespace p nsid out) = length out" "length (identify_controller p out) = length out"
  "length (identify_list p nsid out) = length out" "length (log_page lid n out) = length out"
  by (simp_all add: identify_namespace_def identify_controller_def identify_list_def log_page_def Let_def)


lemma log_bytes_small:
  fixes x y :: u32
  defines "numd \<equiv> ucast (drop_bit 16 x) OR push_bit 16 (ucast (y AND 0xffff)) :: u64"
  shows "unat ((numd + 1) * 4) = (unat numd + 1) * 4"
proof -
  have "numd = take_bit 32 numd"
  proof (rule bit_word_eqI)
    fix k :: nat assume "k < LENGTH(64)"
    have m: "(0xffff :: u32) = mask 16" by (simp add: mask_eq_exp_minus_1)
    have "bit numd k \<Longrightarrow> k < 32"
      unfolding numd_def m by (auto simp: bit_simps dest: bit_imp_le_length)
    then show "bit numd k = bit (take_bit 32 numd) k" by (auto simp: bit_simps)
  qed
  then have "unat numd < 2 ^ 32"
    by (metis take_bit_nat_less_exp unsigned_take_bit_eq)
  then show ?thesis by (simp add: unat_mult_small unat_add_small)
qed

definition payload_ok :: "bytes \<Rightarrow> bytes \<Rightarrow> nwoas_admin_payload_result \<Rightarrow> bool" where
  "payload_ok b b' r \<longleftrightarrow> length b' = length b \<and> unat (pay_bytes r) \<le> 4096 \<and> 4 dvd unat (pay_bytes r) \<and>
     drop (unat (pay_bytes r)) b' = drop (unat (pay_bytes r)) b \<and> (pay_status r \<noteq> 0 \<longrightarrow> pay_bytes r = 0)"

lemma drop_eq_frame:
  "length b' = length b \<Longrightarrow> (\<And>i. n \<le> i \<Longrightarrow> b' ! i = b ! i) \<Longrightarrow> drop n b' = drop n b"
  by (rule nth_equalityI) simp_all

lemma payload_frame:
  assumes "nwoas_admin_payload (Some c) (Some p) (Some b) (Some r0) = (rc, b', r)"
  shows "\<exists>b1 r1. b' = Some b1 \<and> r = Some r1 \<and> payload_ok b b1 r1 \<and> rc \<in> {-1, 0, 1} \<and> (rc \<noteq> 1 \<longrightarrow> b1 = b)"
proof -
  have same: "payload_ok b b \<lparr>pay_status = st, pay_bytes = 0\<rparr>" for st by (simp add: payload_ok_def)
  have full: "payload_ok b x \<lparr>pay_status = 0, pay_bytes = 4096\<rparr>"
    if "length x = length b" "\<And>i. 4096 \<le> i \<Longrightarrow> x ! i = b ! i" for x
    using that drop_eq_frame [of x b 4096] by (simp add: payload_ok_def)
  have log: "payload_ok b (log_page lid (unat n) b) \<lparr>pay_status = 0, pay_bytes = ucast n\<rparr>"
    if n: "n = (numd + 1) * 4" "n \<le> 4096" "4096 \<le> length b"
      "numd = ucast (drop_bit 16 x) OR push_bit 16 (ucast (y AND 0xffff))" for n numd :: u64 and x y :: u32 and lid
  proof -
    have u: "unat n = (unat numd + 1) * 4" "unat n \<le> 4096"
      using n log_bytes_small [of x y] by (simp_all add: word_le_nat_alt)
    then have "unat (ucast n :: u32) = unat n" by (simp add: unat_ucast_small)
    moreover have "drop (unat n) (log_page lid (unat n) b) = drop (unat n) b"
      using u n(3) by (intro drop_eq_frame) (simp_all add: log_page_frame)
    ultimately show ?thesis using u by (simp add: payload_ok_def)
  qed
  show ?thesis
    using assms unfolding nwoas_admin_payload_def option.case prod.case Let_def
    by (auto simp: same full log identify_namespace_nth identify_controller_frame identify_list_frame
        not_less split: if_splits)
qed

end
