(* ===== verification/Admin_State.thy ===== *)
theory Admin_State
  imports Admin_Payload
begin

text \<open>
  The admin command state machine, \<^verbatim>\<open>native-s226/admin_state.c\<close>: the single I/O queue pair, the
  feature table, the held asynchronous event request and the execution of one admin command.
  The callbacks act on an environment \<open>'e\<close>.
\<close>

record nwoas_io_queue =
  ioq_base :: u64
  ioq_depth :: u16
  ioq_cqid :: u16
  ioq_present :: bool
  ioq_ien :: bool

record nwoas_admin_state =
  adm_sq :: nwoas_io_queue
  adm_cq :: nwoas_io_queue
  adm_features :: "u32 list"
  adm_sq_generation :: u64
  adm_cq_generation :: u64
  adm_aer_cid :: u16
  adm_aer_present :: bool

record 'e nwoas_admin_callbacks =
  acb_contains :: "('e \<Rightarrow> u64 \<Rightarrow> u32 \<Rightarrow> bool) option"
  acb_set_cache :: "(bool \<Rightarrow> 'e \<Rightarrow> bool \<times> 'e) option"
  acb_get_cache :: "('e \<Rightarrow> u32 \<times> 'e) option"

record nwoas_admin_result =
  ar_result :: u32
  ar_bytes :: u32
  ar_status :: u16
  ar_changed :: u8
  ar_deferred :: bool

section \<open>Reset\<close>

definition adm_get32 :: "bytes \<Rightarrow> u32" where
  "adm_get32 p = ucast (p ! 0) OR push_bit 8 (ucast (p ! 1)) OR push_bit 16 (ucast (p ! 2))
              OR push_bit 24 (ucast (p ! 3))"

definition adm_get64 :: "bytes \<Rightarrow> u64" where
  "adm_get64 p = ucast (adm_get32 p) OR push_bit 32 (ucast (adm_get32 (drop 4 p)))"

definition clear_queue :: nwoas_io_queue where
  "clear_queue = \<lparr>ioq_base = 0, ioq_depth = 0, ioq_cqid = 0, ioq_present = False, ioq_ien = False\<rparr>"

definition nwoas_admin_reset :: "nwoas_admin_state \<Rightarrow> bool \<Rightarrow> nwoas_admin_state" where
  "nwoas_admin_reset s full =
     (let s1 = (if ioq_present (adm_sq s) then s\<lparr>adm_sq_generation := adm_sq_generation s + 1\<rparr> else s);
          s2 = (if ioq_present (adm_cq s1) then s1\<lparr>adm_cq_generation := adm_cq_generation s1 + 1\<rparr> else s1);
          s3 = s2\<lparr>adm_sq := clear_queue, adm_cq := clear_queue, adm_aer_present := False,
                  adm_aer_cid := 0\<rparr>
      in if full then s3\<lparr>adm_features := (replicate 12 0)[6 := 1]\<rparr> else s3)"

definition nwoas_admin_init :: "nwoas_admin_state \<Rightarrow> nwoas_admin_state" where
  "nwoas_admin_init s =
     nwoas_admin_reset (s\<lparr>adm_sq := clear_queue, adm_cq := clear_queue, adm_sq_generation := 0,
                          adm_cq_generation := 0\<rparr>) True"

section \<open>Command handlers\<close>

text \<open>
  A handler returns the new state, the result and the environment; the result starts as
  \<open>ar_invalid\<close>, the Invalid Field status every early return of the C code leaves.
\<close>

definition ar_invalid :: nwoas_admin_result where
  "ar_invalid = \<lparr>ar_result = 0, ar_bytes = 0, ar_status = 2, ar_changed = 0, ar_deferred = False\<rparr>"

definition adm_queue_valid :: "'e nwoas_admin_callbacks \<Rightarrow> 'e \<Rightarrow> u64 \<Rightarrow> u32 \<Rightarrow> u32 \<Rightarrow> bool" where
  "adm_queue_valid cb e base depth stride =
     (if depth < 2 \<or> depth > 256 \<or> base = 0 \<or> base AND 4095 \<noteq> 0 \<or> acb_contains cb = None then False
      else let bytes = depth * stride
           in base \<le> -1 - ucast bytes \<and> the (acb_contains cb) e base bytes)"

definition admin_create ::
  "'e nwoas_admin_callbacks \<Rightarrow> nwoas_admin_state \<Rightarrow> bytes \<Rightarrow> 'e \<Rightarrow> nwoas_admin_state \<times> nwoas_admin_result" where
  "admin_create cb s cmd e =
     (let op = cmd ! 0;
          ns = adm_get32 (drop 4 cmd);
          dw0 = adm_get32 (drop 40 cmd);
          dw1 = adm_get32 (drop 44 cmd);
          qid = dw0 AND 65535;
          depth = drop_bit 16 dw0 + 1;
          base = adm_get64 (drop 24 cmd)
      in if ns \<noteq> 0 \<or> qid \<noteq> 1 \<or> dw1 AND 1 = 0 \<or>
            \<not> adm_queue_valid cb e base depth (if op = 5 then 16 else 64)
         then (s, ar_invalid)
         else if op = 5
         then (if ioq_present (adm_cq s) \<or> drop_bit 16 dw1 \<noteq> 0 then (s, ar_invalid)
               else (s\<lparr>adm_cq := \<lparr>ioq_base = base, ioq_depth = ucast depth, ioq_cqid = 0,
                                   ioq_present = True, ioq_ien = dw1 AND 2 \<noteq> 0\<rparr>,
                       adm_cq_generation := adm_cq_generation s + 1\<rparr>,
                     ar_invalid\<lparr>ar_changed := 2, ar_status := 0\<rparr>))
         else (if ioq_present (adm_sq s) \<or> drop_bit 16 dw1 \<noteq> 1 \<or> \<not> ioq_present (adm_cq s)
               then (s, ar_invalid)
               else (s\<lparr>adm_sq := \<lparr>ioq_base = base, ioq_depth = ucast depth, ioq_cqid = 1,
                                   ioq_present = True, ioq_ien = False\<rparr>,
                       adm_sq_generation := adm_sq_generation s + 1\<rparr>,
                     ar_invalid\<lparr>ar_changed := 1, ar_status := 0\<rparr>)))"

definition admin_delete ::
  "nwoas_admin_state \<Rightarrow> bytes \<Rightarrow> nwoas_admin_state \<times> nwoas_admin_result" where
  "admin_delete s cmd =
     (let op = cmd ! 0;
          dw0 = adm_get32 (drop 40 cmd)
      in if dw0 AND 65535 \<noteq> 1 then (s, ar_invalid)
         else if \<not> ioq_present (if op = 0 then adm_sq s else adm_cq s) then (s, ar_invalid)
         else if op = 4 \<and> ioq_present (adm_sq s) then (s, ar_invalid\<lparr>ar_status := 0x10c\<rparr>)
         else if op = 0
         then (s\<lparr>adm_sq := clear_queue, adm_sq_generation := adm_sq_generation s + 1\<rparr>,
               ar_invalid\<lparr>ar_changed := 1, ar_status := 0\<rparr>)
         else (s\<lparr>adm_cq := clear_queue, adm_cq_generation := adm_cq_generation s + 1\<rparr>,
               ar_invalid\<lparr>ar_changed := 2, ar_status := 0\<rparr>))"

definition admin_cache ::
  "'e nwoas_admin_callbacks \<Rightarrow> bytes \<Rightarrow> 'e \<Rightarrow> nwoas_admin_result \<times> 'e" where
  "admin_cache cb cmd e =
     (let op = cmd ! 0;
          dw = (\<lambda>i. adm_get32 (drop (40 + 4 * i) cmd));
          sel = drop_bit 8 (dw 0) AND 7
      in if dw 0 AND NOT 0x7ff \<noteq> 0 \<or> dw 2 \<noteq> 0 \<or> dw 3 \<noteq> 0 \<or> dw 4 \<noteq> 0 \<or> dw 5 \<noteq> 0 then (ar_invalid, e)
         else if op = 10 \<and> sel = 1 then (ar_invalid\<lparr>ar_status := 0, ar_result := 1\<rparr>, e)
         else if op = 10 \<and> sel = 3 then (ar_invalid\<lparr>ar_status := 0, ar_result := 4\<rparr>, e)
         else if op = 10 \<and> sel \<noteq> 0 then (ar_invalid, e)
         else if op = 9 \<and> (sel \<noteq> 0 \<or> dw 1 AND NOT 1 \<noteq> 0) then (ar_invalid, e)
         else if op = 9
         then (let (ok, e1) = the (acb_set_cache cb) (dw 1 \<noteq> 0) e
               in if \<not> ok then (ar_invalid\<lparr>ar_status := 6\<rparr>, e1)
                  else let (v, e2) = the (acb_get_cache cb) e1
                       in (ar_invalid\<lparr>ar_changed := 4, ar_status := 0, ar_result := v\<rparr>, e2))
         else (let (v, e1) = the (acb_get_cache cb) e
               in (ar_invalid\<lparr>ar_status := 0, ar_result := v\<rparr>, e1)))"

definition admin_feature ::
  "'e nwoas_admin_callbacks \<Rightarrow> nwoas_admin_state \<Rightarrow> bytes \<Rightarrow> 'e
     \<Rightarrow> nwoas_admin_state \<times> nwoas_admin_result \<times> 'e" where
  "admin_feature cb s cmd e =
     (let op = cmd ! 0;
          dw0 = adm_get32 (drop 40 cmd);
          dw1 = adm_get32 (drop 44 cmd);
          fid = unat (dw0 AND 255)
      in if fid = 7 then (s, ar_invalid\<lparr>ar_status := 0\<rparr>, e)
         else if fid \<notin> {1, 2, 4, 5, 6, 8, 9, 10, 11} then (s, ar_invalid, e)
         else if fid = 6 \<and> acb_set_cache cb \<noteq> None
         then (let (r, e1) = admin_cache cb cmd e in (s, r, e1))
         else let s1 = (if op = 9 then s\<lparr>adm_features := (adm_features s)[fid := dw1]\<rparr> else s)
              in (s1, ar_invalid\<lparr>ar_status := 0, ar_result := adm_features s1 ! fid\<rparr>, e))"

definition admin_aer :: "nwoas_admin_state \<Rightarrow> bytes \<Rightarrow> nwoas_admin_state \<times> nwoas_admin_result" where
  "admin_aer s cmd =
     (if adm_aer_present s then (s, ar_invalid\<lparr>ar_status := 0x105\<rparr>)
      else (s\<lparr>adm_aer_present := True,
              adm_aer_cid := ucast (cmd ! 2) OR push_bit 8 (ucast (cmd ! 3))\<rparr>,
            ar_invalid\<lparr>ar_status := 0, ar_deferred := True\<rparr>))"

text \<open>The opcode dispatch after the payload commands were recognised.\<close>

definition admin_dispatch ::
  "'e nwoas_admin_callbacks \<Rightarrow> nwoas_admin_state \<Rightarrow> bytes \<Rightarrow> 'e
     \<Rightarrow> nwoas_admin_state \<times> nwoas_admin_result \<times> 'e" where
  "admin_dispatch cb s cmd e =
     (let op = cmd ! 0
      in if op = 1 \<or> op = 5 then (let (s1, r) = admin_create cb s cmd e in (s1, r, e))
         else if op = 0 \<or> op = 4 then (let (s1, r) = admin_delete s cmd in (s1, r, e))
         else if op = 9 \<or> op = 10 then admin_feature cb s cmd e
         else if op = 12 then (let (s1, r) = admin_aer s cmd in (s1, r, e))
         else if op = 8 then (s, ar_invalid\<lparr>ar_status := 0, ar_result := 1\<rparr>, e)
         else (s, ar_invalid\<lparr>ar_status := 1\<rparr>, e))"

text \<open>
  The whole command: the return code, the state, the output buffer, the result and the
  environment.
\<close>

definition nwoas_admin_execute ::
  "nwoas_admin_state option \<Rightarrow> 'e nwoas_admin_callbacks option \<Rightarrow> nwoas_identity_policy option
     \<Rightarrow> bytes option \<Rightarrow> bytes option \<Rightarrow> nwoas_admin_result option \<Rightarrow> 'e
     \<Rightarrow> int \<times> nwoas_admin_state option \<times> bytes option \<times> nwoas_admin_result option \<times> 'e" where
  "nwoas_admin_execute s cb policy cmd out r e =
     (case r of
        None \<Rightarrow> (-1, s, out, None, e)
      | Some _ \<Rightarrow>
        (case (s, cb, policy, cmd, out) of
           (Some st, Some c, Some p, Some m, Some b) \<Rightarrow>
             if length m \<noteq> 64 \<or> length b < 4096 \<or>
                (acb_set_cache c \<noteq> None) \<noteq> (acb_get_cache c \<noteq> None)
             then (-1, s, out, Some ar_invalid, e)
             else
               (case nwoas_admin_payload cmd policy out (Some \<lparr>pay_status = 0, pay_bytes = 0\<rparr>) of
                  (handled, out1, pr) \<Rightarrow>
                    if handled < 0 then (-1, s, out1, Some ar_invalid, e)
                    else if m ! 1 \<noteq> 0 \<or> adm_get64 (drop 16 m) \<noteq> 0 then (1, s, out1, Some ar_invalid, e)
                    else if handled \<noteq> 0
                    then (1, s, out1, Some (ar_invalid\<lparr>ar_status := pay_status (the pr),
                                                      ar_bytes := pay_bytes (the pr)\<rparr>), e)
                    else (case admin_dispatch c st m e of
                            (st1, r1, e1) \<Rightarrow> (1, Some st1, out1, Some r1, e1)))
         | _ \<Rightarrow> (-1, s, out, Some ar_invalid, e)))"

lemma adm_get32_eq: "4 \<le> length p \<Longrightarrow> adm_get32 p = le_word (take 4 p)"
  unfolding adm_get32_def by (rule le_word_4)

interpretation adm_le32: le_reader adm_get32 4
  by unfold_locales (simp_all add: adm_get32_eq)

interpretation adm_le64: le_reader adm_get64 8
  by unfold_locales (simp_all add: adm_get64_def adm_get32_eq le_word_8)

section \<open>The state invariant\<close>

definition ioq_ok :: "u32 \<Rightarrow> nwoas_io_queue \<Rightarrow> bool" where
  "ioq_ok stride q \<longleftrightarrow>
     2 \<le> unat (ioq_depth q) \<and> unat (ioq_depth q) \<le> 256 \<and> ioq_base q \<noteq> 0 \<and> ioq_base q AND 4095 = 0 \<and>
     unat (ioq_base q) + unat (ioq_depth q) * unat stride < 2 ^ 64"

definition adm_inv :: "nwoas_admin_state \<Rightarrow> bool" where
  "adm_inv s \<longleftrightarrow>
     length (adm_features s) = 12 \<and>
     (ioq_present (adm_cq s) \<longrightarrow> ioq_ok 16 (adm_cq s)) \<and>
     (ioq_present (adm_sq s) \<longrightarrow> ioq_ok 64 (adm_sq s) \<and> ioq_cqid (adm_sq s) = 1 \<and> ioq_present (adm_cq s))"

text \<open>What a result says about the two queue descriptors.\<close>

definition adm_change_ok :: "nwoas_admin_state \<Rightarrow> nwoas_admin_state \<Rightarrow> nwoas_admin_result \<Rightarrow> bool" where
  "adm_change_ok s s' r \<longleftrightarrow>
     ar_changed r \<in> {0, 1, 2, 4} \<and>
     (if ar_changed r = 1
      then ioq_present (adm_sq s') \<noteq> ioq_present (adm_sq s) \<and> adm_sq_generation s' = adm_sq_generation s + 1
      else adm_sq s' = adm_sq s \<and> adm_sq_generation s' = adm_sq_generation s) \<and>
     (if ar_changed r = 2
      then ioq_present (adm_cq s') \<noteq> ioq_present (adm_cq s) \<and> adm_cq_generation s' = adm_cq_generation s + 1
      else adm_cq s' = adm_cq s \<and> adm_cq_generation s' = adm_cq_generation s) \<and>
     (ar_changed r \<noteq> 0 \<longrightarrow> ar_status r = 0) \<and> (ar_deferred r \<longrightarrow> adm_aer_present s' \<and> \<not> adm_aer_present s)"

lemma adm_reset_inv: "length (adm_features s) = 12 \<or> full \<Longrightarrow> adm_inv (nwoas_admin_reset s full)"
  by (auto simp: nwoas_admin_reset_def adm_inv_def clear_queue_def Let_def)

lemma adm_init_inv: "adm_inv (nwoas_admin_init s)"
  unfolding nwoas_admin_init_def by (rule adm_reset_inv) simp

lemma queue_valid_ok:
  assumes "adm_queue_valid cb e base depth stride" and "stride = 16 \<or> stride = 64"
  shows "ioq_ok stride \<lparr>ioq_base = base, ioq_depth = ucast depth, ioq_cqid = k, ioq_present = True, ioq_ien = b\<rparr>"
proof -
  have v: "2 \<le> unat depth" "unat depth \<le> 256" "base \<noteq> 0" "base AND 4095 = 0"
    "base \<le> -1 - ucast (depth * stride)"
    using assms(1) by (auto simp: adm_queue_valid_def Let_def word_less_nat_alt not_less split: if_splits)
  have "unat stride \<le> 64" using assms(2) by auto
  then have "unat depth * unat stride \<le> 256 * 64" using v(2) by (rule mult_le_mono [rotated])
  then have "unat (depth * stride) = unat depth * unat stride" by (simp add: unat_mult_small)
  then have "unat (ucast (depth * stride) :: u64) = unat depth * unat stride"
    using \<open>unat depth * unat stride \<le> 256 * 64\<close> by (simp add: unat_ucast_small)
  then have "unat base + unat depth * unat stride < 2 ^ 64"
    using v(5) by (simp only: word_le_max_minus) simp
  moreover have "unat (ucast depth :: u16) = unat depth" using v(2) by (simp add: unat_ucast_small)
  ultimately show ?thesis using v by (simp add: ioq_ok_def)
qed

lemma adm_unchanged: "adm_inv s \<Longrightarrow> ar_changed r = 0 \<Longrightarrow> \<not> ar_deferred r \<Longrightarrow> adm_inv s \<and> adm_change_ok s s r"
  by (simp add: adm_change_ok_def)

lemma ar_invalid_simps [simp]:
  "ar_changed ar_invalid = 0" "ar_deferred ar_invalid = False" "ar_bytes ar_invalid = 0"
  by (simp_all add: ar_invalid_def)

lemma admin_create_cases:
  assumes "admin_create cb s cmd e = (s', r)"
  obtains "s' = s" and "r = ar_invalid"
  | b d i where "\<not> ioq_present (adm_cq s)" and "adm_queue_valid cb e b d 16"
      and "s' = s\<lparr>adm_cq := \<lparr>ioq_base = b, ioq_depth = ucast d, ioq_cqid = 0, ioq_present = True, ioq_ien = i\<rparr>,
                  adm_cq_generation := adm_cq_generation s + 1\<rparr>"
      and "r = ar_invalid\<lparr>ar_changed := 2, ar_status := 0\<rparr>"
  | b d where "\<not> ioq_present (adm_sq s)" and "ioq_present (adm_cq s)" and "adm_queue_valid cb e b d 64"
      and "s' = s\<lparr>adm_sq := \<lparr>ioq_base = b, ioq_depth = ucast d, ioq_cqid = 1, ioq_present = True, ioq_ien = False\<rparr>,
                  adm_sq_generation := adm_sq_generation s + 1\<rparr>"
      and "r = ar_invalid\<lparr>ar_changed := 1, ar_status := 0\<rparr>"
proof -
  define b d i where "b = adm_get64 (drop 24 cmd)" and "d = drop_bit 16 (adm_get32 (drop 40 cmd)) + 1"
    and "i = (adm_get32 (drop 44 cmd) AND 2 \<noteq> 0)"
  have "(s' = s \<and> r = ar_invalid) \<or>
    (cmd ! 0 = 5 \<and> \<not> ioq_present (adm_cq s) \<and> adm_queue_valid cb e b d 16 \<and>
     s' = s\<lparr>adm_cq := \<lparr>ioq_base = b, ioq_depth = ucast d, ioq_cqid = 0, ioq_present = True, ioq_ien = i\<rparr>,
                  adm_cq_generation := adm_cq_generation s + 1\<rparr> \<and>
     r = ar_invalid\<lparr>ar_changed := 2, ar_status := 0\<rparr>) \<or>
    (cmd ! 0 \<noteq> 5 \<and> \<not> ioq_present (adm_sq s) \<and> ioq_present (adm_cq s) \<and> adm_queue_valid cb e b d 64 \<and>
     s' = s\<lparr>adm_sq := \<lparr>ioq_base = b, ioq_depth = ucast d, ioq_cqid = 1, ioq_present = True, ioq_ien = False\<rparr>,
                  adm_sq_generation := adm_sq_generation s + 1\<rparr> \<and>
     r = ar_invalid\<lparr>ar_changed := 1, ar_status := 0\<rparr>)"
    using assms unfolding admin_create_def Let_def b_def [symmetric] d_def [symmetric] i_def [symmetric]
    by (cases "cmd ! 0 = 5") (simp_all only: if_True if_False prod.inject split: if_splits, blast+)
  then show ?thesis using that by blast
qed

lemma admin_create_ok:
  assumes "adm_inv s" and "admin_create cb s cmd e = (s', r)"
  shows "adm_inv s' \<and> adm_change_ok s s' r"
  using assms(2)
proof (cases rule: admin_create_cases)
  case 1
  then show ?thesis using adm_unchanged [OF assms(1), of r] by simp
next
  case (2 b d i)
  then show ?thesis
    using assms(1) queue_valid_ok [OF 2(2)] by (auto simp: adm_inv_def adm_change_ok_def)
next
  case (3 b d)
  then show ?thesis
    using assms(1) queue_valid_ok [OF 3(3)] by (auto simp: adm_inv_def adm_change_ok_def)
qed

lemma admin_delete_ok:
  assumes "adm_inv s" and "cmd ! 0 = 0 \<or> cmd ! 0 = 4" and "admin_delete s cmd = (s', r)"
  shows "adm_inv s' \<and> adm_change_ok s s' r"
  using assms unfolding admin_delete_def Let_def
  by (auto simp: adm_inv_def adm_change_ok_def ar_invalid_def clear_queue_def split: if_splits)

lemma admin_cache_ok:
  assumes "admin_cache cb cmd e = (r, e')"
  shows "ar_changed r \<in> {0, 4} \<and> \<not> ar_deferred r \<and> (ar_changed r \<noteq> 0 \<longrightarrow> ar_status r = 0) \<and> ar_bytes r = 0"
proof -
  obtain ok e1 where 1: "the (acb_set_cache cb) (adm_get32 (drop (40 + 4 * 1) cmd) \<noteq> 0) e = (ok, e1)"
    by (metis surj_pair)
  obtain v e2 where 2: "the (acb_get_cache cb) e1 = (v, e2)" by (metis surj_pair)
  obtain w e3 where 3: "the (acb_get_cache cb) e = (w, e3)" by (metis surj_pair)
  show ?thesis
    using assms unfolding admin_cache_def Let_def 1 2 3 prod.case
    by (simp only: prod.inject split: if_splits) auto
qed

lemma admin_feature_ok:
  assumes "adm_inv s" and "admin_feature cb s cmd e = (s', r, e')"
  shows "adm_inv s' \<and> adm_change_ok s s' r"
proof -
  define fid where "fid = unat (adm_get32 (drop 40 cmd) AND 255)"
  obtain rc ec where c: "admin_cache cb cmd e = (rc, ec)" by (metis surj_pair)
  define s1 where "s1 = (if cmd ! 0 = 9 then s\<lparr>adm_features := (adm_features s)[fid := adm_get32 (drop 44 cmd)]\<rparr> else s)"
  have s1: "adm_inv s1" "adm_sq s1 = adm_sq s" "adm_cq s1 = adm_cq s"
    "adm_sq_generation s1 = adm_sq_generation s" "adm_cq_generation s1 = adm_cq_generation s"
    using assms(1) by (simp_all add: s1_def adm_inv_def)
  have "(s', r) = (s, ar_invalid\<lparr>ar_status := 0\<rparr>) \<or> (s', r) = (s, ar_invalid) \<or> (s', r) = (s, rc) \<or>
    (s', r) = (s1, ar_invalid\<lparr>ar_status := 0, ar_result := adm_features s1 ! fid\<rparr>)"
    using assms(2) unfolding admin_feature_def Let_def fid_def [symmetric] s1_def [symmetric] c prod.case
    by (simp only: prod.inject split: if_splits) blast+
  then show ?thesis
  proof (elim disjE)
    assume "(s', r) = (s, rc)"
    then show ?thesis using assms(1) admin_cache_ok [OF c] by (auto simp: adm_change_ok_def)
  next
    assume "(s', r) = (s1, ar_invalid\<lparr>ar_status := 0, ar_result := adm_features s1 ! fid\<rparr>)"
    then show ?thesis using s1 by (simp add: adm_change_ok_def)
  qed (simp_all add: assms(1) adm_change_ok_def)
qed

lemma admin_aer_ok:
  assumes "adm_inv s" and "admin_aer s cmd = (s', r)"
  shows "adm_inv s' \<and> adm_change_ok s s' r"
  using assms unfolding admin_aer_def
  by (auto simp: adm_inv_def adm_change_ok_def split: if_splits)

lemma admin_dispatch_ok:
  assumes "adm_inv s" and "admin_dispatch cb s cmd e = (s', r, e')"
  shows "adm_inv s' \<and> adm_change_ok s s' r"
proof -
  obtain sc rc where c: "admin_create cb s cmd e = (sc, rc)" by (metis surj_pair)
  obtain sd rd where d: "admin_delete s cmd = (sd, rd)" by (metis surj_pair)
  obtain sa ra where a: "admin_aer s cmd = (sa, ra)" by (metis surj_pair)
  have "(s' = sc \<and> r = rc) \<or> ((cmd ! 0 = 0 \<or> cmd ! 0 = 4) \<and> s' = sd \<and> r = rd) \<or>
     admin_feature cb s cmd e = (s', r, e') \<or> (s' = sa \<and> r = ra) \<or>
     (s' = s \<and> ar_changed r = 0 \<and> \<not> ar_deferred r)"
    using assms(2) unfolding admin_dispatch_def Let_def c d a prod.case
    by (simp only: prod.inject split: if_splits) auto
  then show ?thesis
    using admin_create_ok [OF assms(1) c] admin_delete_ok [OF assms(1) _ d] admin_aer_ok [OF assms(1) a]
      admin_feature_ok [OF assms(1), of cb cmd e s' r e'] adm_unchanged [OF assms(1), of r]
    by (elim disjE) simp_all
qed

lemma admin_dispatch_bytes:
  assumes "admin_dispatch cb s cmd e = (s', r, e')"
  shows "ar_bytes r = 0"
proof -
  obtain sc rc where c: "admin_create cb s cmd e = (sc, rc)" by (metis surj_pair)
  obtain sd rd where d: "admin_delete s cmd = (sd, rd)" by (metis surj_pair)
  obtain sa ra where a: "admin_aer s cmd = (sa, ra)" by (metis surj_pair)
  obtain sf rf ef where f: "admin_feature cb s cmd e = (sf, rf, ef)" by (metis prod_cases3)
  obtain rh eh where h: "admin_cache cb cmd e = (rh, eh)" by (metis surj_pair)
  have "ar_bytes rc = 0" using c by (cases rule: admin_create_cases) simp_all
  moreover have "ar_bytes rd = 0"
    using d unfolding admin_delete_def Let_def by (simp only: prod.inject split: if_splits) auto
  moreover have "ar_bytes ra = 0" using a unfolding admin_aer_def by (auto split: if_splits)
  moreover have "ar_bytes rf = 0"
    using f admin_cache_ok [OF h] unfolding admin_feature_def Let_def h prod.case
    by (simp only: prod.inject split: if_splits) auto
  moreover have "r \<in> {rc, rd, rf, ra, ar_invalid\<lparr>ar_status := 0, ar_result := 1\<rparr>, ar_invalid\<lparr>ar_status := 1\<rparr>}"
    using assms unfolding admin_dispatch_def Let_def c d a f prod.case
    by (simp only: prod.inject split: if_splits) blast+
  ultimately show ?thesis by auto
qed

lemma admin_execute_ok:
  assumes "nwoas_admin_execute (Some s) (Some cb) (Some p) (Some cmd) (Some b) (Some r0) e = (rc, s', b', r, e')"
    and "adm_inv s"
  shows "\<exists>s1 b1 r1. s' = Some s1 \<and> b' = Some b1 \<and> r = Some r1 \<and> adm_inv s1 \<and> adm_change_ok s s1 r1 \<and>
     length b1 = length b \<and> unat (ar_bytes r1) \<le> 4096 \<and> rc \<in> {-1, 1}"
proof -
  obtain h bo pr where p: "nwoas_admin_payload (Some cmd) (Some p) (Some b)
      (Some \<lparr>pay_status = 0, pay_bytes = 0\<rparr>) = (h, bo, pr)" by (metis prod_cases3)
  obtain b1 pr1 where p1: "bo = Some b1" "pr = Some pr1" "payload_ok b b1 pr1"
    using payload_frame [OF p] by blast
  obtain sd rd ed where d: "admin_dispatch cb s cmd e = (sd, rd, ed)" by (metis prod_cases3)
  note dk = admin_dispatch_ok [OF assms(2) d]
  have rb: "ar_bytes rd = 0" using d admin_dispatch_bytes by metis
  have u: "adm_change_ok s s r" if "ar_changed r = 0" "\<not> ar_deferred r" for r
    using that by (simp add: adm_change_ok_def)
  show ?thesis
    using assms dk rb p1 unfolding nwoas_admin_execute_def option.case prod.case p d
    by (auto simp: u payload_ok_def split: if_splits)
qed

end
