(* ===== verification/Completion_Queue.thy ===== *)
theory Completion_Queue
  imports Main
begin

text \<open>
  The contract of an NVMe completion-queue cursor: a bounded ring of \<open>depth\<close> slots in which the
  device fills the slot at \<open>tail\<close> and the host retires slots up to a new \<open>head\<close>.  The locale
  states the two cursor updates; its lemmas show that such a cursor is a FIFO queue of slot
  numbers, that no outstanding slot is ever filled again, and that the phase tag flips once per
  round.  It is interpreted on the cursors of the admin ring and of the fast path.
\<close>

lemma add_mod_inject:
  fixes d :: nat
  assumes "i < d" and "j < d" and "(h + i) mod d = (h + j) mod d"
  shows "i = j"
proof -
  have *: "b = a" if "a \<le> b" "b < d" "(h + b) mod d = (h + a) mod d" for a b
  proof -
    have "d dvd b - a" using that mod_eq_dvd_iff_nat [of "h + a" "h + b" d] by simp
    moreover have "b - a < d" using that by simp
    ultimately have "b - a = 0" using nat_dvd_not_less by blast
    then show ?thesis using that by simp
  qed
  show ?thesis
  proof (cases "i \<le> j")
    case True
    then show ?thesis using * [of i j] assms(2,3) by simp
  next
    case False
    then show ?thesis using * [of j i] assms(1,3) by simp
  qed
qed

locale completion_cursor =
  fixes head tail pend depth :: "'q \<Rightarrow> nat" and phase :: "'q \<Rightarrow> bool"
    and push :: "'q \<Rightarrow> 'q" and retire :: "nat \<Rightarrow> 'q \<Rightarrow> 'q"
    and ok :: "'q \<Rightarrow> bool"
  assumes ok_bounds: "ok q \<Longrightarrow> 2 \<le> depth q \<and> head q < depth q \<and> pend q < depth q \<and>
      tail q = (head q + pend q) mod depth q"
    and push_law: "ok q \<Longrightarrow> pend q + 1 < depth q \<Longrightarrow>
      ok (push q) \<and> head (push q) = head q \<and> depth (push q) = depth q \<and> pend (push q) = pend q + 1 \<and>
      tail (push q) = (tail q + 1) mod depth q \<and>
      phase (push q) = (if (tail q + 1) mod depth q = 0 then \<not> phase q else phase q)"
    and retire_law: "ok q \<Longrightarrow> h < depth q \<Longrightarrow> (h + depth q - head q) mod depth q \<le> pend q \<Longrightarrow>
      ok (retire h q) \<and> head (retire h q) = h \<and> depth (retire h q) = depth q \<and> tail (retire h q) = tail q \<and>
      phase (retire h q) = phase q \<and> pend (retire h q) = pend q - (h + depth q - head q) mod depth q"
begin

text \<open>The outstanding slots, oldest first.\<close>

definition slots :: "'q \<Rightarrow> nat list" where
  "slots q = map (\<lambda>i. (head q + i) mod depth q) [0..<pend q]"

lemma slots_distinct:
  assumes "ok q"
  shows "distinct (slots q)"
proof -
  have "inj_on (\<lambda>i. (head q + i) mod depth q) {0..<pend q}"
  proof (rule inj_onI)
    fix i j assume ij: "i \<in> {0..<pend q}" "j \<in> {0..<pend q}"
      and eq: "(head q + i) mod depth q = (head q + j) mod depth q"
    have "i < depth q" "j < depth q" using ij ok_bounds [OF assms] by auto
    then show "i = j" using eq by (rule add_mod_inject)
  qed
  then show ?thesis by (simp add: slots_def distinct_map)
qed

lemma slots_push:
  assumes "ok q" and "pend q + 1 < depth q"
  shows "slots (push q) = slots q @ [tail q]" and "tail q \<notin> set (slots q)"
proof -
  show eq: "slots (push q) = slots q @ [tail q]"
    using push_law [OF assms] ok_bounds [OF assms(1)] by (simp add: slots_def)
  show "tail q \<notin> set (slots q)"
    using slots_distinct [of "push q"] push_law [OF assms] eq by simp
qed

lemma slots_retire:
  assumes "ok q" and "h < depth q" and "(h + depth q - head q) mod depth q \<le> pend q"
  shows "slots (retire h q) = drop ((h + depth q - head q) mod depth q) (slots q)"
proof -
  note b = ok_bounds [OF assms(1)] and r = retire_law [OF assms]
  define n where "n = (h + depth q - head q) mod depth q"
  have h: "(head q + n) mod depth q = h"
  proof -
    have "(head q + n) mod depth q = (head q + (h + depth q - head q)) mod depth q"
      by (simp add: n_def mod_add_right_eq)
    then show ?thesis using b assms(2) by simp
  qed
  have "slots (retire h q) = map (\<lambda>i. (h + i) mod depth q) [0..<pend q - n]"
    using r by (simp add: slots_def n_def)
  also have "\<dots> = map (\<lambda>i. (head q + (n + i)) mod depth q) [0..<pend q - n]"
  proof (rule map_cong [OF refl])
    fix i
    have "(head q + (n + i)) mod depth q = ((head q + n) mod depth q + i) mod depth q"
      by (simp add: mod_add_left_eq add.assoc)
    then show "(h + i) mod depth q = (head q + (n + i)) mod depth q" by (simp add: h)
  qed
  also have "\<dots> = drop n (slots q)"
    by (rule nth_equalityI) (auto simp: slots_def less_diff_conv add.commute)
  finally show ?thesis by (simp add: n_def)
qed

text \<open>A round of \<open>depth\<close> entries flips the phase exactly once.\<close>

lemma phase_push:
  assumes "ok q" and "pend q + 1 < depth q"
  shows "phase (push q) = (phase q \<noteq> (tail q = depth q - 1))"
proof -
  have "tail q < depth q" using ok_bounds [OF assms(1)] by simp
  then have "(tail q + 1) mod depth q = 0 \<longleftrightarrow> tail q = depth q - 1"
    by (cases "tail q + 1 = depth q") auto
  then show ?thesis using push_law [OF assms] by simp
qed

end

end
