(* ===== verification/Admin_Ring.thy ===== *)
theory Admin_Ring
  imports Admin_State Completion_Queue
begin

text \<open>
  The admin submission/completion ring engine, \<^verbatim>\<open>native-s227/admin_ring.c\<close>.  The state is
  \<open>nwoas_admin_ring \<times> 'e\<close>; a callback reads the ring through the enclosing object and changes
  the environment.  A memory read returns the bytes of a complete transfer or \<open>None\<close>.  The two
  callback tables, fixed by \<^verbatim>\<open>nwoas_ring_init\<close>, are passed to every operation.
\<close>

record nwoas_admin_ring =
  rng_policy :: nwoas_identity_policy
  rng_admin :: nwoas_admin_state
  rng_sq_base :: u64
  rng_cq_base :: u64
  rng_lifecycle :: u64
  rng_sq_depth :: u16
  rng_cq_depth :: u16
  rng_sq_head :: u16
  rng_sq_tail :: u16
  rng_cq_head :: u16
  rng_cq_tail :: u16
  rng_pending :: u16
  rng_phase :: u8
  rng_active :: bool
  rng_fatal :: bool
  rng_command :: bytes
  rng_payload :: bytes
  rng_completion :: bytes

type_synonym 'e ring_state = "nwoas_admin_ring \<times> 'e"

record 'e nwoas_ring_callbacks =
  rcb_contains :: "'e ring_state \<Rightarrow> u64 \<Rightarrow> u32 \<Rightarrow> bool"
  rcb_read :: "u64 \<Rightarrow> u32 \<Rightarrow> 'e ring_state \<Rightarrow> bytes option \<times> 'e ring_state"
  rcb_write :: "u64 \<Rightarrow> bytes \<Rightarrow> 'e ring_state \<Rightarrow> bool \<times> 'e ring_state"
  rcb_barrier :: "'e ring_state \<Rightarrow> 'e ring_state"
  rcb_reconcile :: "nwoas_admin_state \<Rightarrow> u8 \<Rightarrow> 'e ring_state \<Rightarrow> bool \<times> 'e ring_state"
  rcb_pending :: "bool \<Rightarrow> 'e ring_state \<Rightarrow> 'e ring_state"
  rcb_fault :: "'e ring_state \<Rightarrow> 'e ring_state"

section \<open>Byte helpers\<close>

definition ring_get16 :: "bytes \<Rightarrow> u16" where
  "ring_get16 p = ucast (p ! 0) OR push_bit 8 (ucast (p ! 1))"

definition ring_get64 :: "bytes \<Rightarrow> u64" where
  "ring_get64 p = foldl (\<lambda>v i. v OR push_bit (8 * i) (ucast (p ! i))) 0 [0..<8]"

definition ring_put16 :: "u16 \<Rightarrow> bytes" where
  "ring_put16 v = [ucast v, ucast (drop_bit 8 v)]"

definition ring_put32 :: "u32 \<Rightarrow> bytes" where
  "ring_put32 v = map (\<lambda>i. ucast (drop_bit (8 * i) v)) [0..<4]"

section \<open>Failure, reset, configuration\<close>

definition ring_range :: "'e nwoas_ring_callbacks \<Rightarrow> 'e ring_state \<Rightarrow> u64 \<Rightarrow> u32 \<Rightarrow> bool" where
  "ring_range cb s a n \<longleftrightarrow> a \<noteq> 0 \<and> n \<noteq> 0 \<and> a \<le> -1 - ucast n \<and> rcb_contains cb s a n"

definition ring_fail :: "'e nwoas_ring_callbacks \<Rightarrow> 'e ring_state \<Rightarrow> int \<times> 'e ring_state" where
  "ring_fail cb s =
     (-2, rcb_fault cb (rcb_pending cb False (apfst (rng_fatal_update (\<lambda>_. True)) s)))"

definition ring_cleared :: "nwoas_admin_ring \<Rightarrow> nwoas_admin_ring" where
  "ring_cleared r = r\<lparr>rng_sq_head := 0, rng_sq_tail := 0, rng_cq_head := 0, rng_cq_tail := 0,
                      rng_pending := 0, rng_phase := 1\<rparr>"

text \<open>\<open>None\<close> for the callbacks stands for a missing mandatory callback.\<close>

definition nwoas_ring_init ::
  "'e nwoas_ring_callbacks option \<Rightarrow> 'e nwoas_admin_callbacks \<Rightarrow> nwoas_identity_policy
     \<Rightarrow> nwoas_admin_ring option \<Rightarrow> bool \<times> nwoas_admin_ring option" where
  "nwoas_ring_init cb ac p r =
     (case (r, cb) of
        (Some r0, Some _) \<Rightarrow>
          if (acb_set_cache ac = None) \<noteq> (acb_get_cache ac = None) \<or> \<not> policy_valid p then (False, r)
          else (True, Some (ring_cleared
                  (r0\<lparr>rng_policy := p, rng_admin := nwoas_admin_init (rng_admin r0),
                      rng_sq_base := 0, rng_cq_base := 0, rng_lifecycle := 0,
                      rng_sq_depth := 0, rng_cq_depth := 0, rng_active := False,
                      rng_fatal := False\<rparr>)))
      | _ \<Rightarrow> (False, r))"

definition nwoas_ring_reset ::
  "'e nwoas_ring_callbacks \<Rightarrow> bool \<Rightarrow> 'e ring_state \<Rightarrow> 'e ring_state" where
  "nwoas_ring_reset cb full s =
     rcb_pending cb False
       (apfst (\<lambda>r. (ring_cleared r)\<lparr>rng_active := False, rng_fatal := False,
                      rng_lifecycle := rng_lifecycle r + 1, rng_sq_base := 0, rng_cq_base := 0,
                      rng_sq_depth := 0, rng_cq_depth := 0,
                      rng_admin := nwoas_admin_reset (rng_admin r) full\<rparr>) s)"

definition nwoas_ring_configure ::
  "'e nwoas_ring_callbacks \<Rightarrow> u64 \<Rightarrow> u16 \<Rightarrow> u64 \<Rightarrow> u16 \<Rightarrow> 'e ring_state \<Rightarrow> bool \<times> 'e ring_state" where
  "nwoas_ring_configure cb sq ns cq nc s =
     (if rng_active (fst s) \<or> rng_fatal (fst s) \<or> ns < 2 \<or> ns > 256 \<or> nc < 2 \<or> nc > 256 \<or>
         sq AND 4095 \<noteq> 0 \<or> cq AND 4095 \<noteq> 0 \<or> \<not> ring_range cb s sq (ucast ns * 64) \<or>
         \<not> ring_range cb s cq (ucast nc * 16)
      then (False, s)
      else (True, rcb_pending cb False
              (apfst (\<lambda>r. (ring_cleared r)\<lparr>rng_sq_base := sq, rng_cq_base := cq, rng_sq_depth := ns,
                             rng_cq_depth := nc, rng_lifecycle := rng_lifecycle r + 1,
                             rng_active := True\<rparr>) s)))"

section \<open>Data pointers\<close>

text \<open>The spans of the PRP pair of the current command; the empty list is the C count 0.\<close>

definition ring_resolve :: "'e nwoas_ring_callbacks \<Rightarrow> u32 \<Rightarrow> 'e ring_state \<Rightarrow> (u64 \<times> u32) list" where
  "ring_resolve cb n s =
     (let a = ring_get64 (drop 24 (rng_command (fst s)));
          b = ring_get64 (drop 32 (rng_command (fst s)))
      in if n = 0 \<or> n > 4096 \<or> a AND 3 \<noteq> 0 then []
         else
           let first0 = 4096 - ucast (a AND 4095);
               first = (if first0 > n then n else first0)
           in if \<not> ring_range cb s a first then []
              else if first = n then [(a, first)]
              else if b AND 4095 \<noteq> 0 \<or> \<not> ring_range cb s b (n - first) then []
              else [(a, first), (b, n - first)])"

fun ring_write_spans ::
  "'e nwoas_ring_callbacks \<Rightarrow> (u64 \<times> u32) list \<Rightarrow> nat \<Rightarrow> 'e ring_state \<Rightarrow> bool \<times> 'e ring_state" where
  "ring_write_spans cb [] off s = (True, s)"
| "ring_write_spans cb ((a, n) # sps) off s =
     (let (ok, s1) = rcb_write cb a (take (unat n) (drop off (rng_payload (fst s)))) s
      in if \<not> ok then (False, s1) else ring_write_spans cb sps (off + unat n) s1)"

section \<open>Serving commands\<close>

definition ring_next :: "u16 \<Rightarrow> u16 \<Rightarrow> u16" where
  "ring_next i depth = word_of_nat ((unat i + 1) mod unat depth)"

text \<open>Fetching and executing the command at the submission head: \<open>None\<close> on a failure.\<close>

definition ring_fetch ::
  "'e nwoas_ring_callbacks \<Rightarrow> 'e nwoas_admin_callbacks \<Rightarrow> 'e ring_state
     \<Rightarrow> nwoas_admin_result option \<times> 'e ring_state" where
  "ring_fetch cb ac s =
     (let address = rng_sq_base (fst s) + ucast (rng_sq_head (fst s)) * 64
      in if \<not> ring_range cb s address 64 then (None, s)
         else
           (case rcb_read cb address 64 s of
              (None, s1) \<Rightarrow> (None, s1)
            | (Some c, s1) \<Rightarrow>
                let s2 = apfst (rng_command_update (\<lambda>_. c)) s1;
                    (rc, adm, out, res, e) =
                      nwoas_admin_execute (Some (rng_admin (fst s2))) (Some ac)
                        (Some (rng_policy (fst s2))) (Some c) (Some (rng_payload (fst s2)))
                        (Some ar_invalid) (snd s2);
                    s3 = ((fst s2)\<lparr>rng_admin := the adm, rng_payload := the out\<rparr>, e)
                in if rc \<noteq> 1 then (None, s3) else (res, s3)))"

text \<open>The data transfer of a result: \<open>None\<close> on a failed write.\<close>

definition ring_transfer ::
  "'e nwoas_ring_callbacks \<Rightarrow> nwoas_admin_result \<Rightarrow> 'e ring_state
     \<Rightarrow> nwoas_admin_result option \<times> 'e ring_state" where
  "ring_transfer cb res s =
     (if ar_bytes res = 0 then (Some res, s)
      else
        let spans = ring_resolve cb (ar_bytes res) s
        in if spans = [] then (Some (res\<lparr>ar_status := 2, ar_result := 0, ar_bytes := 0\<rparr>), s)
           else let (ok, s1) = ring_write_spans cb spans 0 s
                in if ok then (Some res, s1) else (None, s1))"

definition completion_entry :: "nwoas_admin_ring \<Rightarrow> u16 \<Rightarrow> nwoas_admin_result \<Rightarrow> bytes" where
  "completion_entry r cid res =
     ring_put32 (ar_result res) @ ring_put32 0 @ ring_put16 (rng_sq_head r) @ ring_put16 0 @
     ring_put16 cid @ ring_put16 (ucast (push_bit 1 (ucast (ar_status res) :: u32) OR ucast (rng_phase r)))"

text \<open>The completion cursor after one more entry.\<close>

definition ring_push :: "nwoas_admin_ring \<Rightarrow> nwoas_admin_ring" where
  "ring_push r =
     (let t = ring_next (rng_cq_tail r) (rng_cq_depth r)
      in r\<lparr>rng_cq_tail := t, rng_pending := rng_pending r + 1,
           rng_phase := (if t = 0 then rng_phase r XOR 1 else rng_phase r)\<rparr>)"

text \<open>Publishing the completion: body, barrier, status word, then the cursor.\<close>

definition ring_publish ::
  "'e nwoas_ring_callbacks \<Rightarrow> u16 \<Rightarrow> nwoas_admin_result \<Rightarrow> 'e ring_state \<Rightarrow> bool \<times> 'e ring_state" where
  "ring_publish cb cid res s =
     (let ent = completion_entry (fst s) cid res;
          s1 = apfst (rng_completion_update (\<lambda>_. ent)) s;
          address = rng_cq_base (fst s1) + ucast (rng_cq_tail (fst s1)) * 16
      in if \<not> ring_range cb s1 address 16 then (False, s1)
         else
           let (ok1, s2) = rcb_write cb address (take 14 ent) s1
           in if \<not> ok1 then (False, s2)
              else
                let s3 = rcb_barrier cb s2;
                    (ok2, s4) = rcb_write cb (address + 14) (drop 14 ent) s3
                in if \<not> ok2 then (False, s4)
                   else
                     (True, rcb_pending cb True (apfst ring_push s4)))"

text \<open>One iteration of the service loop; \<open>False\<close> is the path to \<^verbatim>\<open>fail\<close>.\<close>

definition ring_serve ::
  "'e nwoas_ring_callbacks \<Rightarrow> 'e nwoas_admin_callbacks \<Rightarrow> 'e ring_state \<Rightarrow> bool \<times> 'e ring_state" where
  "ring_serve cb ac s =
     (case ring_fetch cb ac s of
        (None, s1) \<Rightarrow> (False, s1)
      | (Some res, s1) \<Rightarrow>
          let cid = ring_get16 (drop 2 (rng_command (fst s1)));
              s2 = apfst (\<lambda>r. r\<lparr>rng_sq_head := ring_next (rng_sq_head r) (rng_sq_depth r)\<rparr>) s1;
              (ok, s3) = (if ar_changed res \<noteq> 0
                          then rcb_reconcile cb (rng_admin (fst s2)) (ar_changed res) s2
                          else (True, s2))
          in if \<not> ok then (False, s3)
             else if ar_deferred res then (True, s3)
             else
               (case ring_transfer cb res s3 of
                  (None, s4) \<Rightarrow> (False, s4)
                | (Some res', s4) \<Rightarrow> ring_publish cb cid res' s4))"

definition ring_ready :: "nwoas_admin_ring \<Rightarrow> bool" where
  "ring_ready r \<longleftrightarrow>
     rng_sq_head r \<noteq> rng_sq_tail r \<and> int (unat (rng_pending r)) < int (unat (rng_cq_depth r)) - 1"

text \<open>The service loop with the remaining budget.\<close>

fun ring_loop ::
  "nat \<Rightarrow> 'e nwoas_ring_callbacks \<Rightarrow> 'e nwoas_admin_callbacks \<Rightarrow> int \<Rightarrow> 'e ring_state
     \<Rightarrow> int \<times> 'e ring_state" where
  "ring_loop left cb ac consumed s =
     (if left = 0 \<or> \<not> ring_ready (fst s) then (consumed, s)
      else
        let (ok, s1) = ring_serve cb ac s
        in if ok then ring_loop (left - 1) cb ac (consumed + 1) s1 else ring_fail cb s1)"

declare ring_loop.simps [simp del]

definition nwoas_ring_poll ::
  "'e nwoas_ring_callbacks \<Rightarrow> 'e nwoas_admin_callbacks \<Rightarrow> nat \<Rightarrow> 'e ring_state \<Rightarrow> int \<times> 'e ring_state" where
  "nwoas_ring_poll cb ac budget s =
     (if budget = 0 \<or> budget > 256 then (-1, s)
      else if \<not> rng_active (fst s) \<or> rng_fatal (fst s) then (0, s)
      else ring_loop budget cb ac 0 s)"

definition nwoas_ring_tail ::
  "'e nwoas_ring_callbacks \<Rightarrow> 'e nwoas_admin_callbacks \<Rightarrow> u32 \<Rightarrow> 'e ring_state \<Rightarrow> int \<times> 'e ring_state" where
  "nwoas_ring_tail cb ac tail s =
     (if \<not> rng_active (fst s) \<or> rng_fatal (fst s) then (0, s)
      else if tail \<ge> ucast (rng_sq_depth (fst s)) then ring_fail cb s
      else nwoas_ring_poll cb ac 256 (apfst (rng_sq_tail_update (\<lambda>_. ucast tail)) s))"

text \<open>The completion cursor after the host acknowledged entries up to \<open>head\<close>.\<close>

definition ring_ack_count :: "u32 \<Rightarrow> nwoas_admin_ring \<Rightarrow> u32" where
  "ring_ack_count head r =
     (head + ucast (rng_cq_depth r) - ucast (rng_cq_head r)) mod ucast (rng_cq_depth r)"

definition ring_retire :: "u32 \<Rightarrow> nwoas_admin_ring \<Rightarrow> nwoas_admin_ring" where
  "ring_retire head r =
     r\<lparr>rng_cq_head := ucast head, rng_pending := rng_pending r - ucast (ring_ack_count head r)\<rparr>"

definition nwoas_ring_ack ::
  "'e nwoas_ring_callbacks \<Rightarrow> u32 \<Rightarrow> 'e ring_state \<Rightarrow> int \<times> 'e ring_state" where
  "nwoas_ring_ack cb head s =
     (if \<not> rng_active (fst s) \<or> rng_fatal (fst s) then (0, s)
      else if head \<ge> ucast (rng_cq_depth (fst s)) then ring_fail cb s
      else
        (if ring_ack_count head (fst s) > ucast (rng_pending (fst s)) then ring_fail cb s
         else
           let s1 = apfst (ring_retire head) s
           in (0, rcb_pending cb (rng_pending (fst s1) \<noteq> 0) s1)))"

section \<open>The completion cursor\<close>

definition ring_cq_ok :: "nwoas_admin_ring \<Rightarrow> bool" where
  "ring_cq_ok r \<longleftrightarrow>
     2 \<le> unat (rng_cq_depth r) \<and> unat (rng_cq_depth r) \<le> 256 \<and>
     unat (rng_cq_head r) < unat (rng_cq_depth r) \<and> unat (rng_pending r) < unat (rng_cq_depth r) \<and>
     unat (rng_cq_tail r) = (unat (rng_cq_head r) + unat (rng_pending r)) mod unat (rng_cq_depth r) \<and>
     rng_phase r \<in> {0, 1}"

lemma unat_ring_next:
  "0 < unat depth \<Longrightarrow> unat (ring_next i depth) = (unat i + 1) mod unat depth"
  unfolding ring_next_def by (rule unat_of_nat_small, erule less_trans [OF mod_less_divisor unsigned_less])

lemma ring_push_cursor:
  assumes "ring_cq_ok r" and "unat (rng_pending r) + 1 < unat (rng_cq_depth r)"
  shows "ring_cq_ok (ring_push r)" and "unat (rng_pending (ring_push r)) = unat (rng_pending r) + 1"
    and "unat (rng_cq_tail (ring_push r)) = (unat (rng_cq_tail r) + 1) mod unat (rng_cq_depth r)"
    and "(rng_phase (ring_push r) = 1) =
       (if (unat (rng_cq_tail r) + 1) mod unat (rng_cq_depth r) = 0 then \<not> rng_phase r = 1 else rng_phase r = 1)"
proof -
  have d: "0 < unat (rng_cq_depth r)" "unat (rng_cq_depth r) \<le> 256" using assms by (auto simp: ring_cq_ok_def)
  note n = unat_ring_next [OF d(1)]
  show p: "unat (rng_pending (ring_push r)) = unat (rng_pending r) + 1"
    using assms d by (simp add: ring_push_def Let_def unat_add_small)
  show t: "unat (rng_cq_tail (ring_push r)) = (unat (rng_cq_tail r) + 1) mod unat (rng_cq_depth r)"
    by (simp add: ring_push_def Let_def n)
  have z: "ring_next (rng_cq_tail r) (rng_cq_depth r) = 0 \<longleftrightarrow>
      (unat (rng_cq_tail r) + 1) mod unat (rng_cq_depth r) = 0"
    by (simp add: word_unat_eq_iff n)
  have ph: "rng_phase r \<in> {0, 1}" using assms by (simp add: ring_cq_ok_def)
  then show "(rng_phase (ring_push r) = 1) =
       (if (unat (rng_cq_tail r) + 1) mod unat (rng_cq_depth r) = 0 then \<not> rng_phase r = 1 else rng_phase r = 1)"
    using z by (auto simp: ring_push_def Let_def)
  have "unat (rng_cq_tail (ring_push r)) = (unat (rng_cq_head r) + (unat (rng_pending r) + 1)) mod unat (rng_cq_depth r)"
    using assms(1) unfolding t by (simp add: ring_cq_ok_def mod_Suc_eq)
  moreover have "rng_phase (ring_push r) \<in> {0, 1}" using ph by (auto simp: ring_push_def Let_def)
  ultimately show "ring_cq_ok (ring_push r)"
    using assms p unfolding ring_cq_ok_def by (simp add: ring_push_def Let_def)
qed

lemma unat_ack_count:
  assumes "ring_cq_ok r" and "unat head < unat (rng_cq_depth r)"
  shows "unat (ring_ack_count head r) =
     (unat head + unat (rng_cq_depth r) - unat (rng_cq_head r)) mod unat (rng_cq_depth r)"
proof -
  have d: "unat (rng_cq_depth r) \<le> 256" "unat (rng_cq_head r) < unat (rng_cq_depth r)"
    using assms by (auto simp: ring_cq_ok_def)
  have u: "unat (ucast (rng_cq_depth r) :: u32) = unat (rng_cq_depth r)"
    "unat (ucast (rng_cq_head r) :: u32) = unat (rng_cq_head r)"
    using d by (simp_all add: unat_ucast_small)
  have a: "unat (head + ucast (rng_cq_depth r)) = unat head + unat (rng_cq_depth r)"
    using assms(2) d u by (simp add: unat_add_small)
  have "unat (head + ucast (rng_cq_depth r) - ucast (rng_cq_head r)) =
      unat head + unat (rng_cq_depth r) - unat (rng_cq_head r)"
    using a u d by (subst unat_diff_small) (simp_all add: word_le_nat_alt)
  then show ?thesis by (simp add: ring_ack_count_def unat_mod u)
qed

lemma ring_retire_cursor:
  assumes "ring_cq_ok r" and "unat head < unat (rng_cq_depth r)"
    and "unat (ring_ack_count head r) \<le> unat (rng_pending r)"
  shows "ring_cq_ok (ring_retire head r)" and "unat (rng_cq_head (ring_retire head r)) = unat head"
    and "unat (rng_pending (ring_retire head r)) = unat (rng_pending r) - unat (ring_ack_count head r)"
proof -
  note c = unat_ack_count [OF assms(1,2)]
  have b: "unat (rng_cq_depth r) \<le> 256" "unat (rng_cq_head r) < unat (rng_cq_depth r)"
    "unat (rng_pending r) < unat (rng_cq_depth r)"
    using assms(1) by (auto simp: ring_cq_ok_def)
  show h: "unat (rng_cq_head (ring_retire head r)) = unat head"
    using assms(2) b by (simp add: ring_retire_def unat_ucast_small)
  have k: "unat (ucast (ring_ack_count head r) :: u16) = unat (ring_ack_count head r)"
    using assms(3) b by (simp add: unat_ucast_small)
  show p: "unat (rng_pending (ring_retire head r)) = unat (rng_pending r) - unat (ring_ack_count head r)"
    using assms(3) k by (simp add: ring_retire_def unat_diff_small word_le_nat_alt)
  define n where "n = unat (ring_ack_count head r)"
  have "(unat (rng_cq_head r) + n) mod unat (rng_cq_depth r)
      = (unat (rng_cq_head r) + (unat head + unat (rng_cq_depth r) - unat (rng_cq_head r))) mod unat (rng_cq_depth r)"
    unfolding n_def c by (simp add: mod_add_right_eq)
  then have e: "(unat (rng_cq_head r) + n) mod unat (rng_cq_depth r) = unat head"
    using b assms(2) by simp
  have "(unat head + (unat (rng_pending r) - n)) mod unat (rng_cq_depth r)
      = (unat (rng_cq_head r) + n + (unat (rng_pending r) - n)) mod unat (rng_cq_depth r)"
    unfolding e [symmetric] by (simp add: mod_add_left_eq)
  then have "unat (rng_cq_tail r) = (unat head + (unat (rng_pending r) - n)) mod unat (rng_cq_depth r)"
    using assms(1,3) by (simp add: ring_cq_ok_def n_def)
  then show "ring_cq_ok (ring_retire head r)"
    using assms(1,2) p h less_imp_diff_less [OF b(3), of n] unfolding ring_cq_ok_def n_def
    by (simp add: ring_retire_def)
qed

interpretation admin_cq: completion_cursor
  "\<lambda>r. unat (rng_cq_head r)" "\<lambda>r. unat (rng_cq_tail r)" "\<lambda>r. unat (rng_pending r)"
  "\<lambda>r. unat (rng_cq_depth r)" "\<lambda>r. rng_phase r = 1" ring_push "\<lambda>h. ring_retire (word_of_nat h)" ring_cq_ok
proof unfold_locales
  fix q assume "ring_cq_ok q"
  then show "2 \<le> unat (rng_cq_depth q) \<and> unat (rng_cq_head q) < unat (rng_cq_depth q) \<and>
      unat (rng_pending q) < unat (rng_cq_depth q) \<and>
      unat (rng_cq_tail q) = (unat (rng_cq_head q) + unat (rng_pending q)) mod unat (rng_cq_depth q)"
    by (simp add: ring_cq_ok_def)
next
  fix q assume q: "ring_cq_ok q" "unat (rng_pending q) + 1 < unat (rng_cq_depth q)"
  have "rng_cq_head (ring_push q) = rng_cq_head q" "rng_cq_depth (ring_push q) = rng_cq_depth q"
    by (simp_all add: ring_push_def Let_def)
  then show "ring_cq_ok (ring_push q) \<and> unat (rng_cq_head (ring_push q)) = unat (rng_cq_head q) \<and>
      unat (rng_cq_depth (ring_push q)) = unat (rng_cq_depth q) \<and>
      unat (rng_pending (ring_push q)) = unat (rng_pending q) + 1 \<and>
      unat (rng_cq_tail (ring_push q)) = (unat (rng_cq_tail q) + 1) mod unat (rng_cq_depth q) \<and>
      (rng_phase (ring_push q) = 1) =
       (if (unat (rng_cq_tail q) + 1) mod unat (rng_cq_depth q) = 0 then rng_phase q \<noteq> 1 else rng_phase q = 1)"
    using ring_push_cursor [OF q] by simp
next
  fix q h
  assume q: "ring_cq_ok q" and h: "h < unat (rng_cq_depth q)"
    and le: "(h + unat (rng_cq_depth q) - unat (rng_cq_head q)) mod unat (rng_cq_depth q) \<le> unat (rng_pending q)"
  have "unat (rng_cq_depth q) \<le> 256" using q by (simp add: ring_cq_ok_def)
  then have u: "unat (word_of_nat h :: u32) = h" using h by (intro unat_of_nat_small) simp
  note c = unat_ack_count [OF q, of "word_of_nat h", unfolded u, OF h]
  have "rng_cq_tail (ring_retire x q) = rng_cq_tail q" "rng_cq_depth (ring_retire x q) = rng_cq_depth q"
    "rng_phase (ring_retire x q) = rng_phase q" for x by (simp_all add: ring_retire_def)
  then show "ring_cq_ok (ring_retire (word_of_nat h) q) \<and> unat (rng_cq_head (ring_retire (word_of_nat h) q)) = h \<and>
      unat (rng_cq_depth (ring_retire (word_of_nat h) q)) = unat (rng_cq_depth q) \<and>
      unat (rng_cq_tail (ring_retire (word_of_nat h) q)) = unat (rng_cq_tail q) \<and>
      (rng_phase (ring_retire (word_of_nat h) q) = 1) = (rng_phase q = 1) \<and>
      unat (rng_pending (ring_retire (word_of_nat h) q)) =
        unat (rng_pending q) - (h + unat (rng_cq_depth q) - unat (rng_cq_head q)) mod unat (rng_cq_depth q)"
    using ring_retire_cursor [OF q, of "word_of_nat h"] le h unfolding u c by simp
qed


section \<open>The ring invariant\<close>

definition ring_queues_ok :: "nwoas_admin_ring \<Rightarrow> bool" where
  "ring_queues_ok r \<longleftrightarrow>
     2 \<le> unat (rng_sq_depth r) \<and> unat (rng_sq_depth r) \<le> 256 \<and>
     unat (rng_sq_head r) < unat (rng_sq_depth r) \<and> unat (rng_sq_tail r) < unat (rng_sq_depth r) \<and>
     rng_sq_base r AND 4095 = 0 \<and> rng_cq_base r AND 4095 = 0 \<and> rng_sq_base r \<noteq> 0 \<and> rng_cq_base r \<noteq> 0 \<and>
     unat (rng_sq_base r) + unat (rng_sq_depth r) * 64 < 2 ^ 64 \<and>
     unat (rng_cq_base r) + unat (rng_cq_depth r) * 16 < 2 ^ 64"

definition ring_inv :: "nwoas_admin_ring \<Rightarrow> bool" where
  "ring_inv r \<longleftrightarrow>
     adm_inv (rng_admin r) \<and> length (rng_payload r) = 4096 \<and> policy_valid (rng_policy r) \<and>
     (rng_active r \<longrightarrow> ring_cq_ok r \<and> ring_queues_ok r)"

text \<open>
  The contract of the callbacks the header states: they do not reenter the ring, and a read that
  reports success delivered all the bytes.  \<open>good\<close> is an environment condition every callback
  keeps; \<open>faulted\<close> is what the fault callback leaves.
\<close>

locale ring_callbacks =
  fixes cb :: "'e nwoas_ring_callbacks" and ac :: "'e nwoas_admin_callbacks" and good faulted :: "'e \<Rightarrow> bool"
  assumes read_frame: "good (snd s) \<Longrightarrow> rcb_read cb a n s = (b, s') \<Longrightarrow>
      fst s' = fst s \<and> good (snd s') \<and> (case b of None \<Rightarrow> True | Some d \<Rightarrow> length d = unat n)"
    and write_frame: "good (snd s) \<Longrightarrow> rcb_write cb a d s = (ok, s') \<Longrightarrow> fst s' = fst s \<and> good (snd s')"
    and barrier_frame: "good (snd s) \<Longrightarrow> fst (rcb_barrier cb s) = fst s \<and> good (snd (rcb_barrier cb s))"
    and reconcile_frame: "good (snd s) \<Longrightarrow> rcb_reconcile cb m k s = (ok, s') \<Longrightarrow> fst s' = fst s \<and> good (snd s')"
    and pending_frame: "good (snd s) \<Longrightarrow> fst (rcb_pending cb v s) = fst s \<and> good (snd (rcb_pending cb v s))"
    and fault_frame: "good (snd s) \<Longrightarrow>
      fst (rcb_fault cb s) = fst s \<and> good (snd (rcb_fault cb s)) \<and> faulted (snd (rcb_fault cb s))"
    and set_cache_good: "acb_set_cache ac = Some f \<Longrightarrow> good e \<Longrightarrow> good (snd (f v e))"
    and get_cache_good: "acb_get_cache ac = Some g \<Longrightarrow> good e \<Longrightarrow> good (snd (g e))"
begin

lemma execute_good:
  assumes "good e" and "nwoas_admin_execute s (Some ac) p c b r e = (rc, s', b', r', e')"
  shows "good e'"
proof -
  have cache: "good ec" if c: "admin_cache ac cmd e = (x, ec)" and nn: "acb_set_cache ac \<noteq> None"
    and gn: "acb_get_cache ac \<noteq> None" for cmd x ec
  proof -
    obtain f g where fg: "acb_set_cache ac = Some f" "acb_get_cache ac = Some g"
      using nn gn by fastforce
    obtain ok e1 where 1: "f (adm_get32 (drop (40 + 4 * 1) cmd) \<noteq> 0) e = (ok, e1)" by (metis surj_pair)
    obtain v e2 where 2: "g e1 = (v, e2)" by (metis surj_pair)
    obtain w e3 where 3: "g e = (w, e3)" by (metis surj_pair)
    have "good e1" using set_cache_good [OF fg(1) assms(1)] 1 by (metis snd_conv)
    moreover have "good e2" using get_cache_good [OF fg(2) \<open>good e1\<close>] 2 by (metis snd_conv)
    moreover have "good e3" using get_cache_good [OF fg(2) assms(1)] 3 by (metis snd_conv)
    moreover have "ec \<in> {e, e1, e2, e3}"
      using c unfolding admin_cache_def Let_def fg option.sel 1 2 3 prod.case
      by (simp only: prod.inject split: if_splits) auto
    ultimately show ?thesis using assms(1) by auto
  qed
  have disp: "good ed" if d: "admin_dispatch ac st m e = (sd, rd, ed)"
    and gn: "(acb_set_cache ac \<noteq> None) = (acb_get_cache ac \<noteq> None)" for st m sd rd ed
  proof -
    obtain rh eh where h: "admin_cache ac m e = (rh, eh)" by (metis surj_pair)
    obtain sf rf ef where f: "admin_feature ac st m e = (sf, rf, ef)" by (metis prod_cases3)
    have "ed = e \<or> ed = ef"
      using d unfolding admin_dispatch_def Let_def f prod.case
      by (simp only: split_def prod.inject split: if_splits) auto
    moreover have "ef = e \<or> (acb_set_cache ac \<noteq> None \<and> ef = eh)"
      using f unfolding admin_feature_def Let_def h prod.case
      by (simp only: prod.inject split: if_splits) auto
    ultimately show ?thesis using cache [OF h] gn assms(1) by auto
  qed
  show ?thesis
    using assms disp unfolding nwoas_admin_execute_def by (auto split: option.splits prod.splits if_splits)
qed

end

text \<open>The queues the ring was configured with.\<close>

definition ring_geom :: "nwoas_admin_ring \<Rightarrow> bool \<times> u64 \<times> u16 \<times> u64 \<times> u16" where
  "ring_geom r = (rng_active r, rng_sq_base r, rng_sq_depth r, rng_cq_base r, rng_cq_depth r)"

text \<open>The part of the ring that a command's execution and data transfer leave alone.\<close>

definition ring_frame :: "nwoas_admin_ring \<Rightarrow> nwoas_admin_ring \<Rightarrow> bool" where
  "ring_frame r r' \<longleftrightarrow> r' = r\<lparr>rng_command := rng_command r', rng_admin := rng_admin r', rng_payload := rng_payload r'\<rparr>"

lemma ring_frame_refl [simp]: "ring_frame r r"
  by (simp add: ring_frame_def)

lemma ring_frame_same:
  assumes "ring_frame r r'"
  shows "rng_active r' = rng_active r" "rng_fatal r' = rng_fatal r" "rng_pending r' = rng_pending r"
    "rng_cq_depth r' = rng_cq_depth r" "rng_sq_depth r' = rng_sq_depth r" "rng_sq_head r' = rng_sq_head r"
    "rng_sq_tail r' = rng_sq_tail r" "rng_cq_tail r' = rng_cq_tail r" "rng_cq_head r' = rng_cq_head r"
    "rng_phase r' = rng_phase r" "rng_lifecycle r' = rng_lifecycle r" "rng_policy r' = rng_policy r"
    "rng_sq_base r' = rng_sq_base r" "rng_cq_base r' = rng_cq_base r" "ring_geom r' = ring_geom r"
  by (subst assms [unfolded ring_frame_def], simp add: ring_geom_def)+

lemma ring_inv_buffers [simp]:
  "ring_inv (r\<lparr>rng_command := c\<rparr>) = ring_inv r" "ring_inv (r\<lparr>rng_completion := c\<rparr>) = ring_inv r"
  "ring_inv (r\<lparr>rng_fatal := f\<rparr>) = ring_inv r"
  by (simp_all add: ring_inv_def ring_cq_ok_def ring_queues_ok_def)

lemma ring_inv_admin:
  "ring_inv r \<Longrightarrow> adm_inv a \<Longrightarrow> length p = 4096 \<Longrightarrow> ring_inv (r\<lparr>rng_admin := a, rng_payload := p\<rparr>)"
  by (simp add: ring_inv_def ring_cq_ok_def ring_queues_ok_def)

lemma ring_inv_head:
  assumes "ring_inv r" and "rng_active r"
  shows "ring_inv (r\<lparr>rng_sq_head := ring_next (rng_sq_head r) (rng_sq_depth r)\<rparr>)"
proof -
  have "0 < unat (rng_sq_depth r)" using assms by (auto simp: ring_inv_def ring_queues_ok_def)
  then show ?thesis
    using assms by (auto simp: ring_inv_def ring_cq_ok_def ring_queues_ok_def unat_ring_next)
qed

lemma ring_inv_push:
  assumes "ring_inv r" and "rng_active r" and "unat (rng_pending r) + 1 < unat (rng_cq_depth r)"
  shows "ring_inv (ring_push r)"
proof -
  have "ring_cq_ok r" using assms by (simp add: ring_inv_def)
  note p = ring_push_cursor [OF this assms(3)]
  then show ?thesis
    using assms by (auto simp: ring_inv_def ring_queues_ok_def) (auto simp: ring_push_def Let_def)
qed

context ring_callbacks
begin

lemma fail_inv:
  assumes "good (snd s)" and "ring_inv (fst s)" and "ring_fail cb s = (c, s')"
  shows "good (snd s') \<and> fst s' = (fst s)\<lparr>rng_fatal := True\<rparr> \<and> ring_inv (fst s') \<and> c = -2 \<and> faulted (snd s')"
proof -
  define s1 where "s1 = apfst (rng_fatal_update (\<lambda>_. True)) s"
  have "good (snd s1)" using assms(1) by (simp add: s1_def)
  note p = pending_frame [OF this, of False]
  note f = fault_frame [OF p [THEN conjunct2]]
  show ?thesis using assms p f by (auto simp: ring_fail_def s1_def)
qed

lemma fetch_inv:
  assumes "good (snd s)" and "ring_inv (fst s)" and "ring_fetch cb ac s = (res, s')"
  shows "good (snd s') \<and> ring_inv (fst s') \<and>
     ring_frame (fst s) (fst s') \<and>
     (case res of None \<Rightarrow> True | Some r \<Rightarrow> unat (ar_bytes r) \<le> 4096 \<and> length (rng_command (fst s')) = 64 \<and>
        adm_change_ok (rng_admin (fst s)) (rng_admin (fst s')) r)"
proof -
  define adr where "adr = rng_sq_base (fst s) + ucast (rng_sq_head (fst s)) * 64"
  obtain b s1 where 1: "rcb_read cb adr 64 s = (b, s1)" by (metis surj_pair)
  note f1 = read_frame [OF assms(1) 1]
  show ?thesis
  proof (cases "ring_range cb s adr 64 \<and> b \<noteq> None")
    case False
    then have "res = None" "s' = s \<or> s' = s1"
      using assms(3) 1 unfolding ring_fetch_def Let_def adr_def [symmetric] by (auto split: if_splits)
    then show ?thesis using assms(1,2) f1 by auto
  next
    case True
    then obtain c where c: "b = Some c" "length c = 64" using f1 by auto
    obtain rc a p r e where x: "nwoas_admin_execute (Some (rng_admin (fst s1))) (Some ac)
        (Some (rng_policy (fst s1))) (Some c) (Some (rng_payload (fst s1))) (Some ar_invalid) (snd s1)
        = (rc, a, p, r, e)" by (metis prod_cases5)
    have inv1: "adm_inv (rng_admin (fst s1))" "length (rng_payload (fst s1)) = 4096"
      using assms(2) f1 by (simp_all add: ring_inv_def)
    obtain a1 p1 r1 where y: "a = Some a1" "p = Some p1" "r = Some r1" "adm_inv a1"
      "adm_change_ok (rng_admin (fst s1)) a1 r1" "length p1 = 4096" "unat (ar_bytes r1) \<le> 4096"
      using admin_execute_ok [OF x inv1(1)] inv1(2) by auto
    have e: "good e" using execute_good [OF _ x] f1 by blast
    define t where "t = ((fst s1)\<lparr>rng_command := c, rng_admin := a1, rng_payload := p1\<rparr>, e)"
    have st: "s' = t" "res = None \<or> res = Some r1"
      using assms(3) True 1 c x y unfolding ring_fetch_def Let_def adr_def [symmetric]
      by (auto simp: t_def split: if_splits)
    have "ring_inv (fst t)"
      using assms(2) f1 y ring_inv_admin [of "(fst s)\<lparr>rng_command := c\<rparr>" a1 p1] by (simp add: t_def)
    moreover have "ring_frame (fst s) (fst t)" using f1 by (simp add: t_def ring_frame_def)
    ultimately show ?thesis using st e f1 y c by (auto simp: t_def)
  qed
qed

lemma write_spans_frame:
  "good (snd s) \<Longrightarrow> ring_write_spans cb sps off s = (ok, s') \<Longrightarrow> fst s' = fst s \<and> good (snd s')"
proof (induction sps arbitrary: off s)
  case (Cons sp sps)
  obtain a n where sp: "sp = (a, n)" by fastforce
  obtain ok1 s1 where 1: "rcb_write cb a (take (unat n) (drop off (rng_payload (fst s)))) s = (ok1, s1)"
    by (metis surj_pair)
  note f = write_frame [OF Cons.prems(1) 1]
  show ?case
    using Cons.prems(2) 1 f Cons.IH [of s1 "off + unat n"] by (auto simp: sp split: if_splits)
qed simp

lemma transfer_frame:
  assumes "good (snd s)" and "ring_transfer cb res s = (res', s')"
  shows "fst s' = fst s \<and> good (snd s')"
proof -
  obtain ok s1 where 1: "ring_write_spans cb (ring_resolve cb (ar_bytes res) s) 0 s = (ok, s1)" by (metis surj_pair)
  show ?thesis
    using assms write_spans_frame [OF assms(1) 1] 1 unfolding ring_transfer_def Let_def
    by (auto split: if_splits)
qed

text \<open>Publishing moves the completion cursor by one exactly when it succeeds.\<close>

lemma publish_inv:
  assumes "good (snd s)" and "ring_publish cb cid res s = (ok, s')"
  shows "good (snd s') \<and> (\<exists>ent. fst s' = (if ok then ring_push else (\<lambda>r. r)) ((fst s)\<lparr>rng_completion := ent\<rparr>))"
proof -
  define ent where "ent = completion_entry (fst s) cid res"
  define s1 where "s1 = apfst (rng_completion_update (\<lambda>_. ent)) s"
  define adr where "adr = rng_cq_base (fst s1) + ucast (rng_cq_tail (fst s1)) * 16"
  obtain ok1 s2 where 2: "rcb_write cb adr (take 14 ent) s1 = (ok1, s2)" by (metis surj_pair)
  define s3 where "s3 = rcb_barrier cb s2"
  obtain ok2 s4 where 4: "rcb_write cb (adr + 14) (drop 14 ent) s3 = (ok2, s4)" by (metis surj_pair)
  have g1: "good (snd s1)" "fst s1 = (fst s)\<lparr>rng_completion := ent\<rparr>" using assms(1) by (simp_all add: s1_def)
  note f2 = write_frame [OF g1(1) 2]
  have f3: "fst s3 = fst s2" "good (snd s3)" using barrier_frame f2 by (simp_all add: s3_def)
  note f4 = write_frame [OF f3(2) 4]
  have p: "fst (rcb_pending cb True (apfst ring_push s4)) = ring_push (fst s4)"
    "good (snd (rcb_pending cb True (apfst ring_push s4)))"
    using pending_frame [of "apfst ring_push s4" True] f4 by simp_all
  have "(ok, s') = (if \<not> ring_range cb s1 adr 16 then (False, s1) else if \<not> ok1 then (False, s2)
      else if \<not> ok2 then (False, s4) else (True, rcb_pending cb True (apfst ring_push s4)))"
    using assms(2) unfolding ring_publish_def Let_def ent_def [symmetric] s1_def [symmetric] adr_def [symmetric]
      2 prod.case s3_def [symmetric] 4 by (simp split: if_splits)
  then have "good (snd s') \<and> fst s' = (if ok then ring_push else (\<lambda>r. r)) ((fst s)\<lparr>rng_completion := ent\<rparr>)"
    using g1 f2 f3 f4 p by (simp split: if_splits)
  then show ?thesis by blast
qed

lemma serve_inv:
  assumes "good (snd s)" and "ring_inv (fst s)" and "rng_active (fst s)" and "ring_ready (fst s)"
    and "ring_serve cb ac s = (ok, s')"
  shows "good (snd s') \<and> ring_inv (fst s') \<and> ring_geom (fst s') = ring_geom (fst s) \<and>
    rng_fatal (fst s') = rng_fatal (fst s) \<and> (ok \<longrightarrow> rng_sq_head (fst s') = ring_next (rng_sq_head (fst s)) (rng_sq_depth (fst s)) \<and>
       rng_sq_depth (fst s') = rng_sq_depth (fst s) \<and> rng_sq_tail (fst s') = rng_sq_tail (fst s))"
proof -
  obtain res s1 where 1: "ring_fetch cb ac s = (res, s1)" by (metis surj_pair)
  note f = fetch_inv [OF assms(1,2) 1]
  note fr = ring_frame_same [OF f [THEN conjunct2, THEN conjunct2, THEN conjunct1]]
  have pend: "unat (rng_pending (fst s)) + 1 < unat (rng_cq_depth (fst s))"
    using assms(4) unfolding ring_ready_def by linarith
  show ?thesis
  proof (cases res)
    case None
    then show ?thesis using assms(3,5) 1 f fr by (auto simp: ring_serve_def)
  next
    case (Some r)
    define s2 where "s2 = apfst (\<lambda>r. r\<lparr>rng_sq_head := ring_next (rng_sq_head r) (rng_sq_depth r)\<rparr>) s1"
    have g2: "good (snd s2)" "ring_inv (fst s2)"
      using f fr assms(3) ring_inv_head [of "fst s1"] by (simp_all add: s2_def)
    obtain ok3 s3 where 3: "(if ar_changed r \<noteq> 0 then rcb_reconcile cb (rng_admin (fst s2)) (ar_changed r) s2
        else (True, s2)) = (ok3, s3)" by (metis surj_pair)
    have g3: "good (snd s3)" "fst s3 = fst s2"
      using 3 g2(1) reconcile_frame [OF g2(1)] by (auto split: if_splits)
    obtain res' s4 where 4: "ring_transfer cb r s3 = (res', s4)" by (metis surj_pair)
    note g4 = transfer_frame [OF g3(1) 4]
    define cid where "cid = ring_get16 (drop 2 (rng_command (fst s1)))"
    have out: "(ok, s') = (if \<not> ok3 then (False, s3) else if ar_deferred r then (True, s3)
       else (case res' of None \<Rightarrow> (False, s4) | Some r' \<Rightarrow> ring_publish cb cid r' s4))"
      using assms(5) unfolding ring_serve_def 1 Some prod.case option.case Let_def s2_def [symmetric] 3 4 cid_def
      by (simp split: if_splits option.splits)
    show ?thesis
    proof (cases "ok3 \<and> \<not> ar_deferred r \<and> res' \<noteq> None")
      case False
      then have "s' = s3 \<or> s' = s4" using out by (auto split: if_splits)
      then show ?thesis using g2 g3 g4 fr by (auto simp: s2_def ring_geom_def)
    next
      case True
      then obtain r' where "ring_publish cb cid r' s4 = (ok, s')" using out by auto
      then obtain ent where e: "good (snd s')"
        "fst s' = (if ok then ring_push else (\<lambda>r. r)) ((fst s2)\<lparr>rng_completion := ent\<rparr>)"
        using publish_inv [of s4] g3 g4 by metis
      have a2: "rng_active (fst s2)" "rng_pending (fst s2) = rng_pending (fst s)"
        "rng_cq_depth (fst s2) = rng_cq_depth (fst s)" "rng_fatal (fst s2) = rng_fatal (fst s)"
        using fr assms(3) by (simp_all add: s2_def)
      have "ring_inv (fst s')"
        using e(2) g2(2) a2 pend ring_inv_push [of "(fst s2)\<lparr>rng_completion := ent\<rparr>"] by (cases ok) simp_all
      moreover have "ring_geom (fst s') = ring_geom (fst s)" "rng_fatal (fst s') = rng_fatal (fst s)"
        "rng_sq_head (fst s') = rng_sq_head (fst s2)" "rng_sq_depth (fst s') = rng_sq_depth (fst s2)"
        "rng_sq_tail (fst s') = rng_sq_tail (fst s2)"
        using e(2) a2 fr(15) by (cases ok; simp add: ring_push_def Let_def ring_geom_def s2_def)+
      ultimately show ?thesis using e(1) fr by (simp add: s2_def)
    qed
  qed
qed

lemma loop_inv:
  assumes "good (snd s)" and "ring_inv (fst s)" and "rng_active (fst s)"
    and "ring_loop n cb ac k s = (c, s')"
  shows "good (snd s') \<and> ring_inv (fst s') \<and> ring_geom (fst s') = ring_geom (fst s) \<and>
    (c = -2 \<and> rng_fatal (fst s') \<and> faulted (snd s') \<or> k \<le> c \<and> c \<le> k + int n \<and> rng_fatal (fst s') = rng_fatal (fst s) \<and>
       (c < k + int n \<longrightarrow> \<not> ring_ready (fst s')))"
  using assms
proof (induction n arbitrary: s k)
  case 0
  then show ?case by (simp add: ring_loop.simps)
next
  case (Suc n)
  show ?case
  proof (cases "ring_ready (fst s)")
    case False
    then show ?thesis using Suc.prems by (simp add: ring_loop.simps)
  next
    case True
    obtain ok s1 where 1: "ring_serve cb ac s = (ok, s1)" by (metis surj_pair)
    note i = serve_inv [OF Suc.prems(1-3) True 1]
    show ?thesis
    proof (cases ok)
      case False
      then have "ring_fail cb s1 = (c, s')"
        using Suc.prems(4) True 1 by (simp add: ring_loop.simps [of "Suc n"])
      then show ?thesis using fail_inv [of s1 c s'] i by (simp add: ring_geom_def)
    next
      case ok: True
      then have "ring_loop n cb ac (k + 1) s1 = (c, s')"
        using Suc.prems(4) True 1 by (simp add: ring_loop.simps [of "Suc n"])
      then show ?thesis using Suc.IH [of s1 "k + 1"] Suc.prems(3) i by (auto simp: ring_geom_def)
    qed
  qed
qed

lemma poll_inv:
  assumes "good (snd s)" and "ring_inv (fst s)" and "nwoas_ring_poll cb ac b s = (c, s')"
  shows "good (snd s') \<and> ring_inv (fst s') \<and> ring_geom (fst s') = ring_geom (fst s) \<and>
    (rng_fatal (fst s) \<longrightarrow> s' = s) \<and> (c = -2 \<longrightarrow> rng_fatal (fst s')) \<and> c \<le> int b \<and>
    (rng_fatal (fst s') \<longrightarrow> rng_fatal (fst s) \<or> faulted (snd s'))"
proof (cases "b = 0 \<or> b > 256 \<or> \<not> rng_active (fst s) \<or> rng_fatal (fst s)")
  case True
  then have "s' = s" "c = -1 \<or> c = 0"
    using assms(3) unfolding nwoas_ring_poll_def by (auto split: if_splits)
  then show ?thesis using assms(1,2) by auto
next
  case False
  then have "ring_loop b cb ac 0 s = (c, s')" using assms(3) by (simp add: nwoas_ring_poll_def)
  from loop_inv [OF assms(1,2) _ this] False show ?thesis by auto
qed

lemma tail_inv:
  assumes "good (snd s)" and "ring_inv (fst s)" and "nwoas_ring_tail cb ac t s = (c, s')"
  shows "good (snd s') \<and> ring_inv (fst s') \<and> ring_geom (fst s') = ring_geom (fst s) \<and>
    (rng_fatal (fst s) \<longrightarrow> s' = s) \<and> (rng_fatal (fst s') \<longrightarrow> rng_fatal (fst s) \<or> faulted (snd s'))"
proof (cases "\<not> rng_active (fst s) \<or> rng_fatal (fst s)")
  case True
  then show ?thesis using assms by (auto simp: nwoas_ring_tail_def)
next
  case False
  show ?thesis
  proof (cases "t \<ge> ucast (rng_sq_depth (fst s))")
    case True
    then have "ring_fail cb s = (c, s')" using False assms(3) by (simp add: nwoas_ring_tail_def)
    from fail_inv [OF assms(1,2) this] show ?thesis using False assms(2) by (simp add: ring_geom_def)
  next
    case lt: False
    define s1 where "s1 = apfst (rng_sq_tail_update (\<lambda>_. ucast t)) s"
    have p: "nwoas_ring_poll cb ac 256 s1 = (c, s')" using False lt assms(3) by (simp add: nwoas_ring_tail_def s1_def)
    have q: "ring_queues_ok (fst s)" using assms(2) False by (simp add: ring_inv_def)
    have "unat t < unat (rng_sq_depth (fst s))"
      using lt by (simp add: word_le_nat_alt unat_ucast_small unsigned_less [THEN less_trans])
    then have "unat (ucast t :: u16) < unat (rng_sq_depth (fst s))"
      using q by (simp add: unat_ucast_small ring_queues_ok_def)
    then have "ring_inv (fst s1)"
      using assms(2) q by (simp add: s1_def ring_inv_def ring_cq_ok_def ring_queues_ok_def)
    from poll_inv [OF _ this p] show ?thesis using assms(1) False by (simp add: s1_def ring_geom_def)
  qed
qed

lemma ack_inv:
  assumes "good (snd s)" and "ring_inv (fst s)" and "nwoas_ring_ack cb h s = (c, s')"
  shows "good (snd s') \<and> ring_inv (fst s') \<and> ring_geom (fst s') = ring_geom (fst s) \<and>
    (rng_fatal (fst s) \<longrightarrow> s' = s) \<and> (rng_fatal (fst s') \<longrightarrow> rng_fatal (fst s) \<or> faulted (snd s')) \<and>
    (c = 0 \<and> rng_active (fst s) \<and> \<not> rng_fatal (fst s) \<longrightarrow> fst s' = ring_retire h (fst s) \<and> \<not> rng_fatal (fst s'))"
proof (cases "\<not> rng_active (fst s) \<or> rng_fatal (fst s)")
  case True
  then show ?thesis using assms by (auto simp: nwoas_ring_ack_def)
next
  case False
  have q: "ring_cq_ok (fst s)" "ring_queues_ok (fst s)" using assms(2) False by (simp_all add: ring_inv_def)
  show ?thesis
  proof (cases "h \<ge> ucast (rng_cq_depth (fst s)) \<or> ring_ack_count h (fst s) > ucast (rng_pending (fst s))")
    case True
    then have "ring_fail cb s = (c, s')" using False assms(3) by (auto simp: nwoas_ring_ack_def split: if_splits)
    from fail_inv [OF assms(1,2) this] show ?thesis using False assms(2) by (simp add: ring_geom_def)
  next
    case lt: False
    have u: "unat (ucast (rng_cq_depth (fst s)) :: u32) = unat (rng_cq_depth (fst s))"
      "unat (ucast (rng_pending (fst s)) :: u32) = unat (rng_pending (fst s))"
      by (simp_all add: unat_ucast_small unsigned_less [THEN less_trans])
    have h: "unat h < unat (rng_cq_depth (fst s))"
      "unat (ring_ack_count h (fst s)) \<le> unat (rng_pending (fst s))"
      using lt u by (simp_all add: word_le_nat_alt word_less_nat_alt)
    note r = ring_retire_cursor [OF q(1) h]
    have i: "ring_inv (ring_retire h (fst s))"
      using assms(2) q r(1) False by (simp add: ring_inv_def ring_queues_ok_def ring_retire_def)
    define s1 where "s1 = apfst (ring_retire h) s"
    have "c = 0" "s' = rcb_pending cb (rng_pending (fst s1) \<noteq> 0) s1"
      using False lt assms(3) by (auto simp: nwoas_ring_ack_def s1_def Let_def)
    moreover note pending_frame [of s1 "rng_pending (fst s1) \<noteq> 0"]
    ultimately show ?thesis using assms(1) i False by (simp add: s1_def ring_retire_def ring_geom_def)
  qed
qed

lemma reset_inv:
  assumes "good (snd s)" and "ring_inv (fst s)"
  shows "good (snd (nwoas_ring_reset cb full s)) \<and> ring_inv (fst (nwoas_ring_reset cb full s)) \<and>
    \<not> rng_active (fst (nwoas_ring_reset cb full s)) \<and> \<not> rng_fatal (fst (nwoas_ring_reset cb full s))"
proof -
  define s1 where "s1 = apfst (\<lambda>r. (ring_cleared r)\<lparr>rng_active := False, rng_fatal := False,
                      rng_lifecycle := rng_lifecycle r + 1, rng_sq_base := 0, rng_cq_base := 0,
                      rng_sq_depth := 0, rng_cq_depth := 0,
                      rng_admin := nwoas_admin_reset (rng_admin r) full\<rparr>) s"
  have "adm_inv (nwoas_admin_reset (rng_admin (fst s)) full)"
    using assms(2) by (intro adm_reset_inv) (simp add: ring_inv_def adm_inv_def)
  then have "ring_inv (fst s1)" "good (snd s1)" "\<not> rng_active (fst s1)" "\<not> rng_fatal (fst s1)"
    using assms by (simp_all add: s1_def ring_inv_def ring_cleared_def)
  then show ?thesis using pending_frame [of s1 False] by (simp add: nwoas_ring_reset_def s1_def)
qed

lemma configure_inv:
  assumes "good (snd s)" and "ring_inv (fst s)" and "nwoas_ring_configure cb sq ns cq nc s = (ok, s')"
  shows "good (snd s') \<and> ring_inv (fst s') \<and> (if ok then rng_active (fst s') \<and> \<not> rng_fatal (fst s') \<and>
      rng_sq_base (fst s') = sq \<and> rng_sq_depth (fst s') = ns \<and> rng_cq_base (fst s') = cq \<and>
      rng_cq_depth (fst s') = nc else s' = s)"
proof (cases ok)
  case False
  then have "s' = s" using assms(3) by (simp add: nwoas_ring_configure_def split: if_splits)
  then show ?thesis using False assms by simp
next
  case True
  define s1 where "s1 = apfst (\<lambda>r. (ring_cleared r)\<lparr>rng_sq_base := sq, rng_cq_base := cq, rng_sq_depth := ns,
                             rng_cq_depth := nc, rng_lifecycle := rng_lifecycle r + 1,
                             rng_active := True\<rparr>) s"
  have v: "\<not> rng_fatal (fst s)" "2 \<le> unat ns" "unat ns \<le> 256" "2 \<le> unat nc" "unat nc \<le> 256"
    "sq AND 4095 = 0" "cq AND 4095 = 0" "ring_range cb s sq (ucast ns * 64)" "ring_range cb s cq (ucast nc * 16)"
    "s' = rcb_pending cb False s1"
    using assms(3) True
    by (auto simp: nwoas_ring_configure_def s1_def word_less_nat_alt not_less split: if_splits)
  have sz: "unat (ucast (ucast n * k :: u32) :: u64) = unat n * unat k" if "unat n \<le> 256" "unat k \<le> 64" for n :: u16 and k :: u32
  proof -
    have n: "unat (ucast n :: u32) = unat n" using that by (simp add: unat_ucast_small)
    have "unat n * unat k \<le> 256 * 64" using that by (rule mult_le_mono)
    then show ?thesis using n by (simp add: unat_ucast_small unat_mult_small)
  qed
  have "unat sq + unat ns * 64 < 2 ^ 64" "sq \<noteq> 0"
    using v(8) sz [OF v(3), of 64] by (simp_all add: ring_range_def word_le_max_minus [of sq, simplified])
  moreover have "unat cq + unat nc * 16 < 2 ^ 64" "cq \<noteq> 0"
    using v(9) sz [OF v(5), of 16] by (simp_all add: ring_range_def word_le_max_minus [of cq, simplified])
  ultimately have "ring_inv (fst s1)"
    using assms(2) v by (simp add: s1_def ring_inv_def ring_cq_ok_def ring_queues_ok_def ring_cleared_def)
  moreover have "good (snd s1)" using assms(1) by (simp add: s1_def)
  ultimately show ?thesis
    using True v pending_frame [of s1 False] by (simp add: s1_def ring_cleared_def)
qed

end

end
