(* ===== verification/Nvme_Frontend.thy ===== *)
theory Nvme_Frontend
  imports Nvme_Control Admin_Ring
begin

text \<open>
  The serialized frontend of the synthetic NVMe function, \<^verbatim>\<open>native-s228/frontend.c\<close>: it owns the
  controller registers and the admin ring, and gives each of them callbacks into the other.  The
  backend operations act on an environment \<open>'x\<close>.

  The C object is one structure to which every callback has a pointer.  Here it is split into the
  controller, the ring and the rest (\<open>fe_side\<close>); a controller callback works on
  \<open>control \<times> (ring \<times> side)\<close> and a ring callback on \<open>ring \<times> (control \<times> side)\<close>.
\<close>

record 'x fe_side =
  fe_env :: 'x
  fe_io_pending :: bool
  fe_backend_fault :: bool
  fe_full_reset :: bool
  fe_control_busy :: bool

type_synonym 'x fe_ring_env = "nwoas_control \<times> 'x fe_side"
type_synonym 'x fe_ctl_env = "nwoas_admin_ring \<times> 'x fe_side"

record 'x nwoas_frontend =
  fe_control :: nwoas_control
  fe_ring :: nwoas_admin_ring
  fe_rest :: "'x fe_side"

text \<open>
  The backend read fills the caller's buffer of \<open>n\<close> bytes: on success it gives the byte stored at
  each index.
\<close>

record 'x nwoas_frontend_ops =
  ops_contains :: "'x \<Rightarrow> u64 \<Rightarrow> u32 \<Rightarrow> bool"
  ops_read :: "u64 \<Rightarrow> u32 \<Rightarrow> 'x \<Rightarrow> (nat \<Rightarrow> u8) option \<times> 'x"
  ops_write :: "u64 \<Rightarrow> bytes \<Rightarrow> 'x \<Rightarrow> bool \<times> 'x"
  ops_barrier :: "'x \<Rightarrow> 'x"
  ops_reconcile :: "nwoas_admin_state \<Rightarrow> u8 \<Rightarrow> 'x \<Rightarrow> bool \<times> 'x"
  ops_reset_io :: "'x \<Rightarrow> bool \<times> 'x"
  ops_flush :: "'x \<Rightarrow> bool \<times> 'x"
  ops_set_cache :: "(bool \<Rightarrow> 'x \<Rightarrow> int \<times> 'x) option"
  ops_get_cache :: "('x \<Rightarrow> u32 \<times> 'x) option"
  ops_irq :: "bool \<Rightarrow> 'x \<Rightarrow> 'x"

definition fe_as_ctl :: "'x nwoas_frontend \<Rightarrow> 'x fe_ctl_env ctl_state" where
  "fe_as_ctl f = (fe_control f, fe_ring f, fe_rest f)"

definition fe_of_ctl :: "'x fe_ctl_env ctl_state \<Rightarrow> 'x nwoas_frontend" where
  "fe_of_ctl s = \<lparr>fe_control = fst s, fe_ring = fst (snd s), fe_rest = snd (snd s)\<rparr>"

definition fe_as_ring :: "'x nwoas_frontend \<Rightarrow> 'x fe_ring_env ring_state" where
  "fe_as_ring f = (fe_ring f, fe_control f, fe_rest f)"

definition fe_of_ring :: "'x fe_ring_env ring_state \<Rightarrow> 'x nwoas_frontend" where
  "fe_of_ring s = \<lparr>fe_control = fst (snd s), fe_ring = fst s, fe_rest = snd (snd s)\<rparr>"

section \<open>Interrupt and pending\<close>

definition fe_irq :: "'x nwoas_frontend_ops \<Rightarrow> bool \<Rightarrow> 'x fe_ctl_env ctl_state \<Rightarrow> 'x fe_ctl_env ctl_state" where
  "fe_irq ops v s =
     (case s of (c, r, x) \<Rightarrow>
        (c, r, x\<lparr>fe_env := ops_irq ops (v \<and> ctl_csts c AND 2 = 0 \<and> \<not> fe_backend_fault x \<and> \<not> rng_fatal r)
                            (fe_env x)\<rparr>))"

text \<open>
  \<^verbatim>\<open>nwoas_control_pending\<close> uses only the interrupt entry of the callback table, so the table
  with that entry alone serves \<^verbatim>\<open>update_pending\<close>.
\<close>

definition fe_irq_table :: "'x nwoas_frontend_ops \<Rightarrow> 'x fe_ctl_env nwoas_callbacks" where
  "fe_irq_table ops = \<lparr>ccb_contains = None, ccb_setup = None, ccb_reset = None, ccb_flush = None,
                       ccb_irq = Some (fe_irq ops)\<rparr>"

definition update_pending :: "'x nwoas_frontend_ops \<Rightarrow> 'x nwoas_frontend \<Rightarrow> 'x nwoas_frontend" where
  "update_pending ops f =
     (if fe_control_busy (fe_rest f) then f
      else fe_of_ctl (nwoas_control_pending (fe_irq_table ops)
             (fe_io_pending (fe_rest f) \<or> (rng_active (fe_ring f) \<and> rng_pending (fe_ring f) \<noteq> 0))
             (fe_as_ctl f)))"

definition nwoas_frontend_fault :: "'x nwoas_frontend_ops \<Rightarrow> 'x nwoas_frontend \<Rightarrow> 'x nwoas_frontend" where
  "nwoas_frontend_fault ops f =
     f\<lparr>fe_control := (fe_control f)\<lparr>ctl_csts := ctl_csts (fe_control f) OR 2\<rparr>,
       fe_rest := (fe_rest f)\<lparr>fe_backend_fault := True, fe_env := ops_irq ops False (fe_env (fe_rest f))\<rparr>\<rparr>"

section \<open>Callback tables\<close>

definition fe_set_cache ::
  "'x nwoas_frontend_ops \<Rightarrow> (bool \<Rightarrow> 'x \<Rightarrow> int \<times> 'x) \<Rightarrow> bool \<Rightarrow> 'x fe_ring_env \<Rightarrow> bool \<times> 'x fe_ring_env" where
  "fe_set_cache ops sc v s =
     (case s of (c, x) \<Rightarrow>
        let (result, e) = sc v (fe_env x);
            x1 = x\<lparr>fe_env := e\<rparr>
        in (result = 1,
            if result < 0
            then (c\<lparr>ctl_csts := ctl_csts c OR 2\<rparr>,
                  x1\<lparr>fe_backend_fault := True, fe_env := ops_irq ops False e\<rparr>)
            else (c, x1)))"

definition fe_admin_table :: "'x nwoas_frontend_ops \<Rightarrow> 'x fe_ring_env nwoas_admin_callbacks" where
  "fe_admin_table ops =
     \<lparr>acb_contains = Some (\<lambda>s. ops_contains ops (fe_env (snd s))),
      acb_set_cache = map_option (fe_set_cache ops) (ops_set_cache ops),
      acb_get_cache = map_option (\<lambda>g s. let (v, e) = g (fe_env (snd s))
                                        in (v, (fst s, (snd s)\<lparr>fe_env := e\<rparr>))) (ops_get_cache ops)\<rparr>"

definition fe_lift :: "('x \<Rightarrow> 'a \<times> 'x) \<Rightarrow> 'x fe_ring_env ring_state \<Rightarrow> 'a \<times> 'x fe_ring_env ring_state" where
  "fe_lift g s =
     (case s of (r, c, x) \<Rightarrow> let (v, e) = g (fe_env x) in (v, (r, c, x\<lparr>fe_env := e\<rparr>)))"

definition fe_read_memory ::
  "'x nwoas_frontend_ops \<Rightarrow> u64 \<Rightarrow> u32 \<Rightarrow> 'x fe_ring_env ring_state \<Rightarrow> bytes option \<times> 'x fe_ring_env ring_state" where
  "fe_read_memory ops a n s =
     (if fe_backend_fault (snd (snd s)) then (None, s)
      else let (d, s1) = fe_lift (ops_read ops a n) s
           in (map_option (\<lambda>buf. map buf [0..<unat n]) d, s1))"

definition fe_write_memory ::
  "'x nwoas_frontend_ops \<Rightarrow> u64 \<Rightarrow> bytes \<Rightarrow> 'x fe_ring_env ring_state \<Rightarrow> bool \<times> 'x fe_ring_env ring_state" where
  "fe_write_memory ops a d s =
     (if fe_backend_fault (snd (snd s)) then (False, s) else fe_lift (ops_write ops a d) s)"

definition fe_reconcile ::
  "'x nwoas_frontend_ops \<Rightarrow> nwoas_admin_state \<Rightarrow> u8 \<Rightarrow> 'x fe_ring_env ring_state
     \<Rightarrow> bool \<times> 'x fe_ring_env ring_state" where
  "fe_reconcile ops adm changed s =
     (let (ok, s1) = fe_lift (ops_reconcile ops adm changed) s
      in if \<not> ok then (False, s1)
         else case s1 of (r, c, x) \<Rightarrow>
           let x1 = (if changed AND 2 \<noteq> 0 then x\<lparr>fe_io_pending := False\<rparr> else x)
           in (True, fe_as_ring (update_pending ops (fe_of_ring (r, c, x1)))))"

definition fe_ring_table :: "'x nwoas_frontend_ops \<Rightarrow> 'x fe_ring_env nwoas_ring_callbacks" where
  "fe_ring_table ops =
     \<lparr>rcb_contains = (\<lambda>s. ops_contains ops (fe_env (snd (snd s)))),
      rcb_read = fe_read_memory ops,
      rcb_write = fe_write_memory ops,
      rcb_barrier = (\<lambda>s. snd (fe_lift (\<lambda>e. ((), ops_barrier ops e)) s)),
      rcb_reconcile = fe_reconcile ops,
      rcb_pending = (\<lambda>v s. fe_as_ring (update_pending ops (fe_of_ring s))),
      rcb_fault = (\<lambda>s. fe_as_ring (nwoas_frontend_fault ops (fe_of_ring s)))\<rparr>"

text \<open>The reset callback of the controller: cancel the I/O work, then reset the ring.\<close>

definition fe_reset_cb ::
  "'x nwoas_frontend_ops \<Rightarrow> 'x fe_ctl_env ctl_state \<Rightarrow> 'x fe_ctl_env ctl_state" where
  "fe_reset_cb ops s =
     (case s of (c, r, x) \<Rightarrow>
        let (ok, e) = ops_reset_io ops (fe_env x);
            x1 = x\<lparr>fe_env := e, fe_io_pending := False, fe_backend_fault := \<not> ok\<rparr>
        in fe_as_ctl (fe_of_ring (nwoas_ring_reset (fe_ring_table ops) (fe_full_reset x1) (r, c, x1))))"

definition fe_setup_cb ::
  "'x nwoas_frontend_ops \<Rightarrow> u64 \<Rightarrow> u16 \<Rightarrow> u64 \<Rightarrow> u16 \<Rightarrow> 'x fe_ctl_env ctl_state
     \<Rightarrow> bool \<times> 'x fe_ctl_env ctl_state" where
  "fe_setup_cb ops sq ns cq nc s =
     (case s of (c, r, x) \<Rightarrow>
        if fe_backend_fault x then (False, s)
        else let (ok, s1) = nwoas_ring_configure (fe_ring_table ops) sq ns cq nc (r, c, x)
             in (ok, fe_as_ctl (fe_of_ring s1)))"

definition fe_ctl_table :: "'x nwoas_frontend_ops \<Rightarrow> 'x fe_ctl_env nwoas_callbacks" where
  "fe_ctl_table ops =
     \<lparr>ccb_contains = Some (\<lambda>s. ops_contains ops (fe_env (snd (snd s)))),
      ccb_setup = Some (fe_setup_cb ops),
      ccb_reset = Some (fe_reset_cb ops),
      ccb_flush = Some (\<lambda>s. case s of (c, r, x) \<Rightarrow>
                         let (ok, e) = ops_flush ops (fe_env x) in (ok, (c, r, x\<lparr>fe_env := e\<rparr>))),
      ccb_irq = Some (fe_irq ops)\<rparr>"

section \<open>Operations\<close>

definition fe_busy :: "bool \<Rightarrow> 'x nwoas_frontend \<Rightarrow> 'x nwoas_frontend" where
  "fe_busy b f = f\<lparr>fe_rest := (fe_rest f)\<lparr>fe_control_busy := b\<rparr>\<rparr>"

definition fe_full :: "bool \<Rightarrow> 'x nwoas_frontend \<Rightarrow> 'x nwoas_frontend" where
  "fe_full b f = f\<lparr>fe_rest := (fe_rest f)\<lparr>fe_full_reset := b\<rparr>\<rparr>"

definition fe_refault :: "'x nwoas_frontend_ops \<Rightarrow> 'x nwoas_frontend \<Rightarrow> 'x nwoas_frontend" where
  "fe_refault ops f = (if fe_backend_fault (fe_rest f) then nwoas_frontend_fault ops f else f)"

text \<open>\<open>None\<close> for the operations stands for a missing mandatory callback.\<close>

definition nwoas_frontend_init ::
  "'x nwoas_frontend_ops option \<Rightarrow> u64 \<Rightarrow> nwoas_identity_policy \<Rightarrow> 'x nwoas_frontend option
     \<Rightarrow> bool \<times> 'x nwoas_frontend option" where
  "nwoas_frontend_init ops bar policy f =
     (case (f, ops) of
        (Some f0, Some p) \<Rightarrow>
          if (ops_set_cache p = None) \<noteq> (ops_get_cache p = None) \<or> bar = 0 \<or> bar AND 0x3fff \<noteq> 0 \<or>
             \<not> policy_valid policy
          then (False, f)
          else
            let f1 = f0\<lparr>fe_rest := (fe_rest f0)\<lparr>fe_io_pending := False, fe_backend_fault := False,
                                              fe_full_reset := False, fe_control_busy := False\<rparr>\<rparr>;
                (ok, r) = nwoas_ring_init (Some (fe_ring_table p)) (fe_admin_table p) policy (Some (fe_ring f1))
            in if \<not> ok then (False, Some f1)
               else
                 let f2 = fe_busy True (f1\<lparr>fe_ring := the r\<rparr>);
                     f3 = fe_busy False (fe_of_ctl (nwoas_control_init bar (fe_ctl_table p) (fe_as_ctl f2)));
                     f4 = fe_refault p (update_pending p f3)
                 in (\<not> fe_backend_fault (fe_rest f4), Some f4)
      | _ \<Rightarrow> (False, f))"

definition nwoas_frontend_reset :: "'x nwoas_frontend_ops \<Rightarrow> 'x nwoas_frontend \<Rightarrow> 'x nwoas_frontend" where
  "nwoas_frontend_reset ops f =
     (let f1 = fe_busy True (fe_full True f);
          f2 = fe_of_ctl (nwoas_control_reset (fe_ctl_table ops) (fe_as_ctl f1))
      in fe_refault ops (update_pending ops (fe_full False (fe_busy False f2))))"

definition nwoas_frontend_io_pending ::
  "'x nwoas_frontend_ops \<Rightarrow> bool \<Rightarrow> 'x nwoas_frontend \<Rightarrow> 'x nwoas_frontend" where
  "nwoas_frontend_io_pending ops v f =
     (let q = adm_cq (rng_admin (fe_ring f))
      in update_pending ops
           (f\<lparr>fe_rest := (fe_rest f)\<lparr>fe_io_pending := v \<and> ioq_present q \<and> ioq_ien q\<rparr>\<rparr>))"

definition nwoas_frontend_read ::
  "'x nwoas_frontend \<Rightarrow> bool \<Rightarrow> u32 \<Rightarrow> nat \<Rightarrow> u64 option \<Rightarrow> nwoas_access \<times> u64 option" where
  "nwoas_frontend_read f pci off w v =
     (if pci then nwoas_pci_read (fe_control f) off w v else nwoas_reg_read (fe_control f) off w v)"

definition fe_doorbell ::
  "'x nwoas_frontend_ops \<Rightarrow> u32 \<Rightarrow> u64 \<Rightarrow> 'x nwoas_frontend \<Rightarrow> nwoas_access \<times> 'x nwoas_frontend" where
  "fe_doorbell ops off v f =
     (if off = 0x1000
      then (NWOAS_HANDLED, fe_of_ring (snd (nwoas_ring_tail (fe_ring_table ops) (fe_admin_table ops) (ucast v)
              (fe_as_ring f))))
      else if off = 0x1004
      then (NWOAS_HANDLED, fe_of_ring (snd (nwoas_ring_ack (fe_ring_table ops) (ucast v) (fe_as_ring f))))
      else (NWOAS_NOT_HANDLED, f))"

definition nwoas_frontend_write ::
  "'x nwoas_frontend_ops \<Rightarrow> bool \<Rightarrow> u32 \<Rightarrow> nat \<Rightarrow> u64 \<Rightarrow> 'x nwoas_frontend
     \<Rightarrow> nwoas_access \<times> 'x nwoas_frontend" where
  "nwoas_frontend_write ops pci off w v f =
     (let (res, s) = (if pci then nwoas_pci_write (fe_ctl_table ops) off w v (fe_as_ctl (fe_busy True f))
                      else nwoas_reg_write (fe_ctl_table ops) off w v (fe_as_ctl (fe_busy True f)));
          f1 = update_pending ops (fe_busy False (fe_of_ctl s))
      in if \<not> pci \<and> res = NWOAS_NOT_HANDLED
         then (if w \<noteq> 32 \<or> off \<ge> 0x1010 then (NWOAS_HANDLED, f1)
               else if ctl_csts (fe_control f1) AND 1 = 0 \<or> ctl_csts (fe_control f1) AND 2 \<noteq> 0 \<or>
                       fe_backend_fault (fe_rest f1)
               then (NWOAS_HANDLED, f1)
               else let (res2, f2) = fe_doorbell ops off v f1 in (res2, fe_refault ops f2))
         else (res, fe_refault ops f1))"

definition nwoas_frontend_poll ::
  "'x nwoas_frontend_ops \<Rightarrow> nat \<Rightarrow> 'x nwoas_frontend \<Rightarrow> int \<times> 'x nwoas_frontend" where
  "nwoas_frontend_poll ops budget f =
     (if ctl_csts (fe_control f) AND 1 = 0 \<or> ctl_csts (fe_control f) AND 2 \<noteq> 0 \<or>
         fe_backend_fault (fe_rest f)
      then (0, f)
      else let (c, s) = nwoas_ring_poll (fe_ring_table ops) (fe_admin_table ops) budget (fe_as_ring f)
           in (c, fe_of_ring s))"

section \<open>What the callbacks keep\<close>

lemma control_pending_table:
  "nwoas_control_pending (fe_irq_table ops) = nwoas_control_pending (fe_ctl_table ops)"
  by (simp add: fun_eq_iff nwoas_control_pending_def ctl_irq_update_def fe_irq_table_def fe_ctl_table_def)

lemma fe_views [simp]:
  "fe_of_ctl (fe_as_ctl f) = f" "fe_of_ring (fe_as_ring f) = f"
  "fe_as_ctl (fe_of_ctl s) = s" "fe_as_ring (fe_of_ring t) = t"
  "fst (fe_as_ctl f) = fe_control f" "snd (fe_as_ctl f) = (fe_ring f, fe_rest f)"
  "fst (fe_as_ring f) = fe_ring f" "snd (fe_as_ring f) = (fe_control f, fe_rest f)"
  "fe_control (fe_of_ctl s) = fst s" "fe_ring (fe_of_ctl s) = fst (snd s)" "fe_rest (fe_of_ctl s) = snd (snd s)"
  "fe_control (fe_of_ring t) = fst (snd t)" "fe_ring (fe_of_ring t) = fst t" "fe_rest (fe_of_ring t) = snd (snd t)"
  by (simp_all add: fe_of_ctl_def fe_as_ctl_def fe_of_ring_def fe_as_ring_def)

text \<open>
  Recomputing the interrupt changes nothing but the pending flag of the controller and the
  backend's environment; inside a controller operation it changes nothing at all.
\<close>

lemma update_pending_frame:
  obtains p e where "update_pending ops f = f\<lparr>fe_control := (fe_control f)\<lparr>ctl_pending := p\<rparr>,
     fe_rest := (fe_rest f)\<lparr>fe_env := e\<rparr>\<rparr>"
proof (cases "fe_control_busy (fe_rest f)")
  case True
  then show ?thesis using that [where p = "ctl_pending (fe_control f)" and e = "fe_env (fe_rest f)"] by (simp add: update_pending_def)
next
  case False
  then show ?thesis
    by (intro that [where p = "ctl_pending (fe_control (update_pending ops f))"
          and e = "fe_env (fe_rest (update_pending ops f))"], cases f)
       (simp add: update_pending_def nwoas_control_pending_def ctl_irq_update_def
        fe_irq_table_def fe_as_ctl_def fe_of_ctl_def fe_irq_def)
qed

lemma update_pending_busy: "fe_control_busy (fe_rest f) \<Longrightarrow> update_pending ops f = f"
  by (simp add: update_pending_def)

lemma fe_lift_frame:
  assumes "fe_lift g (r, c, x) = (v, s')"
  obtains e where "s' = (r, c, x\<lparr>fe_env := e\<rparr>)" and "g (fe_env x) = (v, e)"
  using assms by (auto simp: fe_lift_def Let_def split: prod.splits)

text \<open>
  What the ring's callbacks keep while the ring is served: the controller is \<open>c0\<close> up to its
  fatal status and pending flag, no controller operation is in progress, and a backend fault shows
  in CSTS.
\<close>

definition ctl_same :: "nwoas_control \<Rightarrow> nwoas_control \<Rightarrow> bool" where
  "ctl_same c0 c \<longleftrightarrow> (\<exists>p k. c = c0\<lparr>ctl_csts := k, ctl_pending := p\<rparr> \<and> k AND 1 = ctl_csts c0 AND 1)"

definition fe_good :: "nwoas_control \<Rightarrow> 'x fe_ring_env \<Rightarrow> bool" where
  "fe_good c0 e \<longleftrightarrow> ctl_same c0 (fst e) \<and> \<not> fe_control_busy (snd e) \<and> \<not> fe_full_reset (snd e) \<and>
     (fe_backend_fault (snd e) \<longrightarrow> ctl_csts (fst e) AND 2 \<noteq> 0)"

definition fe_faulted :: "'x fe_ring_env \<Rightarrow> bool" where
  "fe_faulted e \<longleftrightarrow> fe_backend_fault (snd e)"

lemma ctl_same_refl [simp]: "ctl_same c c"
  unfolding ctl_same_def by (rule exI [of _ "ctl_pending c"], rule exI [of _ "ctl_csts c"]) simp

lemma ctl_same_inv: "ctl_same c0 c \<Longrightarrow> ctl_inv c0 \<Longrightarrow> ctl_inv c"
  by (auto simp: ctl_same_def ctl_inv_def)

lemma ctl_same_pending [simp]: "ctl_same c0 (c\<lparr>ctl_pending := p\<rparr>) = ctl_same c0 c"
proof
  assume "ctl_same c0 (c\<lparr>ctl_pending := p\<rparr>)"
  then obtain q k where q: "c\<lparr>ctl_pending := p\<rparr> = c0\<lparr>ctl_csts := k, ctl_pending := q\<rparr>" "k AND 1 = ctl_csts c0 AND 1"
    by (auto simp: ctl_same_def)
  from arg_cong [OF q(1), of "ctl_pending_update (\<lambda>_. ctl_pending c)"]
  have "c = c0\<lparr>ctl_csts := k, ctl_pending := ctl_pending c\<rparr>" by simp
  then show "ctl_same c0 c" using q(2) unfolding ctl_same_def by blast
next
  assume "ctl_same c0 c"
  then show "ctl_same c0 (c\<lparr>ctl_pending := p\<rparr>)" by (auto simp: ctl_same_def) (rule exI, rule exI, rule conjI, rule refl, simp)
qed

lemma ctl_same_csts:
  assumes "ctl_same c0 c" and "k AND 1 = ctl_csts c AND 1"
  shows "ctl_same c0 (c\<lparr>ctl_csts := k\<rparr>)"
proof -
  obtain p j where c: "c = c0\<lparr>ctl_csts := j, ctl_pending := p\<rparr>" "j AND 1 = ctl_csts c0 AND 1"
    using assms(1) by (auto simp: ctl_same_def)
  have "c\<lparr>ctl_csts := k\<rparr> = c0\<lparr>ctl_csts := k, ctl_pending := p\<rparr>" unfolding c(1) by simp
  moreover have "k AND 1 = ctl_csts c0 AND 1" using assms(2) c by simp
  ultimately show ?thesis unfolding ctl_same_def by blast
qed

lemma csts_or_2: "(x OR 2) AND 2 \<noteq> (0 :: u32)"
proof -
  have "bit ((x OR 2) AND 2) 1" by (simp add: bit_simps)
  then show ?thesis by fastforce
qed

lemma fe_good_fault:
  "fe_good c0 (snd s) \<Longrightarrow> fst (fe_as_ring (nwoas_frontend_fault ops (fe_of_ring s))) = fst s \<and>
     fe_good c0 (snd (fe_as_ring (nwoas_frontend_fault ops (fe_of_ring s)))) \<and>
     fe_faulted (snd (fe_as_ring (nwoas_frontend_fault ops (fe_of_ring s))))"
  by (simp add: fe_good_def fe_faulted_def nwoas_frontend_fault_def ctl_same_csts csts_bit0 csts_or_2)

lemma fe_good_env [simp]: "fe_good c0 (c, x\<lparr>fe_env := e\<rparr>) = fe_good c0 (c, x)"
  "fe_good c0 (c\<lparr>ctl_pending := p\<rparr>, x) = fe_good c0 (c, x)" "fe_good c0 (c, x\<lparr>fe_io_pending := p\<rparr>) = fe_good c0 (c, x)"
  by (simp_all add: fe_good_def)

lemma fe_good_pending:
  assumes "fe_good c0 (snd s)"
  shows "fst (fe_as_ring (update_pending ops (fe_of_ring s))) = fst s \<and>
     fe_good c0 (snd (fe_as_ring (update_pending ops (fe_of_ring s))))"
proof (rule update_pending_frame [of ops "fe_of_ring s"])
  fix p e assume "update_pending ops (fe_of_ring s) = (fe_of_ring s)\<lparr>
      fe_control := (fe_control (fe_of_ring s))\<lparr>ctl_pending := p\<rparr>,
      fe_rest := (fe_rest (fe_of_ring s))\<lparr>fe_env := e\<rparr>\<rparr>"
  then show ?thesis using assms by (simp add: fe_as_ring_def)
qed

lemma fe_set_cache_good:
  assumes "fe_good c0 s"
  shows "fe_good c0 (snd (fe_set_cache ops sc v s))"
proof -
  obtain c x where s: "s = (c, x)" by fastforce
  obtain r e where r: "sc v (fe_env x) = (r, e)" by (metis surj_pair)
  show ?thesis
    using assms
    by (cases "r < 0") (simp_all add: s fe_set_cache_def r Let_def fe_good_def ctl_same_csts csts_bit0 csts_or_2)
qed

lemma fe_reconcile_good:
  assumes "fe_good c0 (snd s)" and "fe_reconcile ops m k s = (ok, s')"
  shows "fst s' = fst s \<and> fe_good c0 (snd s')"
proof -
  obtain r c x where s: "s = (r, c, x)" by (metis prod_cases3)
  obtain ok1 s1 where 1: "fe_lift (ops_reconcile ops m k) (r, c, x) = (ok1, s1)" by (metis surj_pair)
  obtain e where e: "s1 = (r, c, x\<lparr>fe_env := e\<rparr>)" using fe_lift_frame [OF 1] by blast
  define x1 where "x1 = (if k AND 2 \<noteq> 0 then x\<lparr>fe_env := e, fe_io_pending := False\<rparr> else x\<lparr>fe_env := e\<rparr>)"
  have g: "fe_good c0 (c, x1)" using assms(1) by (simp add: s x1_def fe_good_def)
  have "s' = s1 \<or> s' = fe_as_ring (update_pending ops (fe_of_ring (r, c, x1)))"
    using assms(2) 1 e by (auto simp: s fe_reconcile_def x1_def Let_def split: if_splits)
  then show ?thesis
    using assms(1) g fe_good_pending [of c0 "(r, c, x1)" ops] by (auto simp: s e)
qed

lemma fe_read_memory_frame:
  assumes "fe_good c0 (snd s)" and "fe_read_memory ops a n s = (b, s')"
  shows "fst s' = fst s \<and> fe_good c0 (snd s') \<and> (case b of None \<Rightarrow> True | Some d \<Rightarrow> length d = unat n)"
proof -
  obtain r c x where s: "s = (r, c, x)" by (metis prod_cases3)
  obtain d s1 where 1: "fe_lift (ops_read ops a n) (r, c, x) = (d, s1)" by (metis surj_pair)
  obtain e where "s1 = (r, c, x\<lparr>fe_env := e\<rparr>)" using fe_lift_frame [OF 1] by blast
  then show ?thesis
    using assms 1 by (cases d) (auto simp: s fe_read_memory_def split: if_splits)
qed

lemma fe_write_memory_frame:
  assumes "fe_good c0 (snd s)" and "fe_write_memory ops a d s = (ok, s')"
  shows "fst s' = fst s \<and> fe_good c0 (snd s')"
proof -
  obtain r c x where s: "s = (r, c, x)" by (metis prod_cases3)
  obtain ok1 s1 where 1: "fe_lift (ops_write ops a d) (r, c, x) = (ok1, s1)" by (metis surj_pair)
  obtain e where "s1 = (r, c, x\<lparr>fe_env := e\<rparr>)" using fe_lift_frame [OF 1] by blast
  then show ?thesis using assms 1 by (auto simp: s fe_write_memory_def split: if_splits)
qed

interpretation fe_ring_cb: ring_callbacks "fe_ring_table ops" "fe_admin_table ops" "fe_good c0" fe_faulted for ops c0
proof unfold_locales
  fix s a n b s'
  assume "fe_good c0 (snd s)" and "rcb_read (fe_ring_table ops) a n s = (b, s')"
  then show "fst s' = fst s \<and> fe_good c0 (snd s') \<and> (case b of None \<Rightarrow> True | Some d \<Rightarrow> length d = unat n)"
    using fe_read_memory_frame by (simp add: fe_ring_table_def)
next
  fix s a d ok s'
  assume "fe_good c0 (snd s)" and "rcb_write (fe_ring_table ops) a d s = (ok, s')"
  then show "fst s' = fst s \<and> fe_good c0 (snd s')"
    using fe_write_memory_frame by (simp add: fe_ring_table_def)
next
  fix s :: "'a fe_ring_env ring_state" assume "fe_good c0 (snd s)"
  then show "fst (rcb_barrier (fe_ring_table ops) s) = fst s \<and> fe_good c0 (snd (rcb_barrier (fe_ring_table ops) s))"
    by (cases s) (auto simp: fe_ring_table_def fe_lift_def)
next
  fix s m k ok s'
  assume "fe_good c0 (snd s)" and "rcb_reconcile (fe_ring_table ops) m k s = (ok, s')"
  then show "fst s' = fst s \<and> fe_good c0 (snd s')"
    using fe_reconcile_good by (simp add: fe_ring_table_def) blast
next
  fix s v assume "fe_good c0 (snd (s :: 'a fe_ring_env ring_state))"
  then show "fst (rcb_pending (fe_ring_table ops) v s) = fst s \<and> fe_good c0 (snd (rcb_pending (fe_ring_table ops) v s))"
    using fe_good_pending by (simp add: fe_ring_table_def)
next
  fix s assume "fe_good c0 (snd (s :: 'a fe_ring_env ring_state))"
  then show "fst (rcb_fault (fe_ring_table ops) s) = fst s \<and> fe_good c0 (snd (rcb_fault (fe_ring_table ops) s)) \<and>
      fe_faulted (snd (rcb_fault (fe_ring_table ops) s))"
    using fe_good_fault by (simp add: fe_ring_table_def)
next
  fix f e v assume "acb_set_cache (fe_admin_table ops) = Some f" "fe_good c0 (e :: 'a fe_ring_env)"
  then show "fe_good c0 (snd (f v e))" using fe_set_cache_good [of c0 e] by (auto simp: fe_admin_table_def)
next
  fix g e assume g: "acb_get_cache (fe_admin_table ops) = Some g" "fe_good c0 (e :: 'a fe_ring_env)"
  then show "fe_good c0 (snd (g e))"
    by (cases e) (auto simp: fe_admin_table_def split: prod.splits)
qed

text \<open>
  Inside a controller operation the busy flag silences the pending callback, so resetting or
  configuring the ring touches the ring alone.
\<close>

lemma ring_ops_busy:
  assumes "fe_control_busy x"
  shows "snd (nwoas_ring_reset (fe_ring_table ops) full (r, c, x)) = (c, x)"
    and "snd (snd (nwoas_ring_configure (fe_ring_table ops) sq ns cq nc (r, c, x))) = (c, x)"
  using assms by (simp_all add: nwoas_ring_reset_def nwoas_ring_configure_def fe_ring_table_def
      update_pending_busy)

definition fe_held :: "'x fe_ring_env \<Rightarrow> bool" where
  "fe_held e \<longleftrightarrow> fe_control_busy (snd e)"

lemma fe_held_lift: "fe_held (snd s) \<Longrightarrow> fe_lift g s = (v, s') \<Longrightarrow> fst s' = fst s \<and> fe_held (snd s')"
  by (cases s) (auto simp: fe_lift_def fe_held_def split: prod.splits)

lemma fe_held_reconcile:
  assumes "fe_held (snd s)" and "fe_reconcile ops m k s = (ok, s')"
  shows "fst s' = fst s \<and> fe_held (snd s')"
proof -
  obtain ok1 r c x where 1: "fe_lift (ops_reconcile ops m k) s = (ok1, r, c, x)" by (metis prod_cases4)
  have h: "fst s = r" "fe_control_busy x" using fe_held_lift [OF assms(1) 1] by (simp_all add: fe_held_def)
  then show ?thesis
    using assms(2) unfolding fe_reconcile_def 1 by (auto simp: fe_held_def update_pending_busy Let_def split: if_splits)
qed

interpretation fe_held_cb: ring_callbacks "fe_ring_table ops" "fe_admin_table ops" fe_held fe_faulted for ops
proof unfold_locales
  fix s :: "'a fe_ring_env ring_state" and a n b s'
  assume "fe_held (snd s)" "rcb_read (fe_ring_table ops) a n s = (b, s')"
  then show "fst s' = fst s \<and> fe_held (snd s') \<and> (case b of None \<Rightarrow> True | Some d \<Rightarrow> length d = unat n)"
    using fe_held_lift [of s "ops_read ops a n"]
    by (auto simp: fe_ring_table_def fe_read_memory_def split: if_splits prod.splits option.splits)
next
  fix s :: "'a fe_ring_env ring_state" and a d ok s'
  assume "fe_held (snd s)" "rcb_write (fe_ring_table ops) a d s = (ok, s')"
  then show "fst s' = fst s \<and> fe_held (snd s')"
    using fe_held_lift [of s "ops_write ops a d"]
    by (auto simp: fe_ring_table_def fe_write_memory_def split: if_splits)
next
  fix s :: "'a fe_ring_env ring_state" assume "fe_held (snd s)"
  then show "fst (rcb_barrier (fe_ring_table ops) s) = fst s \<and> fe_held (snd (rcb_barrier (fe_ring_table ops) s))"
    by (cases s) (simp add: fe_ring_table_def fe_lift_def fe_held_def)
next
  fix s :: "'a fe_ring_env ring_state" and m k ok s'
  assume "fe_held (snd s)" "rcb_reconcile (fe_ring_table ops) m k s = (ok, s')"
  then show "fst s' = fst s \<and> fe_held (snd s')" using fe_held_reconcile [of s] by (simp add: fe_ring_table_def)
next
  fix s :: "'a fe_ring_env ring_state" and v assume "fe_held (snd s)"
  then show "fst (rcb_pending (fe_ring_table ops) v s) = fst s \<and> fe_held (snd (rcb_pending (fe_ring_table ops) v s))"
    by (simp add: fe_ring_table_def fe_held_def update_pending_busy)
next
  fix s :: "'a fe_ring_env ring_state" assume "fe_held (snd s)"
  then show "fst (rcb_fault (fe_ring_table ops) s) = fst s \<and> fe_held (snd (rcb_fault (fe_ring_table ops) s)) \<and>
      fe_faulted (snd (rcb_fault (fe_ring_table ops) s))"
    by (simp add: fe_ring_table_def fe_held_def fe_faulted_def nwoas_frontend_fault_def)
next
  fix f v and e :: "'a fe_ring_env" assume "acb_set_cache (fe_admin_table ops) = Some f" "fe_held e"
  then show "fe_held (snd (f v e))"
    by (cases e) (auto simp: fe_admin_table_def fe_set_cache_def fe_held_def Let_def split: prod.splits)
next
  fix g and e :: "'a fe_ring_env" assume "acb_get_cache (fe_admin_table ops) = Some g" "fe_held e"
  then show "fe_held (snd (g e))"
    by (cases e) (auto simp: fe_admin_table_def fe_held_def split: prod.splits)
qed

text \<open>The controller's view: its environment is the ring and the rest of the frontend.\<close>

definition fe_quiet :: "bool \<Rightarrow> 'x fe_ctl_env \<Rightarrow> bool" where
  "fe_quiet full e \<longleftrightarrow> fe_control_busy (snd e) \<and> fe_full_reset (snd e) = full \<and> ring_inv (fst e) \<and> (rng_fatal (fst e) \<longrightarrow> fe_backend_fault (snd e))"

definition fe_linked :: "u64 \<Rightarrow> u16 \<Rightarrow> u64 \<Rightarrow> u16 \<Rightarrow> 'x fe_ctl_env \<Rightarrow> bool" where
  "fe_linked sq ns cq nc e \<longleftrightarrow> ring_geom (fst e) = (True, sq, ns, cq, nc)"

lemma fe_reset_cb_quiet:
  assumes "fe_quiet full (snd s)"
  shows "fst (fe_reset_cb ops s) = fst s \<and> fe_quiet full (snd (fe_reset_cb ops s))"
proof -
  obtain c r x where s: "s = (c, r, x)" by (metis prod_cases3)
  obtain ok e where o: "ops_reset_io ops (fe_env x) = (ok, e)" by (metis surj_pair)
  define x1 where "x1 = x\<lparr>fe_env := e, fe_io_pending := False, fe_backend_fault := \<not> ok\<rparr>"
  have b: "fe_control_busy x1" "ring_inv r" "fe_full_reset x1 = full" "fe_full_reset x = full" using assms by (simp_all add: s x1_def fe_quiet_def)
  have "fe_held (snd (r, c, x1))" using b by (simp add: fe_held_def)
  note i = fe_held_cb.reset_inv [OF this, of ops full]
  show ?thesis
    using ring_ops_busy(1) [OF b(1), of ops full r c] i b
    by (simp add: s fe_reset_cb_def o x1_def [symmetric] fe_as_ctl_def fe_of_ring_def fe_quiet_def)
qed

lemma fe_setup_cb_quiet:
  assumes "fe_quiet full (snd s)" and "fe_setup_cb ops a na b nb s = (ok, s')"
  shows "fst s' = fst s \<and> fe_quiet full (snd s') \<and> (ok \<longrightarrow> fe_linked a na b nb (snd s'))"
proof -
  obtain c r x where s: "s = (c, r, x)" by (metis prod_cases3)
  obtain k s1 where 1: "nwoas_ring_configure (fe_ring_table ops) a na b nb (r, c, x) = (k, s1)" by (metis surj_pair)
  have q: "fe_control_busy x" "ring_inv r" using assms(1) by (simp_all add: s fe_quiet_def)
  have "fe_held (snd (r, c, x))" using q by (simp add: fe_held_def)
  note i = fe_held_cb.configure_inv [OF this _ 1]
  have z: "snd s1 = (c, x)" using ring_ops_busy(2) [OF q(1), of ops a na b nb r c] 1 by simp
  show ?thesis
    using assms i q z unfolding s fe_setup_cb_def prod.case 1 Let_def
    by (auto simp: fe_quiet_def fe_linked_def fe_as_ctl_def fe_of_ring_def ring_geom_def split: if_splits)
qed

interpretation fe_ctl_cb: control_callbacks "fe_ctl_table ops" "fe_quiet full" fe_linked for ops full
proof unfold_locales
  fix fr and s :: "'a fe_ctl_env ctl_state" assume "ccb_reset (fe_ctl_table ops) = Some fr" "fe_quiet full (snd s)"
  then show "fst (fr s) = fst s \<and> fe_quiet full (snd (fr s))"
    using fe_reset_cb_quiet [of full s] by (auto simp: fe_ctl_table_def)
next
  fix fs a na b nb ok s' and s :: "'a fe_ctl_env ctl_state"
  assume "ccb_setup (fe_ctl_table ops) = Some fs" "fe_quiet full (snd s)" "fs a na b nb s = (ok, s')"
  then show "fst s' = fst s \<and> fe_quiet full (snd s') \<and> (ok \<longrightarrow> fe_linked a na b nb (snd s'))"
    using fe_setup_cb_quiet [of full s ops a na b nb ok s'] by (simp add: fe_ctl_table_def)
next
  fix ff a na b nb ok s' and s :: "'a fe_ctl_env ctl_state"
  assume "ccb_flush (fe_ctl_table ops) = Some ff" "fe_quiet full (snd s)" "ff s = (ok, s')"
  then show "fst s' = fst s \<and> fe_quiet full (snd s') \<and> (fe_linked a na b nb (snd s) \<longrightarrow> fe_linked a na b nb (snd s'))"
    by (auto simp: fe_ctl_table_def fe_quiet_def fe_linked_def split: prod.splits)
next
  fix fi a na b nb l and s :: "'a fe_ctl_env ctl_state"
  assume "ccb_irq (fe_ctl_table ops) = Some fi" "fe_quiet full (snd s)"
  then show "fst (fi l s) = fst s \<and> fe_quiet full (snd (fi l s)) \<and>
      (fe_linked a na b nb (snd s) \<longrightarrow> fe_linked a na b nb (snd (fi l s)))"
    by (cases s) (auto simp: fe_ctl_table_def fe_irq_def fe_quiet_def fe_linked_def)
qed


section \<open>The frontend invariant\<close>

text \<open>
  Between operations: the registers and the ring are well formed, a backend fault or a fatal ring
  shows as controller fatal status, and a ready controller drives a ring configured with exactly
  the queues its registers name.
\<close>

definition fe_inv :: "'x nwoas_frontend \<Rightarrow> bool" where
  "fe_inv f \<longleftrightarrow>
     ctl_inv (fe_control f) \<and> ring_inv (fe_ring f) \<and> \<not> fe_control_busy (fe_rest f) \<and>
     \<not> fe_full_reset (fe_rest f) \<and> (rng_fatal (fe_ring f) \<longrightarrow> fe_backend_fault (fe_rest f)) \<and>
     (fe_backend_fault (fe_rest f) \<longrightarrow> ctl_csts (fe_control f) AND 2 \<noteq> 0) \<and>
     (ctl_csts (fe_control f) AND 1 \<noteq> 0 \<longrightarrow>
        ring_geom (fe_ring f) = (True, ctl_asq (fe_control f), ctl_sq_depth (ctl_aqa (fe_control f)),
                                 ctl_acq (fe_control f), ctl_cq_depth (ctl_aqa (fe_control f))))"

lemma update_pending_inv: "fe_inv f \<Longrightarrow> fe_inv (update_pending ops f)"
  by (rule update_pending_frame [of ops f]) (simp add: fe_inv_def)

lemma fault_inv: "fe_inv f \<Longrightarrow> fe_inv (nwoas_frontend_fault ops f)"
  by (simp add: fe_inv_def nwoas_frontend_fault_def ctl_inv_def csts_bit0 csts_or_2)

text \<open>Leaving a controller operation: the pending recomputation and the reapplied fault close the invariant.\<close>

lemma control_exit_inv:
  assumes "fe_ctl_cb.linv full s"
  shows "fe_inv (fe_refault ops (update_pending ops (fe_full False (fe_busy False (fe_of_ctl s)))))"
proof -
  define f where "f = fe_full False (fe_busy False (fe_of_ctl s))"
  have f: "ctl_inv (fe_control f)" "ring_inv (fe_ring f)" "\<not> fe_control_busy (fe_rest f)" "\<not> fe_full_reset (fe_rest f)"
    "rng_fatal (fe_ring f) \<longrightarrow> fe_backend_fault (fe_rest f)"
    "ctl_csts (fe_control f) AND 1 \<noteq> 0 \<longrightarrow>
        ring_geom (fe_ring f) = (True, ctl_asq (fe_control f), ctl_sq_depth (ctl_aqa (fe_control f)),
                                 ctl_acq (fe_control f), ctl_cq_depth (ctl_aqa (fe_control f)))"
    using assms by (simp_all add: f_def fe_full_def fe_busy_def fe_ctl_cb.linv_def fe_quiet_def fe_linked_def)
  obtain p e where u: "update_pending ops f = f\<lparr>fe_control := (fe_control f)\<lparr>ctl_pending := p\<rparr>,
     fe_rest := (fe_rest f)\<lparr>fe_env := e\<rparr>\<rparr>" by (rule update_pending_frame)
  show ?thesis
  proof (cases "fe_backend_fault (fe_rest f)")
    case True
    have "ctl_inv ((fe_control f)\<lparr>ctl_pending := p, ctl_csts := ctl_csts (fe_control f) OR 2\<rparr>)"
      using f(1) by (intro ctl_inv_csts) (simp_all add: csts_bit0)
    then show ?thesis
      unfolding f_def [symmetric] u using True f(2-)
      by (simp add: fe_inv_def fe_refault_def nwoas_frontend_fault_def csts_bit0 csts_or_2)
  next
    case False
    then show ?thesis unfolding f_def [symmetric] u using f by (simp add: fe_inv_def fe_refault_def)
  qed
qed

lemma control_enter:
  assumes "fe_inv f"
  shows "fe_ctl_cb.linv full (fe_as_ctl (fe_busy True (fe_full full f)))"
  using assms by (simp add: fe_inv_def fe_ctl_cb.linv_def fe_quiet_def fe_linked_def fe_busy_def fe_full_def fe_as_ctl_def)

lemma fe_full_idle: "fe_inv f \<Longrightarrow> fe_full False f = f"
  by (simp add: fe_full_def fe_inv_def)

lemma fe_full_busy [simp]:
  "fe_full_reset (fe_rest (fe_full b f)) = b" "fe_full_reset (fe_rest (fe_busy b' f)) = fe_full_reset (fe_rest f)"
  by (simp_all add: fe_full_def fe_busy_def)

lemma frontend_reset_inv:
  assumes "fe_inv f"
  shows "fe_inv (nwoas_frontend_reset ops f)"
proof -
  note e = control_enter [OF assms, of True]
  have "fe_ctl_cb.linv True (nwoas_control_reset (fe_ctl_table ops) (fe_as_ctl (fe_busy True (fe_full True f))))"
    using e by (intro fe_ctl_cb.control_reset_inv) (simp_all add: fe_ctl_cb.linv_def ctl_inv_def)
  from control_exit_inv [OF this, of ops] show ?thesis by (simp add: nwoas_frontend_reset_def Let_def)
qed

lemma frontend_io_pending_inv: "fe_inv f \<Longrightarrow> fe_inv (nwoas_frontend_io_pending ops v f)"
  unfolding nwoas_frontend_io_pending_def Let_def by (rule update_pending_inv) (simp add: fe_inv_def)

text \<open>Serving the ring from a well-formed frontend.\<close>

lemma ring_served_inv:
  assumes "fe_inv f" and "fe_good (fe_control f) (snd s)" and "ring_inv (fst s)"
    and "ring_geom (fst s) = ring_geom (fe_ring f)"
    and "rng_fatal (fst s) \<longrightarrow> fe_faulted (snd s)"
  shows "fe_inv (fe_of_ring s)"
proof -
  obtain r c x where s: "s = (r, c, x)" by (metis prod_cases3)
  have g: "ctl_same (fe_control f) c" using assms(2) by (simp add: s fe_good_def)
  have "ctl_inv c" using ctl_same_inv [OF g] assms(1) by (simp add: fe_inv_def)
  moreover have "ctl_csts c AND 1 = ctl_csts (fe_control f) AND 1" "ctl_asq c = ctl_asq (fe_control f)"
    "ctl_acq c = ctl_acq (fe_control f)" "ctl_aqa c = ctl_aqa (fe_control f)"
    using g by (auto simp: ctl_same_def)
  ultimately show ?thesis
    using assms by (simp add: s fe_inv_def fe_good_def fe_faulted_def)
qed

lemma fe_good_start: "fe_inv f \<Longrightarrow> fe_good (fe_control f) (snd (fe_as_ring f)) \<and> ring_inv (fst (fe_as_ring f))"
  by (simp add: fe_inv_def fe_good_def)

lemma frontend_poll_inv:
  assumes "fe_inv f" and "nwoas_frontend_poll ops budget f = (n, f')"
  shows "fe_inv f' \<and> n \<le> int budget"
proof -
  obtain c s where p: "nwoas_ring_poll (fe_ring_table ops) (fe_admin_table ops) budget (fe_as_ring f) = (c, s)"
    by (metis surj_pair)
  note i = fe_ring_cb.poll_inv [OF fe_good_start [OF assms(1), THEN conjunct1] fe_good_start [OF assms(1), THEN conjunct2] p]
  have "rng_fatal (fst s) \<longrightarrow> fe_faulted (snd s)"
    using i assms(1) by (auto simp: fe_inv_def fe_faulted_def)
  then have "fe_inv (fe_of_ring s)" using i by (intro ring_served_inv [OF assms(1)]) simp_all
  then show ?thesis
    using assms i p unfolding nwoas_frontend_poll_def by (auto split: if_splits)
qed

lemma fe_doorbell_inv:
  assumes "fe_inv f" and "fe_doorbell ops off v f = (a, f')"
  shows "fe_inv f'"
proof -
  note g = fe_good_start [OF assms(1), THEN conjunct1] fe_good_start [OF assms(1), THEN conjunct2]
  obtain c1 s1 where 1: "nwoas_ring_tail (fe_ring_table ops) (fe_admin_table ops) (ucast v) (fe_as_ring f) = (c1, s1)"
    by (metis surj_pair)
  obtain c2 s2 where 2: "nwoas_ring_ack (fe_ring_table ops) (ucast v) (fe_as_ring f) = (c2, s2)" by (metis surj_pair)
  note t = fe_ring_cb.tail_inv [OF g 1] and k = fe_ring_cb.ack_inv [OF g 2]
  have "rng_fatal (fst s1) \<longrightarrow> fe_faulted (snd s1)" "rng_fatal (fst s2) \<longrightarrow> fe_faulted (snd s2)"
    using t k assms(1) by (auto simp: fe_inv_def fe_faulted_def)
  then have "fe_inv (fe_of_ring s1)" "fe_inv (fe_of_ring s2)"
    using t k by (auto intro!: ring_served_inv [OF assms(1)])
  then show ?thesis using assms unfolding fe_doorbell_def 1 2 by (auto split: if_splits)
qed

lemma refault_inv: "fe_inv f \<Longrightarrow> fe_inv (fe_refault ops f)"
  by (simp add: fe_refault_def fault_inv)

lemma reg_write_not_handled: "nwoas_reg_write cb off w v s = (NWOAS_NOT_HANDLED, s') \<Longrightarrow> s' = s"
  unfolding nwoas_reg_write_def Let_def ctl_write_cc_def ctl_shutdown_def
  by (auto split: if_splits prod.splits bool.splits)

lemma frontend_write_inv:
  assumes "fe_inv f" and "nwoas_frontend_write ops pci off w v f = (a, f')"
  shows "fe_inv f'"
proof -
  define s0 where "s0 = fe_as_ctl (fe_busy True f)"
  obtain res s where r: "(if pci then nwoas_pci_write (fe_ctl_table ops) off w v s0
      else nwoas_reg_write (fe_ctl_table ops) off w v s0) = (res, s)" by (metis surj_pair)
  have l0: "fe_ctl_cb.linv False s0"
    using control_enter [OF assms(1), of False] fe_full_idle [OF assms(1)] by (simp add: s0_def)
  have l: "fe_ctl_cb.linv False s"
    using r fe_ctl_cb.pci_write_inv [OF l0] fe_ctl_cb.reg_write_inv [OF l0] by (auto split: if_splits)
  define f1 where "f1 = update_pending ops (fe_busy False (fe_of_ctl s))"
  have "fe_full False (fe_busy False (fe_of_ctl s)) = fe_busy False (fe_of_ctl s)"
    using l by (simp add: fe_full_def fe_busy_def fe_ctl_cb.linv_def fe_quiet_def)
  then have i1: "fe_inv (fe_refault ops f1)" using control_exit_inv [OF l, of ops] by (simp add: f1_def)
  have i2: "fe_inv f1" if "\<not> pci" "res = NWOAS_NOT_HANDLED"
  proof -
    have "s = s0" using r that reg_write_not_handled by (metis (full_types))
    then have "fe_busy False (fe_of_ctl s) = f" using assms(1) by (simp add: s0_def fe_busy_def fe_inv_def)
    then show ?thesis using assms(1) by (simp add: f1_def update_pending_inv)
  qed
  obtain a2 f2 where d: "fe_doorbell ops off v f1 = (a2, f2)" by (metis surj_pair)
  show ?thesis
    using assms(2) i1 i2 refault_inv [OF fe_doorbell_inv [OF _ d], of ops]
    unfolding nwoas_frontend_write_def s0_def [symmetric] r prod.case Let_def f1_def [symmetric] d
    by (auto split: if_splits)
qed

lemma ring_init_inv:
  assumes "nwoas_ring_init (Some cb) ac p (Some r0) = (True, Some r)" and "length (rng_payload r0) = 4096"
  shows "ring_inv r \<and> \<not> rng_fatal r"
  using assms adm_init_inv by (auto simp: nwoas_ring_init_def ring_inv_def ring_cleared_def split: if_splits)

lemma frontend_init_inv:
  assumes "nwoas_frontend_init (Some ops) bar policy (Some f0) = (True, Some f)"
    and "length (rng_payload (fe_ring f0)) = 4096"
  shows "fe_inv f"
proof -
  define f1 where "f1 = f0\<lparr>fe_rest := (fe_rest f0)\<lparr>fe_io_pending := False, fe_backend_fault := False,
                                              fe_full_reset := False, fe_control_busy := False\<rparr>\<rparr>"
  obtain ok r where r: "nwoas_ring_init (Some (fe_ring_table ops)) (fe_admin_table ops) policy (Some (fe_ring f1)) = (ok, r)"
    by (metis surj_pair)
  define f2 where "f2 = fe_busy True (f1\<lparr>fe_ring := the r\<rparr>)"
  define s where "s = nwoas_control_init bar (fe_ctl_table ops) (fe_as_ctl f2)"
  have o: "ok" "f = fe_refault ops (update_pending ops (fe_busy False (fe_of_ctl s)))"
    using assms(1) unfolding nwoas_frontend_init_def option.case prod.case f1_def [symmetric] Let_def r
      f2_def [symmetric] s_def [symmetric] by (simp_all split: if_splits)
  obtain r1 where r1: "r = Some r1" using r o(1) by (auto simp: nwoas_ring_init_def split: if_splits)
  have i: "ring_inv r1 \<and> \<not> rng_fatal r1"
    using r o(1) r1 assms(2) by (intro ring_init_inv) (simp_all add: f1_def)
  have l: "fe_ctl_cb.linv False s"
    unfolding s_def nwoas_control_init_def using i r1
    by (intro fe_ctl_cb.control_reset_inv) (simp_all add: f2_def f1_def fe_busy_def fe_quiet_def)
  then have "fe_full False (fe_busy False (fe_of_ctl s)) = fe_busy False (fe_of_ctl s)"
    by (simp add: fe_full_def fe_busy_def fe_ctl_cb.linv_def fe_quiet_def)
  then show ?thesis using control_exit_inv [OF l, of ops] o(2) by simp
qed

text \<open>The states the frontend goes through: initialisation, then any sequence of its operations.\<close>

inductive fe_reach :: "'x nwoas_frontend_ops \<Rightarrow> 'x nwoas_frontend \<Rightarrow> bool" for ops where
  init: "nwoas_frontend_init (Some ops) bar policy (Some f0) = (True, Some f) \<Longrightarrow>
           length (rng_payload (fe_ring f0)) = 4096 \<Longrightarrow> fe_reach ops f"
| reset: "fe_reach ops f \<Longrightarrow> fe_reach ops (nwoas_frontend_reset ops f)"
| fault: "fe_reach ops f \<Longrightarrow> fe_reach ops (nwoas_frontend_fault ops f)"
| io: "fe_reach ops f \<Longrightarrow> fe_reach ops (nwoas_frontend_io_pending ops v f)"
| wr: "fe_reach ops f \<Longrightarrow> nwoas_frontend_write ops pci off w v f = (a, f') \<Longrightarrow> fe_reach ops f'"
| poll: "fe_reach ops f \<Longrightarrow> nwoas_frontend_poll ops budget f = (n, f') \<Longrightarrow> fe_reach ops f'"

lemma fe_reach_inv: "fe_reach ops f \<Longrightarrow> fe_inv f"
  by (induction rule: fe_reach.induct)
     (auto intro: frontend_init_inv frontend_reset_inv fault_inv frontend_io_pending_inv frontend_write_inv
        dest: frontend_poll_inv)

end
