(* ===== verification/Nvme_Properties.thy ===== *)
theory Nvme_Properties
  imports Nvme_Frontend
begin

text \<open>
  The properties of the synthetic NVMe function as a whole, from its registers to the admin ring.
  The demonstration backend at the start accepts every address and answers every fetch with an
  Abort command; it serves the witnesses only.
\<close>

definition demo_ops :: "bool list nwoas_frontend_ops" where
  "demo_ops = \<lparr>ops_contains = (\<lambda>x a n. True), ops_read = (\<lambda>a n x. (Some (\<lambda>i. if i = 0 then 8 else 0), x)),
     ops_write = (\<lambda>a d x. (True, x)), ops_barrier = (\<lambda>x. x), ops_reconcile = (\<lambda>m k x. (True, x)),
     ops_reset_io = (\<lambda>x. (True, x)), ops_flush = (\<lambda>x. (True, x)), ops_set_cache = None, ops_get_cache = None,
     ops_irq = (\<lambda>v x. x @ [v])\<rparr>"

definition demo_policy :: nwoas_identity_policy where
  "demo_policy = \<lparr>pol_primary_lbas = 1000, pol_link_lbas = 0, pol_mdts = 5, pol_paired = False,
     pol_primary_readonly = True, pol_volatile_cache = False\<rparr>"

definition demo_ring :: "bytes \<Rightarrow> nwoas_admin_ring" where
  "demo_ring pl = \<lparr>rng_policy = demo_policy, rng_admin = \<lparr>adm_sq = clear_queue, adm_cq = clear_queue,
       adm_features = replicate 12 0, adm_sq_generation = 0, adm_cq_generation = 0, adm_aer_cid = 0, adm_aer_present = False\<rparr>,
     rng_sq_base = 0, rng_cq_base = 0, rng_lifecycle = 0, rng_sq_depth = 0, rng_cq_depth = 0, rng_sq_head = 0,
     rng_sq_tail = 0, rng_cq_head = 0, rng_cq_tail = 0, rng_pending = 0, rng_phase = 0, rng_active = False,
     rng_fatal = False, rng_command = replicate 64 0, rng_payload = pl, rng_completion = replicate 16 0\<rparr>"

definition demo_control :: nwoas_control where
  "demo_control = \<lparr>ctl_bar = 0, ctl_asq = 0, ctl_acq = 0, ctl_cc = 0, ctl_csts = 0, ctl_aqa = 0, ctl_mask = 0,
     ctl_command = 0, ctl_probe_low = False, ctl_probe_high = False, ctl_pending = False\<rparr>"

definition demo_raw :: "bytes \<Rightarrow> bool list nwoas_frontend" where
  "demo_raw pl = \<lparr>fe_control = demo_control, fe_ring = demo_ring pl, fe_rest = \<lparr>fe_env = [], fe_io_pending = False,
     fe_backend_fault = False, fe_full_reset = False, fe_control_busy = False\<rparr>\<rparr>"

definition demo_frontend :: "bytes \<Rightarrow> bool list nwoas_frontend" where
  "demo_frontend pl = the (snd (nwoas_frontend_init (Some demo_ops) 0x10000 demo_policy (Some (demo_raw pl))))"

definition demo_w :: "u32 \<Rightarrow> u64 \<Rightarrow> bool list nwoas_frontend \<Rightarrow> bool list nwoas_frontend" where
  "demo_w off v f = snd (nwoas_frontend_write demo_ops False off 32 v f)"

definition demo_ready :: "bytes \<Rightarrow> bool list nwoas_frontend" where
  "demo_ready pl = demo_w 0x14 0x460001 (demo_w 0x34 0 (demo_w 0x30 0x3000 (demo_w 0x28 0x2000 (demo_w 0x24 0x30003 (demo_frontend pl)))))"

definition demo_create_cq :: bytes where
  "demo_create_cq = (replicate 64 0)[0 := 5, 25 := 0x40, 40 := 1, 42 := 7, 44 := 1]"

section \<open>Demonstration runs\<close>

lemma demo_init: "fst (nwoas_frontend_init (Some demo_ops) 0x10000 demo_policy (Some (demo_raw pl)))"
  by code_simp

lemma demo_frontend_reach: "length pl = 4096 \<Longrightarrow> fe_reach demo_ops (demo_frontend pl)"
proof -
  assume l: "length pl = 4096"
  obtain b f where f: "nwoas_frontend_init (Some demo_ops) 0x10000 demo_policy (Some (demo_raw pl)) = (b, f)" by (metis surj_pair)
  have b: "b" using demo_init [of pl] f by simp
  then obtain g where g: "f = Some g"
    using f by (auto simp: nwoas_frontend_init_def Let_def split: if_splits option.splits prod.splits)
  show ?thesis
    using fe_reach.init [of demo_ops "0x10000" demo_policy "demo_raw pl" g] f b g l
    by (simp add: demo_frontend_def demo_raw_def demo_ring_def)
qed

lemma demo_w_reach: "fe_reach demo_ops f \<Longrightarrow> fe_reach demo_ops (demo_w off v f)"
  unfolding demo_w_def by (erule fe_reach.wr) (rule surjective_pairing)

lemma demo_ready_reach: "fe_reach demo_ops (demo_ready (replicate 4096 0))"
  unfolding demo_ready_def by (intro demo_w_reach demo_frontend_reach) simp

lemma demo_csts: "ctl_csts (fe_control (demo_ready pl)) = 1" "ctl_asq (fe_control (demo_ready pl)) = 0x2000"
  by code_simp+

section \<open>The frontend\<close>

text \<open>
  C11. In every state the frontend can reach, a ready controller (CSTS.RDY) is enabled and drives an
  active admin ring whose queue bases and depths are exactly those of the registers ASQ, ACQ and
  AQA; the ring satisfies its invariant; a failed ring or a backend fault shows as controller
  fatal status (CSTS.CFS); no operation leaves the busy or full-reset flag behind.
\<close>

theorem frontend_reachable:
  assumes "fe_reach ops f"
  shows "(ctl_csts (fe_control f) AND 1 \<noteq> 0 \<longrightarrow>
       ctl_cc (fe_control f) AND 1 \<noteq> 0 \<and> rng_active (fe_ring f) \<and>
       rng_sq_base (fe_ring f) = ctl_asq (fe_control f) \<and> rng_cq_base (fe_ring f) = ctl_acq (fe_control f) \<and>
       rng_sq_depth (fe_ring f) = ctl_sq_depth (ctl_aqa (fe_control f)) \<and>
       rng_cq_depth (fe_ring f) = ctl_cq_depth (ctl_aqa (fe_control f))) \<and>
     ring_inv (fe_ring f) \<and>
     (rng_fatal (fe_ring f) \<or> fe_backend_fault (fe_rest f) \<longrightarrow> ctl_csts (fe_control f) AND 2 \<noteq> 0) \<and>
     \<not> fe_control_busy (fe_rest f) \<and> \<not> fe_full_reset (fe_rest f)"
  using fe_reach_inv [OF assms] by (auto simp: fe_inv_def ctl_inv_def ring_geom_def)

theorem frontend_reachable_witness:
  "fe_reach demo_ops (demo_ready (replicate 4096 0)) \<and> ctl_csts (fe_control (demo_ready (replicate 4096 0))) AND 1 \<noteq> 0 \<and>
   rng_sq_base (fe_ring (demo_ready (replicate 4096 0))) = 0x2000"
  using frontend_reachable [OF demo_ready_reach] demo_ready_reach
  by (simp add: demo_csts)

text \<open>
  C26. Faults are latched: after a ring failure or a backend fault, polling serves nothing, and a
  write to any doorbell leaves the ring and the status register unchanged, with CSTS.CFS still
  set.
\<close>

theorem frontend_fault_latched:
  assumes "fe_reach ops f" and "rng_fatal (fe_ring f) \<or> fe_backend_fault (fe_rest f)"
    and "0x1000 \<le> off" and "nwoas_frontend_write ops False off w v f = (a, f')"
  shows "nwoas_frontend_poll ops budget f = (0, f) \<and> fe_ring f' = fe_ring f \<and> ctl_csts (fe_control f') = ctl_csts (fe_control f) \<and> ctl_csts (fe_control f') AND 2 \<noteq> 0"
proof -
  have i: "fe_inv f" by (rule fe_reach_inv [OF assms(1)])
  then have c: "ctl_csts (fe_control f) AND 2 \<noteq> 0" "fe_backend_fault (fe_rest f)" using assms(2) by (auto simp: fe_inv_def)
  have p0: "nwoas_frontend_poll ops budget f = (0, f)" using c by (simp add: nwoas_frontend_poll_def)
  define s0 where "s0 = fe_as_ctl (fe_busy True f)"
  obtain res s where r: "nwoas_reg_write (fe_ctl_table ops) off w v s0 = (res, s)" by (metis surj_pair)
  have s: "s = s0" "res = NWOAS_NOT_HANDLED \<or> res = NWOAS_INVALID"
    using r assms(3) unfolding nwoas_reg_write_def by (auto split: if_splits)
  have b: "fe_busy False (fe_of_ctl s) = f" using i by (simp add: s s0_def fe_busy_def fe_inv_def)
  obtain p e where u: "update_pending ops f = f\<lparr>fe_control := (fe_control f)\<lparr>ctl_pending := p\<rparr>,
     fe_rest := (fe_rest f)\<lparr>fe_env := e\<rparr>\<rparr>" by (rule update_pending_frame)
  show ?thesis
    using assms(4) p0 s(2) c unfolding nwoas_frontend_write_def s0_def [symmetric] r if_False prod.case b u Let_def
    by (auto simp: or_2_set fe_refault_def nwoas_frontend_fault_def split: if_splits)
qed

theorem frontend_fault_latched_witness:
  "fe_ring (demo_w 0x1000 1 (nwoas_frontend_fault demo_ops (demo_ready (replicate 4096 0)))) =
     fe_ring (demo_ready (replicate 4096 0))"
proof -
  have "fe_ring (demo_w 0x1000 1 (nwoas_frontend_fault demo_ops (demo_ready (replicate 4096 0)))) =
      fe_ring (nwoas_frontend_fault demo_ops (demo_ready (replicate 4096 0)))"
    unfolding demo_w_def
    using frontend_fault_latched [where off = "0x1000" and w = 32 and v = 1, OF fe_reach.fault [OF demo_ready_reach] _ _ surjective_pairing]
    by (simp add: nwoas_frontend_fault_def)
  then show ?thesis by (simp add: nwoas_frontend_fault_def)
qed

text \<open>
  The interrupt line follows the recomputed condition exactly: some completion is pending (an
  I/O completion, or an admin completion of an active ring), the vector is not masked, INTx is not
  disabled, and neither the controller, the backend nor the ring has failed.
\<close>

theorem update_pending_irq:
  assumes "\<not> fe_control_busy (fe_rest f)"
  shows "fe_env (fe_rest (update_pending ops f)) =
     ops_irq ops ((fe_io_pending (fe_rest f) \<or> rng_active (fe_ring f) \<and> rng_pending (fe_ring f) \<noteq> 0) \<and>
                  ctl_mask (fe_control f) AND 1 = 0 \<and> ctl_command (fe_control f) AND 0x400 = 0 \<and>
                  ctl_csts (fe_control f) AND 2 = 0 \<and> \<not> fe_backend_fault (fe_rest f) \<and> \<not> rng_fatal (fe_ring f))
       (fe_env (fe_rest f))"
  using assms by (simp add: update_pending_def nwoas_control_pending_def ctl_irq_update_def fe_irq_table_def
      fe_irq_def fe_as_ctl_def conj_ac)

theorem update_pending_irq_witness:
  "fe_env (fe_rest (update_pending demo_ops (demo_raw []))) = [False]"
  by (subst update_pending_irq) (simp_all add: demo_raw_def demo_ops_def demo_ring_def)

text \<open>
  Enabling the controller with an unsupported configuration (a page size, command set or entry
  size other than 4 KiB, NVM, 64 and 16 bytes) never makes it ready: it ends with CSTS.CFS set,
  CSTS.RDY clear and the admin ring untouched.
\<close>

theorem cc_enable_rejected:
  assumes "fe_reach ops f" and "ctl_cc (fe_control f) AND 1 = 0" and "v AND 1 \<noteq> 0" and "drop_bit 32 v = 0"
    and "drop_bit 7 v AND 15 \<noteq> 0 \<or> drop_bit 4 v AND 7 \<noteq> 0 \<or> drop_bit 16 v AND 15 \<noteq> 6 \<or> drop_bit 20 v AND 15 \<noteq> 4"
    and "nwoas_frontend_write ops False 0x14 32 v f = (a, f')"
  shows "ctl_csts (fe_control f') AND 1 = 0 \<and> ctl_csts (fe_control f') AND 2 \<noteq> 0 \<and> fe_ring f' = fe_ring f"
proof -
  have i: "fe_inv f" by (rule fe_reach_inv [OF assms(1)])
  define s0 where "s0 = fe_as_ctl (fe_busy True f)"
  have s0: "fst s0 = fe_control f" "fst (snd s0) = fe_ring f" by (simp_all add: s0_def fe_busy_def)
  define s1 where "s1 = apfst (ctl_cc_update (\<lambda>_. ucast v)) s0"
  have w: "nwoas_reg_write (fe_ctl_table ops) 0x14 32 v s0 = (NWOAS_HANDLED, ctl_fatal (fe_ctl_table ops) s1)"
    using assms(2,3) s0(1) width_mask_32_id [OF assms(4)] ctl_enable_bad_cc [OF assms(5), of "fe_ctl_table ops" s1]
    by (simp add: nwoas_reg_write_def fits_def width_ok_def ctl_write_cc_def s1_def Let_def)
  obtain x where f: "ctl_fatal (fe_ctl_table ops) s1 =
      ((fe_control f)\<lparr>ctl_cc := ucast v, ctl_csts := ctl_csts (fe_control f) OR 2\<rparr>, fe_ring f, x)"
    using s0 by (cases s0) (simp add: s1_def ctl_fatal_def fe_ctl_table_def fe_irq_def)
  define f1 where "f1 = fe_busy False (fe_of_ctl (ctl_fatal (fe_ctl_table ops) s1))"
  obtain p e where u: "update_pending ops f1 = f1\<lparr>fe_control := (fe_control f1)\<lparr>ctl_pending := p\<rparr>,
     fe_rest := (fe_rest f1)\<lparr>fe_env := e\<rparr>\<rparr>" by (rule update_pending_frame)
  have "f' = fe_refault ops (update_pending ops f1)"
    using assms(6) unfolding nwoas_frontend_write_def s0_def [symmetric] w if_False prod.case Let_def f1_def [symmetric]
    by simp
  moreover have "ctl_csts (fe_control f) AND 1 = 0" using i assms(2) by (auto simp: fe_inv_def ctl_inv_def)
  ultimately show ?thesis
    unfolding u by (simp add: f1_def f fe_busy_def fe_refault_def nwoas_frontend_fault_def csts_bit0 csts_or_2)
qed

theorem cc_enable_rejected_witness:
  "ctl_csts (fe_control (demo_w 0x14 1 (demo_frontend (replicate 4096 0)))) AND 2 \<noteq> 0"
proof -
  have c: "ctl_cc (fe_control (demo_frontend pl)) = 0" for pl by code_simp
  obtain a f' where w: "nwoas_frontend_write demo_ops False 0x14 32 1 (demo_frontend (replicate 4096 0)) = (a, f')"
    by (metis surj_pair)
  have "ctl_csts (fe_control f') AND 2 \<noteq> 0"
    using cc_enable_rejected [OF demo_frontend_reach _ _ _ _ w] c by (simp add: drop_bit_eq_div)
  then show ?thesis by (simp add: demo_w_def w)
qed

text \<open>
  C27. A poll of the frontend serves at most \<open>budget\<close> commands; its negative results are the refused
  budget and a failure that shows as CSTS.CFS; and when it stops early on a healthy ready
  controller, nothing is left to serve: the submission queue is empty or the completion queue full.
\<close>

theorem frontend_poll_bounded:
  assumes "fe_reach ops f" and "nwoas_frontend_poll ops budget f = (n, f')"
  shows "n \<le> int budget \<and>
    (n < 0 \<longrightarrow> n = -1 \<and> f' = f \<and> \<not> (1 \<le> budget \<and> budget \<le> 256) \<or> n = -2 \<and> ctl_csts (fe_control f') AND 2 \<noteq> 0) \<and>
    (0 \<le> n \<and> n < int budget \<and> ctl_csts (fe_control f) AND 1 \<noteq> 0 \<and> ctl_csts (fe_control f) AND 2 = 0
       \<longrightarrow> \<not> ring_ready (fe_ring f'))"
proof -
  have i: "fe_inv f" by (rule fe_reach_inv [OF assms(1)])
  have i': "fe_inv f'" "n \<le> int budget" using frontend_poll_inv [OF i assms(2)] by auto
  show ?thesis
  proof (cases "ctl_csts (fe_control f) AND 1 = 0 \<or> ctl_csts (fe_control f) AND 2 \<noteq> 0")
    case True
    then show ?thesis using assms(2) by (auto simp: nwoas_frontend_poll_def)
  next
    case False
    have r: "rng_active (fe_ring f)" "\<not> rng_fatal (fe_ring f)" "\<not> fe_backend_fault (fe_rest f)"
      using i False by (auto simp: fe_inv_def ring_geom_def)
    obtain s where p: "nwoas_ring_poll (fe_ring_table ops) (fe_admin_table ops) budget (fe_as_ring f) = (n, s)" "f' = fe_of_ring s"
      using assms(2) False r by (auto simp: nwoas_frontend_poll_def split: prod.splits)
    show ?thesis
    proof (cases "1 \<le> budget \<and> budget \<le> 256")
      case b: False
      then show ?thesis using p r by (auto simp: nwoas_ring_poll_def)
    next
      case True
      then have "ring_loop budget (fe_ring_table ops) (fe_admin_table ops) 0 (fe_as_ring f) = (n, s)"
        using p r by (simp add: nwoas_ring_poll_def split: if_splits)
      note l = fe_ring_cb.loop_inv [OF fe_good_start [OF i, THEN conjunct1] fe_good_start [OF i, THEN conjunct2] _ this]
      have "n = -2 \<longrightarrow> ctl_csts (fe_control f') AND 2 \<noteq> 0" using l r i'(1) p(2) by (auto simp: fe_inv_def)
      then show ?thesis using l r p(2) i'(2) by auto
    qed
  qed
qed

theorem frontend_poll_bounded_witness:
  "fst (nwoas_frontend_poll demo_ops 4 (demo_ready (replicate 4096 0))) \<le> 4"
  using frontend_poll_bounded [OF demo_ready_reach, of 4] by (metis surjective_pairing of_nat_numeral)

section \<open>The admin ring and the admin state\<close>

text \<open>The abstract completion queue: the slots the host has not retired, oldest first.\<close>

definition ring_outstanding :: "nwoas_admin_ring \<Rightarrow> nat list" where
  "ring_outstanding r =
     map (\<lambda>i. (unat (rng_cq_head r) + i) mod unat (rng_cq_depth r)) [0..<unat (rng_pending r)]"

text \<open>
  C8. The admin completion ring implements a FIFO queue of slots: publishing an entry appends the
  slot at the tail, which was not outstanding; an accepted head doorbell drops exactly the
  acknowledged oldest entries; no slot is outstanding twice.
\<close>

theorem admin_cq_fifo:
  assumes "ring_cq_ok r"
  shows "distinct (ring_outstanding r) \<and>
    (unat (rng_pending r) + 1 < unat (rng_cq_depth r) \<longrightarrow>
       ring_outstanding (ring_push r) = ring_outstanding r @ [unat (rng_cq_tail r)] \<and>
       unat (rng_cq_tail r) \<notin> set (ring_outstanding r)) \<and>
    (h < rng_cq_depth r \<and> ring_ack_count (ucast h) r \<le> ucast (rng_pending r) \<longrightarrow>
       ring_outstanding (ring_retire (ucast h) r) = drop (unat (ring_ack_count (ucast h) r)) (ring_outstanding r))"
proof -
  have o: "ring_outstanding = admin_cq.slots" by (simp add: fun_eq_iff ring_outstanding_def admin_cq.slots_def)
  have "ring_outstanding (ring_retire (ucast h) r) = drop (unat (ring_ack_count (ucast h) r)) (ring_outstanding r)"
    if "h < rng_cq_depth r" "ring_ack_count (ucast h) r \<le> ucast (rng_pending r)"
  proof -
    have u: "unat (ucast h :: u32) = unat h" "unat (ucast (rng_pending r) :: u32) = unat (rng_pending r)"
      by (simp_all add: unat_ucast_small unsigned_less [THEN less_trans])
    have l: "unat h < unat (rng_cq_depth r)" using that by (simp add: word_less_nat_alt)
    note c = unat_ack_count [OF assms, of "ucast h", unfolded u, OF l]
    have "word_of_nat (unat h) = (ucast h :: u32)" using u by (simp add: word_unat_eq_iff unat_of_nat_small unsigned_less [THEN less_trans])
    then show ?thesis
      using admin_cq.slots_retire [OF assms l] that(2) c u by (simp add: o word_le_nat_alt)
  qed
  then show ?thesis
    using admin_cq.slots_distinct [OF assms] admin_cq.slots_push [OF assms] by (simp add: o)
qed

theorem admin_cq_fifo_witness:
  "ring_outstanding (ring_push ((demo_ring [])\<lparr>rng_cq_depth := 4, rng_cq_head := 3, rng_cq_tail := 0, rng_pending := 1\<rparr>)) = [3, 0]"
  using admin_cq_fifo [of "(demo_ring [])\<lparr>rng_cq_depth := 4, rng_cq_head := 3, rng_cq_tail := 0, rng_pending := 1\<rparr>"]
  by (simp add: ring_cq_ok_def demo_ring_def ring_outstanding_def)

text \<open>
  C28. Executing any 64-byte command in a well-formed admin state gives a well-formed admin state
  (at most one I/O queue pair, page-aligned, inside the address space, the submission queue never
  without its completion queue); the change flags of the result are exact: a queue descriptor and
  its generation change if and only if the flag says so; and a data transfer is at most 4096
  bytes.
\<close>

theorem admin_execute_effect:
  assumes "nwoas_admin_execute (Some s) (Some cb) (Some p) (Some cmd) (Some b) (Some r0) e = (rc, s', b', r, e')"
    and "adm_inv s"
  shows "\<exists>s1 b1 r1. s' = Some s1 \<and> b' = Some b1 \<and> r = Some r1 \<and> adm_inv s1 \<and> adm_change_ok s s1 r1 \<and>
     length b1 = length b \<and> unat (ar_bytes r1) \<le> 4096 \<and> rc \<in> {-1, 1}"
  using assms by (rule admin_execute_ok)

theorem admin_execute_effect_witness:
  "\<exists>rc s1 b1 r1 e1. nwoas_admin_execute (Some (rng_admin (demo_ring []))) (Some (fe_admin_table demo_ops))
      (Some demo_policy) (Some demo_create_cq) (Some (replicate 4096 0)) (Some ar_invalid)
      (demo_control, fe_rest (demo_raw [])) = (rc, Some s1, Some b1, Some r1, e1) \<and> adm_inv s1 \<and> length b1 = 4096"
proof -
  obtain rc s' b' r e' where x: "nwoas_admin_execute (Some (rng_admin (demo_ring []))) (Some (fe_admin_table demo_ops))
      (Some demo_policy) (Some demo_create_cq) (Some (replicate 4096 0)) (Some ar_invalid)
      (demo_control, fe_rest (demo_raw [])) = (rc, s', b', r, e')" by (metis prod_cases5)
  have "adm_inv (rng_admin (demo_ring []))" by (simp add: demo_ring_def adm_inv_def clear_queue_def)
  from admin_execute_effect [OF x this] show ?thesis using x by auto
qed

text \<open>
  The response builder stays inside its window: it reports at most 4096 bytes, a multiple of four,
  leaves the buffer beyond the reported length alone, reports no data with an error status, and
  leaves the buffer untouched when it does not handle the command.
\<close>

theorem payload_window:
  assumes "nwoas_admin_payload (Some c) (Some p) (Some b) (Some r0) = (rc, b', r)"
  shows "\<exists>b1 r1. b' = Some b1 \<and> r = Some r1 \<and> length b1 = length b \<and> unat (pay_bytes r1) \<le> 4096 \<and>
     4 dvd unat (pay_bytes r1) \<and> drop (unat (pay_bytes r1)) b1 = drop (unat (pay_bytes r1)) b \<and>
     (pay_status r1 \<noteq> 0 \<longrightarrow> pay_bytes r1 = 0) \<and> (rc \<noteq> 1 \<longrightarrow> b1 = b)"
  using payload_frame [OF assms] by (auto simp: payload_ok_def)

theorem payload_window_witness:
  "\<exists>b1 r1. snd (nwoas_admin_payload (Some (replicate 64 0)) (Some demo_policy) (Some [7]) (Some \<lparr>pay_status = 0, pay_bytes = 0\<rparr>))
     = (Some b1, Some r1) \<and> b1 = [7]"
proof -
  obtain rc b' r where x: "nwoas_admin_payload (Some (replicate 64 0)) (Some demo_policy) (Some [7])
      (Some \<lparr>pay_status = 0, pay_bytes = 0\<rparr>) = (rc, b', r)" by (metis prod_cases3)
  have "rc = -1" using x by (simp add: nwoas_admin_payload_def Let_def)
  then show ?thesis using payload_window [OF x] x by auto
qed

text \<open>
  Identify Namespace tells the truth about the namespace: size, capacity and utilisation decode
  to the LBA count of the selected namespace, the LBA format has 4096-byte blocks, and the write
  protection attribute is set exactly for a read-only primary namespace.
\<close>

theorem identify_namespace_reports:
  assumes "4096 \<le> length b"
  shows "le64 (identify_namespace p nsid b) = (if nsid = 1 then pol_primary_lbas p else pol_link_lbas p) \<and>
     le64 (drop 8 (identify_namespace p nsid b)) = (if nsid = 1 then pol_primary_lbas p else pol_link_lbas p) \<and>
     le64 (drop 16 (identify_namespace p nsid b)) = (if nsid = 1 then pol_primary_lbas p else pol_link_lbas p) \<and>
     2 ^ unat (identify_namespace p nsid b ! 130) = (4096 :: nat) \<and>
     (identify_namespace p nsid b ! 99 AND 1 = 1 \<longleftrightarrow> nsid = 1 \<and> pol_primary_readonly p)"
proof -
  define lbas where "lbas = (if nsid = 1 then pol_primary_lbas p else pol_link_lbas p)"
  have "le64 (drop k (identify_namespace p nsid b)) = lbas" if "k = 0 \<or> k = 8 \<or> k = 16" for k
  proof -
    have "take 8 (drop k (identify_namespace p nsid b)) = le_bytes 8 lbas"
      using assms that by (intro nth_equalityI) (auto simp: identify_namespace_nth lbas_def mod_if)
    then show ?thesis using assms that by (auto simp: pay_le64.rd_eq le_word_roundtrip)
  qed
  from this [of 0] this [of 8] this [of 16] show ?thesis
    using assms by (simp add: lbas_def identify_namespace_nth)
qed

theorem identify_namespace_reports_witness:
  "le64 (identify_namespace demo_policy 1 (replicate 4096 0)) = 1000"
  using identify_namespace_reports [of "replicate 4096 0" demo_policy 1] by (simp add: demo_policy_def)

section \<open>Controller registers\<close>

lemma base_halves:
  fixes v base :: u64
  shows "ctl_base_write 0x2c 32 (drop_bit 32 v AND width_mask 32) (ctl_base_write 0x28 32 (v AND width_mask 32) base) = v"
    and "ctl_base_write 0x34 32 (drop_bit 32 v AND width_mask 32) (ctl_base_write 0x30 32 (v AND width_mask 32) base) = v"
proof -
  have m: "width_mask 32 = mask 32" by (simp add: width_mask_def mask_eq_exp_minus_1)
  have f: "(0xffffffff :: u64) = mask 32" by (simp add: mask_eq_exp_minus_1)
  show "ctl_base_write 0x2c 32 (drop_bit 32 v AND width_mask 32) (ctl_base_write 0x28 32 (v AND width_mask 32) base) = v"
    unfolding ctl_base_write_def m f Let_def by (intro bit_word_eqI) (auto simp: bit_simps)
  show "ctl_base_write 0x34 32 (drop_bit 32 v AND width_mask 32) (ctl_base_write 0x30 32 (v AND width_mask 32) base) = v"
    unfolding ctl_base_write_def m f Let_def by (intro bit_word_eqI) (auto simp: bit_simps)
qed

text \<open>
  While the controller is disabled, writing an admin queue base as two 32-bit halves (ASQ at 0x28
  or ACQ at 0x30) is read back as the whole 64-bit value, and touches nothing outside the
  controller.
\<close>

theorem queue_base_readback:
  assumes "ctl_cc (fst s) AND 1 = 0" and "off = 0x28 \<or> off = 0x30"
    and "nwoas_reg_write cb off 32 v s = (a1, s1)" and "nwoas_reg_write cb (off + 4) 32 (drop_bit 32 v) s1 = (a2, s2)"
  shows "a1 = NWOAS_HANDLED \<and> a2 = NWOAS_HANDLED \<and> nwoas_reg_read (fst s2) off 64 (Some x) = (NWOAS_HANDLED, Some v) \<and>
     snd s2 = snd s"
proof -
  note w = nwoas_reg_write_def fits_def width_ok_def Let_def
  show ?thesis
  proof (cases "off = 0x28")
    case True
    have 1: "a1 = NWOAS_HANDLED" "s1 = apfst (ctl_asq_update (ctl_base_write 0x28 32 (v AND width_mask 32))) s"
      using assms True by (auto simp: w)
    have 2: "a2 = NWOAS_HANDLED" "s2 = apfst (ctl_asq_update (ctl_base_write 0x2c 32 (drop_bit 32 v AND width_mask 32))) s1"
      using assms True 1 by (auto simp: w)
    show ?thesis using 1 2 True by (simp add: reg_read_at base_halves)
  next
    case False
    have o: "off = 0x30" using False assms by simp
    have 1: "a1 = NWOAS_HANDLED" "s1 = apfst (ctl_acq_update (ctl_base_write 0x30 32 (v AND width_mask 32))) s"
      using assms o by (auto simp: w)
    have 2: "a2 = NWOAS_HANDLED" "s2 = apfst (ctl_acq_update (ctl_base_write 0x34 32 (drop_bit 32 v AND width_mask 32))) s1"
      using assms o 1 by (auto simp: w)
    show ?thesis using 1 2 o by (simp add: reg_read_at base_halves)
  qed
qed

theorem queue_base_readback_witness:
  "nwoas_reg_read (fst (snd (nwoas_reg_write (fe_ctl_table demo_ops) 0x2c 32 0x12
       (snd (nwoas_reg_write (fe_ctl_table demo_ops) 0x28 32 0x1234567000 (demo_control, demo_ring [], fe_rest (demo_raw []))))))) 0x28 64 (Some 0)
     = (NWOAS_HANDLED, Some 0x1234567000)"
proof -
  have d: "drop_bit 32 (0x1234567000 :: u64) = 0x12" by (simp add: drop_bit_eq_div)
  show ?thesis
    using queue_base_readback [of "(demo_control, demo_ring [], fe_rest (demo_raw []))" "0x28" "fe_ctl_table demo_ops"
        "0x1234567000" _ _ _ _ 0, OF _ _ surjective_pairing surjective_pairing] d
    by (simp add: demo_control_def)
qed

end
