(* ===== verification/Stage2_Tables.thy ===== *)
theory Stage2_Tables
  imports Nwoas_Prelude "HOL-Library.Monad_Syntax"
begin

text \<open>
  The stage-2 page tables of the hypervisor, \<^verbatim>\<open>nvme-s208/hv_vm-s208.c\<close> (\<^verbatim>\<open>hv_pt_*\<close>,
  \<^verbatim>\<open>hv_map*\<close>, \<^verbatim>\<open>hv_pt_walk\<close>, \<^verbatim>\<open>nwoas_ipa_to_pa\<close>).

  Every table has exactly one parent entry, so a table pointer is modelled by the table itself: an
  entry is either a descriptor word or the table it points to.  The C code recognises a table by
  the bits of the descriptor; a descriptor word that looks like a table but was never written as
  one would be dereferenced as a wild pointer, which is the result \<open>None\<close> here, as is a failed
  assertion.  Allocation is assumed to succeed, freeing a table drops it.  \<^verbatim>\<open>ram_base\<close> and the
  address of the hypervisor image are arguments.
\<close>

section \<open>Descriptors\<close>

definition GENMASK :: "nat \<Rightarrow> nat \<Rightarrow> u64" where
  "GENMASK h l = push_bit l (mask (h - l + 1))"

definition ALIGN_UP :: "u64 \<Rightarrow> u64 \<Rightarrow> u64" where
  "ALIGN_UP x a = (x + (a - 1)) AND NOT (a - 1)"

definition ALIGN_DOWN :: "u64 \<Rightarrow> u64 \<Rightarrow> u64" where
  "ALIGN_DOWN x a = x AND NOT (a - 1)"

definition PTE_ATTRIBUTES :: u64 where
  "PTE_ATTRIBUTES = push_bit 10 1 OR push_bit 8 3 OR push_bit 6 3 OR push_bit 2 15"

definition PTE_ATTRIBUTES_NC :: u64 where
  "PTE_ATTRIBUTES_NC = push_bit 10 1 OR push_bit 8 3 OR push_bit 6 3 OR push_bit 2 5"

definition PTE_VALID :: u64 where "PTE_VALID = 1"
definition PTE_TYPE :: u64 where "PTE_TYPE = 2"
definition PTE_LOWER_ATTRIBUTES :: u64 where "PTE_LOWER_ATTRIBUTES = GENMASK 13 2"
definition PTE_TARGET_MASK :: u64 where "PTE_TARGET_MASK = GENMASK 49 14"
definition PTE_TARGET_MASK_L4 :: u64 where "PTE_TARGET_MASK_L4 = GENMASK 49 2"
definition VADDR_L2_ALIGN_MASK :: u64 where "VADDR_L2_ALIGN_MASK = GENMASK 24 14"
definition VADDR_L3_ALIGN_MASK :: u64 where "VADDR_L3_ALIGN_MASK = GENMASK 13 2"

definition spte_type :: "u64 \<Rightarrow> u64" where
  "spte_type pte = drop_bit 50 (pte AND GENMASK 52 50)"

definition SPTE_MAP :: u64 where "SPTE_MAP = 0"
definition SPTE_HOOK :: u64 where "SPTE_HOOK = 1"

definition IS_HW :: "u64 \<Rightarrow> bool" where
  "IS_HW pte \<longleftrightarrow> pte \<noteq> 0 \<and> pte AND PTE_VALID \<noteq> 0"

definition IS_SW :: "u64 \<Rightarrow> bool" where
  "IS_SW pte \<longleftrightarrow> pte \<noteq> 0 \<and> pte AND PTE_VALID = 0"

text \<open>\<^verbatim>\<open>L1_IS_TABLE\<close> and \<^verbatim>\<open>L2_IS_TABLE\<close> are the same test.\<close>

definition L2_IS_TABLE :: "u64 \<Rightarrow> bool" where
  "L2_IS_TABLE pte \<longleftrightarrow> pte \<noteq> 0 \<and> pte AND PTE_TYPE \<noteq> 0"

definition L2_IS_HW_BLOCK :: "u64 \<Rightarrow> bool" where
  "L2_IS_HW_BLOCK pte \<longleftrightarrow> IS_HW pte \<and> pte AND PTE_TYPE = 0"

definition L2_IS_SW_BLOCK :: "u64 \<Rightarrow> bool" where
  "L2_IS_SW_BLOCK pte \<longleftrightarrow> IS_SW pte \<and> pte AND PTE_TYPE = 0 \<and> spte_type pte = SPTE_MAP"

definition L3_IS_TABLE :: "u64 \<Rightarrow> bool" where
  "L3_IS_TABLE pte \<longleftrightarrow> IS_SW pte \<and> pte AND PTE_TYPE \<noteq> 0"

definition L3_IS_HW_BLOCK :: "u64 \<Rightarrow> bool" where
  "L3_IS_HW_BLOCK pte \<longleftrightarrow> IS_HW pte \<and> pte AND PTE_TYPE \<noteq> 0"

definition L3_IS_SW_BLOCK :: "u64 \<Rightarrow> bool" where
  "L3_IS_SW_BLOCK pte \<longleftrightarrow> IS_SW pte \<and> pte AND PTE_TYPE = 0 \<and> spte_type pte = SPTE_MAP"

section \<open>Tables\<close>

type_synonym l4_table = "nat \<Rightarrow> u64"
datatype l3_entry = L3_Desc u64 | L3_Tab l4_table
type_synonym l3_table = "nat \<Rightarrow> l3_entry"
datatype l2_entry = L2_Desc u64 | L2_Tab l3_table
type_synonym l2_table = "nat \<Rightarrow> l2_entry"
datatype l1_entry = L1_Desc u64 | L1_Tab l2_table
type_synonym l1_table = "nat \<Rightarrow> l1_entry"

datatype top_table = Top_L2 l2_table | Top_L1 l1_table

record hv_pt =
  vaddr_bits :: nat
  hv_Ltop :: top_table

text \<open>\<open>pa_range\<close> is the field of the feature register; the table of widths has seven entries.\<close>

definition pa_bits :: "nat list" where "pa_bits = [32, 36, 40, 42, 44, 48, 52]"

definition hv_pt_init :: "nat \<Rightarrow> hv_pt option" where
  "hv_pt_init pa_range =
     (if pa_range < List.length pa_bits
      then let bits = min 44 (pa_bits ! pa_range)
           in Some \<lparr>vaddr_bits = bits,
                hv_Ltop = (if bits > 36 then Top_L1 (\<lambda>_. L1_Desc 0) else Top_L2 (\<lambda>_. L2_Desc 0))\<rparr>
      else None)"

text \<open>How the code sees an entry: a descriptor, a table, or (\<open>None\<close>) a wild pointer.\<close>

definition as_l2 :: "l1_entry \<Rightarrow> (u64 + l2_table) option" where
  "as_l2 e = (case e of L1_Tab t \<Rightarrow> Some (Inr t) | L1_Desc d \<Rightarrow> if L2_IS_TABLE d then None else Some (Inl d))"

definition as_l3 :: "l2_entry \<Rightarrow> (u64 + l3_table) option" where
  "as_l3 e = (case e of L2_Tab t \<Rightarrow> Some (Inr t) | L2_Desc d \<Rightarrow> if L2_IS_TABLE d then None else Some (Inl d))"

definition as_l4 :: "l3_entry \<Rightarrow> (u64 + l4_table) option" where
  "as_l4 e = (case e of L3_Tab t \<Rightarrow> Some (Inr t) | L3_Desc d \<Rightarrow> if L3_IS_TABLE d then None else Some (Inl d))"

definition l1_index :: "u64 \<Rightarrow> nat" where "l1_index a = unat (drop_bit 36 a)"
definition l2_index :: "u64 \<Rightarrow> nat" where "l2_index a = unat (drop_bit 25 a AND mask 11)"
definition l3_index :: "u64 \<Rightarrow> nat" where "l3_index a = unat (drop_bit 14 a AND mask 11)"
definition l4_index :: "u64 \<Rightarrow> nat" where "l4_index a = unat (drop_bit 2 a AND mask 12)"

section \<open>Lookup with allocation\<close>

text \<open>
  \<^verbatim>\<open>hv_pt_get_l2\<close>, \<^verbatim>\<open>hv_pt_get_l3\<close> and \<^verbatim>\<open>hv_pt_get_l4\<close> return the table that covers
  an address, splitting or allocating on the way.  Every caller then stores into the table; the
  store goes through \<open>hv_pt_put_l2\<close>, \<open>hv_pt_put_l3\<close> and \<open>hv_pt_put_l4\<close>, which also install the
  parent entry.  The top table has 2048 entries; an index beyond it is out of bounds.
\<close>

definition hv_pt_get_l2 :: "hv_pt \<Rightarrow> u64 \<Rightarrow> l2_table option" where
  "hv_pt_get_l2 st from =
     (case hv_Ltop st of
        Top_L2 t \<Rightarrow> if vaddr_bits st \<le> 36 \<and> l1_index from = 0 then Some t else None
      | Top_L1 t \<Rightarrow>
          if vaddr_bits st \<le> 36 \<or> l1_index from \<ge> 2048 then None
          else do {
            e \<leftarrow> as_l2 (t (l1_index from));
            Some (case e of Inr l2 \<Rightarrow> l2 | Inl _ \<Rightarrow> (\<lambda>_. L2_Desc 0))
          })"

definition hv_pt_put_l2 :: "hv_pt \<Rightarrow> u64 \<Rightarrow> l2_table \<Rightarrow> hv_pt" where
  "hv_pt_put_l2 st from l2 =
     st\<lparr>hv_Ltop := (case hv_Ltop st of Top_L2 _ \<Rightarrow> Top_L2 l2
                                     | Top_L1 t \<Rightarrow> Top_L1 (t(l1_index from := L1_Tab l2)))\<rparr>"

definition split_l2 :: "u64 \<Rightarrow> l3_table" where
  "split_l2 l2d =
     (if l2d \<noteq> 0
      then let l3d = (if IS_HW l2d then (l2d AND NOT PTE_TYPE) OR PTE_TYPE else l2d);
               incr = (if IS_HW l2d then push_bit 14 1
                       else if IS_SW l2d \<and> spte_type l3d = SPTE_MAP then push_bit 14 1 else 0)
           in (\<lambda>idx. L3_Desc (l3d + word_of_nat idx * incr))
      else (\<lambda>_. L3_Desc 0))"

definition hv_pt_get_l3 :: "hv_pt \<Rightarrow> u64 \<Rightarrow> l3_table option" where
  "hv_pt_get_l3 st from =
     do {
       l2 \<leftarrow> hv_pt_get_l2 st from;
       e \<leftarrow> as_l3 (l2 (l2_index from));
       Some (case e of Inr l3 \<Rightarrow> l3 | Inl l2d \<Rightarrow> split_l2 l2d)
     }"

definition hv_pt_put_l3 :: "hv_pt \<Rightarrow> u64 \<Rightarrow> l3_table \<Rightarrow> hv_pt option" where
  "hv_pt_put_l3 st from l3 =
     do {
       l2 \<leftarrow> hv_pt_get_l2 st from;
       Some (hv_pt_put_l2 st from (l2(l2_index from := L2_Tab l3)))
     }"

definition split_l3 :: "u64 \<Rightarrow> l4_table" where
  "split_l3 l3d0 =
     (let l3d = (if IS_HW l3d0 then l3d0 AND PTE_TARGET_MASK else l3d0)
      in if l3d \<noteq> 0
         then let l4d = (l3d AND NOT PTE_TYPE) OR PTE_TYPE;
                  incr = (if spte_type l4d = SPTE_MAP then push_bit 2 1 else 0)
              in (\<lambda>idx. l4d + word_of_nat idx * incr)
         else (\<lambda>_. 0))"

definition hv_pt_get_l4 :: "hv_pt \<Rightarrow> u64 \<Rightarrow> l4_table option" where
  "hv_pt_get_l4 st from =
     do {
       l3 \<leftarrow> hv_pt_get_l3 st from;
       e \<leftarrow> as_l4 (l3 (l3_index from));
       (case e of
          Inr l4 \<Rightarrow> Some l4
        | Inl l3d \<Rightarrow> if IS_HW l3d \<and> l3d AND PTE_TYPE = 0 then None else Some (split_l3 l3d))
     }"

definition hv_pt_put_l4 :: "hv_pt \<Rightarrow> u64 \<Rightarrow> l4_table \<Rightarrow> hv_pt option" where
  "hv_pt_put_l4 st from l4 =
     do {
       l3 \<leftarrow> hv_pt_get_l3 st from;
       hv_pt_put_l3 st from (l3(l3_index from := L3_Tab l4))
     }"

section \<open>Mapping\<close>

text \<open>The mapping loops, with the number of entries still to write.\<close>

fun map_l2_loop :: "nat \<Rightarrow> hv_pt \<Rightarrow> u64 \<Rightarrow> u64 \<Rightarrow> u64 \<Rightarrow> hv_pt option" where
  "map_l2_loop 0 st from to incr = Some st"
| "map_l2_loop (Suc n) st from to incr =
     do {
       l2 \<leftarrow> hv_pt_get_l2 st from;
       _ \<leftarrow> as_l3 (l2 (l2_index from));
       map_l2_loop n (hv_pt_put_l2 st from (l2(l2_index from := L2_Desc to)))
         (from + push_bit 25 1) (to + incr * push_bit 25 1) incr
     }"

definition hv_pt_map_l2 :: "hv_pt \<Rightarrow> u64 \<Rightarrow> u64 \<Rightarrow> u64 \<Rightarrow> u64 \<Rightarrow> hv_pt option" where
  "hv_pt_map_l2 st from to sz incr =
     (if from AND mask 25 \<noteq> 0 \<or> \<not> (IS_SW to \<or> to AND PTE_TARGET_MASK AND mask 25 = 0) \<or> sz AND mask 25 \<noteq> 0
      then None
      else map_l2_loop (unat (drop_bit 25 sz)) st from to incr)"

fun map_l3_loop :: "nat \<Rightarrow> hv_pt \<Rightarrow> u64 \<Rightarrow> u64 \<Rightarrow> u64 \<Rightarrow> hv_pt option" where
  "map_l3_loop 0 st from to incr = Some st"
| "map_l3_loop (Suc n) st from to incr =
     do {
       l3 \<leftarrow> hv_pt_get_l3 st from;
       _ \<leftarrow> as_l4 (l3 (l3_index from));
       st1 \<leftarrow> hv_pt_put_l3 st from (l3(l3_index from := L3_Desc to));
       map_l3_loop n st1 (from + push_bit 14 1) (to + incr * push_bit 14 1) incr
     }"

definition hv_pt_map_l3 :: "hv_pt \<Rightarrow> u64 \<Rightarrow> u64 \<Rightarrow> u64 \<Rightarrow> u64 \<Rightarrow> hv_pt option" where
  "hv_pt_map_l3 st from to sz incr =
     (if from AND mask 14 \<noteq> 0 \<or> \<not> (IS_SW to \<or> to AND PTE_TARGET_MASK AND mask 14 = 0) \<or> sz AND mask 14 \<noteq> 0
      then None
      else map_l3_loop (unat (drop_bit 14 sz)) st from (if IS_HW to then to OR PTE_TYPE else to) incr)"

fun map_l4_loop :: "nat \<Rightarrow> hv_pt \<Rightarrow> u64 \<Rightarrow> u64 \<Rightarrow> u64 \<Rightarrow> hv_pt option" where
  "map_l4_loop 0 st from to incr = Some st"
| "map_l4_loop (Suc n) st from to incr =
     do {
       l4 \<leftarrow> hv_pt_get_l4 st from;
       st1 \<leftarrow> hv_pt_put_l4 st from (l4(l4_index from := to));
       map_l4_loop n st1 (from + push_bit 2 1) (to + incr * push_bit 2 1) incr
     }"

definition hv_pt_map_l4 :: "hv_pt \<Rightarrow> u64 \<Rightarrow> u64 \<Rightarrow> u64 \<Rightarrow> u64 \<Rightarrow> hv_pt option" where
  "hv_pt_map_l4 st from to sz incr =
     (if from AND mask 2 \<noteq> 0 \<or> sz AND mask 2 \<noteq> 0 \<or> IS_HW to then None
      else map_l4_loop (unat (drop_bit 2 sz)) st from (if IS_SW to then to OR PTE_TYPE else to) incr)"

text \<open>One stage of \<^verbatim>\<open>hv_map\<close>: map \<open>chunk\<close> bytes with \<open>f\<close> and move the cursor.\<close>

definition map_stage ::
  "(hv_pt \<Rightarrow> u64 \<Rightarrow> u64 \<Rightarrow> u64 \<Rightarrow> u64 \<Rightarrow> hv_pt option) \<Rightarrow> u64 \<Rightarrow> u64
     \<Rightarrow> hv_pt \<times> u64 \<times> u64 \<times> u64 \<Rightarrow> (hv_pt \<times> u64 \<times> u64 \<times> u64) option" where
  "map_stage f incr chunk s =
     (case s of (st, from, to, sz) \<Rightarrow>
        if chunk = 0 then Some s
        else do {
          st1 \<leftarrow> f st from to chunk incr;
          Some (st1, from + chunk, to + incr * chunk, sz - chunk)
        })"

definition map_boundary :: "u64 \<Rightarrow> u64 \<Rightarrow> u64 \<Rightarrow> u64" where
  "map_boundary ram_base img from =
     (let boundary = ALIGN_UP from (mask 25)
      in if boundary \<ge> ram_base \<and> boundary < img then ALIGN_UP img (mask 25) else boundary)"

definition hv_map :: "u64 \<Rightarrow> u64 \<Rightarrow> hv_pt \<Rightarrow> u64 \<Rightarrow> u64 \<Rightarrow> u64 \<Rightarrow> u64 \<Rightarrow> (int \<times> hv_pt) option" where
  "hv_map ram_base img st from to sz incr =
     (let hw = IS_HW to in
      if from AND mask 2 \<noteq> 0 \<or> sz AND mask 2 \<noteq> 0 then Some (-1, st)
      else if hw \<and> (from AND mask 14 \<noteq> 0 \<or> sz AND mask 14 \<noteq> 0) then Some (-1, st)
      else do {
        let chunk = min sz (ALIGN_UP from (push_bit 14 1) - from);
        s1 \<leftarrow> (if chunk \<noteq> 0 \<and> hw then None else map_stage hv_pt_map_l4 incr chunk (st, from, to, sz));
        let (st1, from1, to1, sz1) = s1;
        let chunk1 = ALIGN_DOWN (min sz1 (map_boundary ram_base img from1 - from1)) (push_bit 14 1);
        s2 \<leftarrow> map_stage hv_pt_map_l3 incr chunk1 s1;
        let (st2, from2, to2, sz2) = s2;
        let chunk2 = ALIGN_DOWN sz2 (push_bit 25 1);
        s3 \<leftarrow> (if chunk2 \<noteq> 0 \<and> (\<not> hw \<or> to2 AND VADDR_L2_ALIGN_MASK = 0)
               then map_stage hv_pt_map_l2 incr chunk2 s2 else Some s2);
        let (st3, from3, to3, sz3) = s3;
        s4 \<leftarrow> map_stage hv_pt_map_l3 incr (ALIGN_DOWN sz3 (push_bit 14 1)) s3;
        let (st4, from4, to4, sz4) = s4;
        s5 \<leftarrow> (if sz4 \<noteq> 0 \<and> hw then None else map_stage hv_pt_map_l4 incr sz4 s4);
        Some (0, fst s5)
      })"

definition hv_unmap :: "u64 \<Rightarrow> u64 \<Rightarrow> hv_pt \<Rightarrow> u64 \<Rightarrow> u64 \<Rightarrow> (int \<times> hv_pt) option" where
  "hv_unmap rb im st from sz = hv_map rb im st from 0 sz 0"

definition hv_map_hw :: "u64 \<Rightarrow> u64 \<Rightarrow> hv_pt \<Rightarrow> u64 \<Rightarrow> u64 \<Rightarrow> u64 \<Rightarrow> (int \<times> hv_pt) option" where
  "hv_map_hw rb im st from to sz = hv_map rb im st from (to OR PTE_ATTRIBUTES OR PTE_VALID) sz 1"

definition hv_map_hw_nc :: "u64 \<Rightarrow> u64 \<Rightarrow> hv_pt \<Rightarrow> u64 \<Rightarrow> u64 \<Rightarrow> u64 \<Rightarrow> (int \<times> hv_pt) option" where
  "hv_map_hw_nc rb im st from to sz = hv_map rb im st from (to OR PTE_ATTRIBUTES_NC OR PTE_VALID) sz 1"

definition hv_map_sw :: "u64 \<Rightarrow> u64 \<Rightarrow> hv_pt \<Rightarrow> u64 \<Rightarrow> u64 \<Rightarrow> u64 \<Rightarrow> (int \<times> hv_pt) option" where
  "hv_map_sw rb im st from to sz = hv_map rb im st from (to OR push_bit 50 SPTE_MAP) sz 1"

definition hv_map_hook :: "u64 \<Rightarrow> u64 \<Rightarrow> hv_pt \<Rightarrow> u64 \<Rightarrow> u64 \<Rightarrow> u64 \<Rightarrow> (int \<times> hv_pt) option" where
  "hv_map_hook rb im st from hook sz = hv_map rb im st from (hook OR push_bit 50 SPTE_HOOK) sz 0"

section \<open>Walking\<close>

definition l2_result :: "u64 \<Rightarrow> u64 \<Rightarrow> u64" where
  "l2_result addr l2d0 =
     (let off = addr AND (VADDR_L2_ALIGN_MASK OR VADDR_L3_ALIGN_MASK);
          l2d = (if L2_IS_SW_BLOCK l2d0 then l2d0 + off else l2d0)
      in if L2_IS_HW_BLOCK l2d then (l2d AND NOT PTE_LOWER_ATTRIBUTES) OR off else l2d)"

definition l3_result :: "u64 \<Rightarrow> u64 \<Rightarrow> u64" where
  "l3_result addr l3d0 =
     (let off = addr AND VADDR_L3_ALIGN_MASK;
          l3d = (if L3_IS_SW_BLOCK l3d0 then l3d0 + off else l3d0)
      in if L3_IS_HW_BLOCK l3d then (l3d AND NOT PTE_LOWER_ATTRIBUTES) OR off else l3d)"

definition walk_l3 :: "l3_entry \<Rightarrow> u64 \<Rightarrow> u64 option" where
  "walk_l3 e addr =
     do {
       x \<leftarrow> as_l4 e;
       Some (case x of Inl l3d \<Rightarrow> l3_result addr l3d | Inr l4 \<Rightarrow> l4 (l4_index addr))
     }"

definition walk_l2 :: "l2_entry \<Rightarrow> u64 \<Rightarrow> u64 option" where
  "walk_l2 e addr =
     do {
       x \<leftarrow> as_l3 e;
       (case x of Inl l2d \<Rightarrow> Some (l2_result addr l2d) | Inr l3 \<Rightarrow> walk_l3 (l3 (l3_index addr)) addr)
     }"

definition hv_pt_walk :: "hv_pt \<Rightarrow> u64 \<Rightarrow> u64 option" where
  "hv_pt_walk st addr =
     (case hv_Ltop st of
        Top_L1 t \<Rightarrow>
          if vaddr_bits st \<le> 36 \<or> l1_index addr \<ge> 256 then None
          else do {
            x \<leftarrow> as_l2 (t (l1_index addr));
            (case x of Inl l1d \<Rightarrow> Some l1d | Inr l2 \<Rightarrow> walk_l2 (l2 (l2_index addr)) addr)
          }
      | Top_L2 t \<Rightarrow>
          if vaddr_bits st > 36 \<or> l1_index addr \<noteq> 0 then None else walk_l2 (t (l2_index addr)) addr)"

definition nwoas_ipa_to_pa :: "hv_pt \<Rightarrow> u64 \<Rightarrow> u64 option" where
  "nwoas_ipa_to_pa st ipa =
     (if ipa \<ge> push_bit (vaddr_bits st) 1 then Some 0
      else do {
        pte \<leftarrow> hv_pt_walk st (ipa AND NOT (mask 14));
        Some (if pte = 0 then 0 else (pte AND PTE_TARGET_MASK) OR (ipa AND mask 14))
      })"

definition nwoas_in_dram :: "u64 \<Rightarrow> u64 \<Rightarrow> u64 \<Rightarrow> u64 \<Rightarrow> bool" where
  "nwoas_in_dram ram_base mem_size addr len \<longleftrightarrow>
     len \<noteq> 0 \<and> addr \<ge> ram_base \<and> addr + len > addr \<and> addr + len \<le> ram_base + mem_size"

end
