(* ===== verification/Stage2_Access.thy ===== *)
theory Stage2_Access
  imports Stage2_Tables
begin

text \<open>
  What the stage-2 tables mean: the access a descriptor grants, the well-formedness of the tables,
  the access the whole table grants at an address, and that walking the table finds it.  Splitting
  a block or page into a finer table keeps the meaning of every address.
\<close>

section \<open>What a descriptor means\<close>

text \<open>
  The three things an access can be: refused, forwarded to a physical address (natively or by
  \<^verbatim>\<open>SPTE_MAP\<close>, with its trace flags), or given to a hook.  This is how \<^verbatim>\<open>hv_handle_dabort\<close> and
  \<^verbatim>\<open>hv_emulate_rw_aligned\<close> read the result of a walk.
\<close>

datatype access = Unmapped | Direct u64 u64 | Hooked u64 u64 u64

definition pte_access :: "u64 \<Rightarrow> access" where
  "pte_access pte =
     (if pte = 0 then Unmapped
      else if IS_HW pte then Direct (pte AND PTE_TARGET_MASK_L4) 0
      else if spte_type pte = SPTE_MAP then Direct (pte AND PTE_TARGET_MASK_L4) (drop_bit 61 pte)
      else Hooked (spte_type pte) (pte AND PTE_TARGET_MASK_L4) (drop_bit 61 pte))"

text \<open>The meaning of a descriptor that covers a whole range, \<open>k\<close> bytes into the range.\<close>

definition leaf :: "u64 \<Rightarrow> nat \<Rightarrow> access" where
  "leaf d k =
     (if d = 0 then Unmapped
      else if bit d 0 then Direct ((d AND PTE_TARGET_MASK) + word_of_nat k) 0
      else if spte_type d = SPTE_MAP then Direct ((d AND PTE_TARGET_MASK_L4) + word_of_nat k) (drop_bit 61 d)
      else Hooked (spte_type d) (d AND PTE_TARGET_MASK_L4) (drop_bit 61 d))"

lemma bit_GENMASK: "bit (GENMASK h l) n \<longleftrightarrow> l \<le> n \<and> n \<le> h \<and> n < 64" if "l \<le> h"
  using that by (auto simp: GENMASK_def bit_simps)

lemma pte_masks_bit:
  "bit PTE_TARGET_MASK n \<longleftrightarrow> 14 \<le> n \<and> n \<le> 49" "bit PTE_TARGET_MASK_L4 n \<longleftrightarrow> 2 \<le> n \<and> n \<le> 49"
  "bit PTE_LOWER_ATTRIBUTES n \<longleftrightarrow> 2 \<le> n \<and> n \<le> 13" "bit VADDR_L2_ALIGN_MASK n \<longleftrightarrow> 14 \<le> n \<and> n \<le> 24"
  "bit VADDR_L3_ALIGN_MASK n \<longleftrightarrow> 2 \<le> n \<and> n \<le> 13"
  by (auto simp: PTE_TARGET_MASK_def PTE_TARGET_MASK_L4_def PTE_LOWER_ATTRIBUTES_def VADDR_L2_ALIGN_MASK_def
      VADDR_L3_ALIGN_MASK_def bit_GENMASK)

lemma hw_bit: "IS_HW d \<longleftrightarrow> bit d 0" "IS_SW d \<longleftrightarrow> d \<noteq> 0 \<and> \<not> bit d 0"
  "d AND PTE_TYPE = 0 \<longleftrightarrow> \<not> bit d 1"
  using and_exp_eq_0_iff_not_bit [of d 0] and_exp_eq_0_iff_not_bit [of d 1]
  by (auto simp: IS_HW_def IS_SW_def PTE_VALID_def PTE_TYPE_def)

lemma spte_type_eq: "spte_type d = take_bit 3 (drop_bit 50 d)"
  by (rule bit_word_eqI) (auto simp: spte_type_def bit_simps bit_GENMASK)

lemma field_eq:
  assumes "l \<le> h"
  shows "d AND GENMASK h l = push_bit l (drop_bit l (take_bit (Suc h) d))"
proof (rule bit_word_eqI)
  fix n assume "n < LENGTH(64)"
  then show "bit (d AND GENMASK h l) n = bit (push_bit l (drop_bit l (take_bit (Suc h) d))) n"
    using assms by (cases "l \<le> n") (auto simp: bit_simps bit_GENMASK)
qed

lemma unat_field:
  assumes "l \<le> h" and "h < 64"
  shows "unat (d AND GENMASK h l) = unat d mod 2 ^ Suc h div 2 ^ l * 2 ^ l"
proof -
  have "unat d mod 2 ^ Suc h div 2 ^ l * 2 ^ l \<le> unat d mod 2 ^ Suc h" by (rule div_times_less_eq_dividend)
  also have "\<dots> \<le> unat d" by (rule mod_less_eq_dividend)
  also have "\<dots> < 2 ^ 64" using unsigned_less [of d] by simp
  finally show ?thesis unfolding field_eq [OF assms(1)] by (subst unat_push_small) (simp_all only: unat_drop unat_take)
qed

lemma unat_target_l4: "unat (d AND PTE_TARGET_MASK_L4) = unat d mod 2 ^ 50 div 2 ^ 2 * 2 ^ 2"
  unfolding PTE_TARGET_MASK_L4_def using unat_field [of 2 49 d] by simp

lemma unat_target: "unat (d AND PTE_TARGET_MASK) = unat d mod 2 ^ 50 div 2 ^ 14 * 2 ^ 14"
  unfolding PTE_TARGET_MASK_def using unat_field [of 14 49 d] by simp

text \<open>Adding an offset that stays inside the 50-bit target field.\<close>

lemma div_mod_add_small:
  fixes x k m :: nat
  assumes "x mod m + k < m"
  shows "(x + k) div m = x div m" and "(x + k) mod m = x mod m + k"
proof -
  have e: "x + k = (x mod m + k) + x div m * m" using div_mult_mod_eq [of x m] by linarith
  show "(x + k) div m = x div m" using assms unfolding e by (subst div_mult_self1) simp_all
  show "(x + k) mod m = x mod m + k" using assms unfolding e by (subst mod_mult_self1) simp_all
qed

lemma low_add_unat:
  fixes d k :: u64
  assumes "unat d mod 2 ^ 50 + unat k < 2 ^ 50"
  shows "unat (d + k) = unat d + unat k"
proof -
  have "unat d div 2 ^ 50 < 2 ^ 14" by (rule less_mult_imp_div_less) (use unsigned_less [of d] in simp)
  then have "(unat d div 2 ^ 50 + 1) * 2 ^ 50 \<le> 2 ^ 14 * 2 ^ 50" by (intro mult_right_mono) simp_all
  moreover have "(2 :: nat) ^ 14 * 2 ^ 50 = 2 ^ 64" by simp
  ultimately have "unat d + unat k < 2 ^ 64"
    using assms div_mult_mod_eq [of "unat d" "2 ^ 50"] unfolding add_mult_distrib by linarith
  then show ?thesis by (intro unat_add_small) simp
qed

lemma bit_unat: "bit (x :: 'a::len word) n = odd (unat x div 2 ^ n)"
  by (simp add: bit_iff_odd [symmetric] bit_unsigned_iff)

lemma low_add:
  fixes d k :: u64
  assumes "unat d mod 2 ^ 50 + unat k < 2 ^ 50" and "4 dvd unat k"
  shows "drop_bit 50 (d + k) = drop_bit 50 d" and "bit (d + k) 0 = bit d 0" and "bit (d + k) 1 = bit d 1"
    and "(d + k) AND PTE_TARGET_MASK_L4 = (d AND PTE_TARGET_MASK_L4) + k"
    and "2 ^ 14 dvd unat k \<Longrightarrow> (d + k) AND PTE_TARGET_MASK = (d AND PTE_TARGET_MASK) + k"
proof -
  note u = low_add_unat [OF assms(1)] and dm = div_mod_add_small [OF assms(1)]
  show "drop_bit 50 (d + k) = drop_bit 50 d"
    unfolding word_unat_eq_iff unat_drop u dm by (rule refl)
  obtain j where j: "unat k = 4 * j" using assms(2) by blast
  have "(unat d + 4 * j) div 2 = unat d div 2 + 2 * j" by presburger
  then show "bit (d + k) 0 = bit d 0" "bit (d + k) 1 = bit d 1"
    by (simp_all add: bit_unat u j)
  have "unat ((d + k) AND PTE_TARGET_MASK_L4) = unat (d AND PTE_TARGET_MASK_L4) + unat k"
    unfolding unat_target_l4 u dm by (simp add: j)
  moreover have "unat ((d AND PTE_TARGET_MASK_L4) + k) = unat (d AND PTE_TARGET_MASK_L4) + unat k"
    using assms(1) div_times_less_eq_dividend [of "unat d mod 2 ^ 50" "2 ^ 2"] by (intro unat_add_small) (simp add: unat_target_l4)
  ultimately show "(d + k) AND PTE_TARGET_MASK_L4 = (d AND PTE_TARGET_MASK_L4) + k" by (simp add: word_unat_eq_iff)
  show "(d + k) AND PTE_TARGET_MASK = (d AND PTE_TARGET_MASK) + k" if k14: "2 ^ 14 dvd unat k"
  proof -
    obtain i where i: "unat k = 2 ^ 14 * i" using k14 by blast
    have "unat ((d + k) AND PTE_TARGET_MASK) = unat (d AND PTE_TARGET_MASK) + unat k"
      unfolding unat_target u dm by (simp add: i)
    moreover have "unat ((d AND PTE_TARGET_MASK) + k) = unat (d AND PTE_TARGET_MASK) + unat k"
      using assms(1) div_times_less_eq_dividend [of "unat d mod 2 ^ 50" "2 ^ 14"]
      by (intro unat_add_small) (simp add: unat_target)
    ultimately show ?thesis by (simp add: word_unat_eq_iff)
  qed
qed


section \<open>Descriptors over a range\<close>

text \<open>
  A descriptor can cover \<open>e\<close> bytes when its target stays inside the 50-bit field; a native
  descriptor must not point at physical address 0, which a split to software entries would turn
  into an unmapped entry.
\<close>

definition ext_ok :: "u64 \<Rightarrow> nat \<Rightarrow> bool" where
  "ext_ok d e \<longleftrightarrow>
     (bit d 0 \<longrightarrow> d AND PTE_TARGET_MASK \<noteq> 0 \<and> unat (d AND PTE_TARGET_MASK) + e \<le> 2 ^ 50) \<and>
     (d \<noteq> 0 \<and> \<not> bit d 0 \<and> spte_type d = SPTE_MAP \<longrightarrow> unat d mod 2 ^ 50 + e \<le> 2 ^ 50)"

definition moves :: "u64 \<Rightarrow> bool" where
  "moves d \<longleftrightarrow> bit d 0 \<or> (d \<noteq> 0 \<and> spte_type d = SPTE_MAP)"

lemma ext_ok_mono: "ext_ok d e \<Longrightarrow> e' \<le> e \<Longrightarrow> ext_ok d e'"
  by (auto simp: ext_ok_def)

lemma hw_low:
  "unat d mod 2 ^ 50 < unat (d AND PTE_TARGET_MASK) + 2 ^ 14"
  unfolding unat_target using div_mult_mod_eq [of "unat d mod 2 ^ 50" "2 ^ 14"]
    mod_less_divisor [of "2 ^ 14" "unat d mod 2 ^ 50"] by simp

lemma leaf_add:
  assumes "ext_ok d e" and "moves d" and "j < e" and "4 dvd j" and "bit d 0 \<longrightarrow> 2 ^ 14 dvd j \<and> j + 2 ^ 14 \<le> e"
  shows "leaf (d + word_of_nat j) k = leaf d (j + k)" and "d + word_of_nat j \<noteq> 0"
    and "bit (d + word_of_nat j) 0 = bit d 0" and "bit (d + word_of_nat j) 1 = bit d 1"
    and "moves (d + word_of_nat j)" and "ext_ok (d + word_of_nat j) (e - j)"
    and "spte_type (d + word_of_nat j) = spte_type d"
proof -
  have d0: "d \<noteq> 0" using assms(2) by (auto simp: moves_def)
  have t: "spte_type d = SPTE_MAP" if "\<not> bit d 0" using assms(2) that by (simp add: moves_def)
  have lt: "unat d mod 2 ^ 50 + j < 2 ^ 50"
    using assms(1,3,5) hw_low [of d] d0 t by (cases "bit d 0") (auto simp: ext_ok_def)
  then have j: "unat (word_of_nat j :: u64) = j" by (intro unat_of_nat_small) simp
  note l = low_add [of d "word_of_nat j", unfolded j, OF lt assms(4)]
  note u = low_add_unat [of d "word_of_nat j", unfolded j, OF lt]
  show s: "spte_type (d + word_of_nat j) = spte_type d" by (simp add: spte_type_eq l)
  have f: "drop_bit 61 (d + word_of_nat j) = drop_bit 61 d"
    using arg_cong [OF l(1), of "drop_bit 11"] by simp
  show n: "d + word_of_nat j \<noteq> 0" using d0 u by (metis add_is_0 unat_eq_zero)
  show "bit (d + word_of_nat j) 0 = bit d 0" "bit (d + word_of_nat j) 1 = bit d 1" by (fact l)+
  show "moves (d + word_of_nat j)" using assms(2) s n l(2) by (auto simp: moves_def)
  show "leaf (d + word_of_nat j) k = leaf d (j + k)"
    using n d0 s f l(2,4,5) assms(5) t by (auto simp: leaf_def add.assoc)
  have "unat ((d AND PTE_TARGET_MASK) + word_of_nat j) = unat (d AND PTE_TARGET_MASK) + j"
    if "bit d 0"
    using that assms(1,3) j by (subst unat_add_small) (auto simp: ext_ok_def)
  moreover have "(unat d + j) mod 2 ^ 50 = unat d mod 2 ^ 50 + j" by (rule div_mod_add_small(2) [OF lt])
  ultimately show "ext_ok (d + word_of_nat j) (e - j)"
    using assms(1,3,5) n d0 s l(2,5) u t unfolding ext_ok_def by (auto simp: word_unat_eq_iff)
qed


text \<open>The part of an address below a boundary, at the granularity of a word.\<close>

definition off_in :: "nat \<Rightarrow> u64 \<Rightarrow> nat" where
  "off_in n a = unat a mod 2 ^ n div 4 * 4"

lemma off_masks:
  "a AND VADDR_L3_ALIGN_MASK = word_of_nat (off_in 14 a)"
  "a AND (VADDR_L2_ALIGN_MASK OR VADDR_L3_ALIGN_MASK) = word_of_nat (off_in 25 a)"
proof -
  show "a AND VADDR_L3_ALIGN_MASK = word_of_nat (off_in 14 a)"
    using unat_field [of 2 13 a] by (intro word_of_unat_eq) (simp add: VADDR_L3_ALIGN_MASK_def off_in_def)
  have "VADDR_L2_ALIGN_MASK OR VADDR_L3_ALIGN_MASK = GENMASK 24 2"
    by (rule bit_word_eqI) (auto simp: bit_simps pte_masks_bit bit_GENMASK)
  then show "a AND (VADDR_L2_ALIGN_MASK OR VADDR_L3_ALIGN_MASK) = word_of_nat (off_in 25 a)"
    using unat_field [of 2 24 a] by (intro word_of_unat_eq) (simp add: off_in_def)
qed

lemma off_in_less: "2 \<le> n \<Longrightarrow> off_in n a < 2 ^ n" "4 dvd off_in n a"
  unfolding off_in_def
  by (rule le_less_trans [OF div_times_less_eq_dividend]) simp_all

lemma pte_access_leaf: "\<not> bit d 0 \<Longrightarrow> pte_access d = leaf d 0"
  by (simp add: pte_access_def leaf_def hw_bit)

lemma leaf_fixed: "\<not> moves d \<Longrightarrow> leaf d k = leaf d k'"
  by (auto simp: leaf_def moves_def)

lemma leaf_type: "d \<noteq> 0 \<Longrightarrow> leaf (d OR PTE_TYPE) k = leaf d k"
proof -
  assume d: "d \<noteq> 0"
  have b: "bit PTE_TYPE n \<longleftrightarrow> n = 1" for n by (auto simp: PTE_TYPE_def bit_2_iff)
  have n: "d OR PTE_TYPE \<noteq> 0" using b [of 1] by (metis bit_0_eq bit_or_iff bot_apply bot_bool_def)
  have "(d OR PTE_TYPE) AND PTE_TARGET_MASK = d AND PTE_TARGET_MASK"
    "(d OR PTE_TYPE) AND PTE_TARGET_MASK_L4 = d AND PTE_TARGET_MASK_L4"
    "drop_bit 61 (d OR PTE_TYPE) = drop_bit 61 d" "drop_bit 50 (d OR PTE_TYPE) = drop_bit 50 d"
    by (rule bit_word_eqI, auto simp: bit_simps pte_masks_bit b)+
  then show ?thesis using d n b [of 0] by (simp add: leaf_def spte_type_eq bit_or_iff)
qed

lemma hw_result:
  assumes "bit d 0" and "off < 2 ^ m" and "4 dvd off" and "\<And>n. 14 \<le> n \<Longrightarrow> n < m \<Longrightarrow> \<not> bit d n" and "m \<le> 25"
  shows "pte_access ((d AND NOT PTE_LOWER_ATTRIBUTES) OR word_of_nat off) = leaf d off"
proof -
  have o: "bit (word_of_nat off :: u64) n \<Longrightarrow> 2 \<le> n \<and> n < m" for n
  proof -
    assume bn: "bit (word_of_nat off :: u64) n"
    then have bo: "bit off n" by (simp add: bit_of_nat_iff bit_simps)
    have "n < m"
    proof (rule ccontr)
      assume "\<not> n < m"
      then have "off < 2 ^ n" using assms(2) by (meson less_le_trans linorder_not_less one_le_numeral power_increasing)
      then show False using bo by (simp add: bit_iff_odd)
    qed
    moreover have "2 \<le> n"
    proof (rule ccontr)
      assume "\<not> 2 \<le> n"
      then have "n = 0 \<or> n = 1" by auto
      moreover obtain i where "off = 4 * i" using assms(3) by blast
      ultimately show False using bo by (auto simp: bit_iff_odd)
    qed
    ultimately show ?thesis by simp
  qed
  define x where "x = (d AND NOT PTE_LOWER_ATTRIBUTES) OR word_of_nat off"
  have b: "bit x 0" using assms(1) o [of 0] by (auto simp: x_def bit_simps pte_masks_bit)
  have "x AND PTE_TARGET_MASK_L4 = (d AND PTE_TARGET_MASK) OR word_of_nat off"
  proof (rule bit_word_eqI)
    fix n assume "n < LENGTH(64)"
    then show "bit (x AND PTE_TARGET_MASK_L4) n = bit ((d AND PTE_TARGET_MASK) OR word_of_nat off) n"
      using o [of n] assms(5) by (auto simp: x_def bit_simps pte_masks_bit)
  qed
  also have "\<dots> = (d AND PTE_TARGET_MASK) + word_of_nat off"
    using o assms(4) by (intro disjunctive_add [symmetric]) (auto simp: bit_simps pte_masks_bit)
  finally show ?thesis using b assms(1) unfolding x_def [symmetric] by (auto simp: pte_access_def leaf_def hw_bit)
qed

section \<open>Well-formed tables\<close>

definition wf_l3d :: "u64 \<Rightarrow> bool" where
  "wf_l3d d \<longleftrightarrow> d = 0 \<or> ((bit d 1 \<longleftrightarrow> bit d 0) \<and> ext_ok d (2 ^ 14))"

definition wf_l2d :: "u64 \<Rightarrow> bool" where
  "wf_l2d d \<longleftrightarrow> d = 0 \<or> (\<not> bit d 1 \<and> ext_ok d (2 ^ 25) \<and> (bit d 0 \<longrightarrow> d AND VADDR_L2_ALIGN_MASK = 0))"

definition wf_l3 :: "l3_entry \<Rightarrow> bool" where
  "wf_l3 e \<longleftrightarrow> (case e of L3_Desc d \<Rightarrow> wf_l3d d | L3_Tab t \<Rightarrow> \<forall>i < 4096. \<not> bit (t i) 0)"

definition wf_l2 :: "l2_entry \<Rightarrow> bool" where
  "wf_l2 e \<longleftrightarrow> (case e of L2_Desc d \<Rightarrow> wf_l2d d | L2_Tab t \<Rightarrow> \<forall>i < 2048. wf_l3 (t i))"

definition wf_pt :: "hv_pt \<Rightarrow> bool" where
  "wf_pt st \<longleftrightarrow> vaddr_bits st \<le> 44 \<and>
     (case hv_Ltop st of
        Top_L2 t \<Rightarrow> vaddr_bits st \<le> 36 \<and> (\<forall>i < 2048. wf_l2 (t i))
      | Top_L1 t \<Rightarrow> vaddr_bits st > 36 \<and>
          (\<forall>i < 256. case t i of L1_Desc d \<Rightarrow> d = 0 | L1_Tab t2 \<Rightarrow> \<forall>j < 2048. wf_l2 (t2 j)))"

lemma l2_aligned_bits: "d AND VADDR_L2_ALIGN_MASK = 0 \<Longrightarrow> 14 \<le> n \<Longrightarrow> n < 25 \<Longrightarrow> \<not> bit d n"
  by (drule arg_cong [where f = "\<lambda>x. bit x n"]) (simp add: bit_and_iff pte_masks_bit)

lemma sw_result:
  assumes "d \<noteq> 0" and "\<not> bit d 0" and "ext_ok d e" and "off < e" and "4 dvd off"
  shows "pte_access (if spte_type d = SPTE_MAP then d + word_of_nat off else d) = leaf d off"
proof (cases "spte_type d = SPTE_MAP")
  case True
  then have "moves d" using assms(1) by (simp add: moves_def)
  note a = leaf_add [OF assms(3) this assms(4,5)]
  show ?thesis using True assms(2) a(1) [of 0] a(3) by (simp add: pte_access_leaf)
next
  case False
  then show ?thesis using assms(1,2) leaf_fixed [of d 0 off] by (simp add: pte_access_leaf moves_def)
qed

lemma l3_result_leaf:
  assumes "wf_l3d d"
  shows "pte_access (l3_result a d) = leaf d (off_in 14 a)" and "\<not> L3_IS_TABLE d"
proof -
  show "\<not> L3_IS_TABLE d" using assms by (auto simp: wf_l3d_def L3_IS_TABLE_def hw_bit)
  consider (z) "d = 0" | (hw) "d \<noteq> 0" "bit d 0" | (sw) "d \<noteq> 0" "\<not> bit d 0" by blast
  then show "pte_access (l3_result a d) = leaf d (off_in 14 a)"
  proof cases
    case z
    then show ?thesis by (simp add: l3_result_def L3_IS_SW_BLOCK_def L3_IS_HW_BLOCK_def hw_bit leaf_def pte_access_def)
  next
    case hw
    then have "l3_result a d = (d AND NOT PTE_LOWER_ATTRIBUTES) OR word_of_nat (off_in 14 a)"
      using assms by (simp add: l3_result_def L3_IS_SW_BLOCK_def L3_IS_HW_BLOCK_def hw_bit off_masks wf_l3d_def Let_def)
    then show ?thesis using hw hw_result [of d "off_in 14 a" 14] off_in_less [of 14 a] by simp
  next
    case sw
    have e: "ext_ok d (2 ^ 14)" "\<not> bit d 1" using assms sw by (auto simp: wf_l3d_def)
    have "\<not> bit (d + word_of_nat (off_in 14 a)) 0" if "spte_type d = SPTE_MAP"
      using leaf_add(3) [OF e(1) _ _ off_in_less(2), of 14 a] sw that off_in_less(1) [of 14 a] by (simp add: moves_def)
    then have "l3_result a d = (if spte_type d = SPTE_MAP then d + word_of_nat (off_in 14 a) else d)"
      using sw e(2) by (simp add: l3_result_def L3_IS_SW_BLOCK_def L3_IS_HW_BLOCK_def hw_bit off_masks Let_def)
    then show ?thesis using sw_result [OF sw e(1) off_in_less(1) off_in_less(2)] by simp
  qed
qed

lemma l2_result_leaf:
  assumes "wf_l2d d"
  shows "pte_access (l2_result a d) = leaf d (off_in 25 a)" and "\<not> L2_IS_TABLE d"
proof -
  show "\<not> L2_IS_TABLE d" using assms by (auto simp: wf_l2d_def L2_IS_TABLE_def hw_bit)
  consider (z) "d = 0" | (hw) "d \<noteq> 0" "bit d 0" | (sw) "d \<noteq> 0" "\<not> bit d 0" by blast
  then show "pte_access (l2_result a d) = leaf d (off_in 25 a)"
  proof cases
    case z
    then show ?thesis by (simp add: l2_result_def L2_IS_SW_BLOCK_def L2_IS_HW_BLOCK_def hw_bit leaf_def pte_access_def)
  next
    case hw
    then have "l2_result a d = (d AND NOT PTE_LOWER_ATTRIBUTES) OR word_of_nat (off_in 25 a)" "d AND VADDR_L2_ALIGN_MASK = 0"
      using assms by (simp_all add: l2_result_def L2_IS_SW_BLOCK_def L2_IS_HW_BLOCK_def hw_bit off_masks wf_l2d_def Let_def)
    then show ?thesis
      using hw hw_result [of d "off_in 25 a" 25] off_in_less [of 25 a] l2_aligned_bits [of d] by simp
  next
    case sw
    have e: "ext_ok d (2 ^ 25)" "\<not> bit d 1" using assms sw by (auto simp: wf_l2d_def)
    have "\<not> bit (d + word_of_nat (off_in 25 a)) 0" if "spte_type d = SPTE_MAP"
      using leaf_add(3) [OF e(1) _ _ off_in_less(2), of 25 a] sw that off_in_less(1) [of 25 a] by (simp add: moves_def)
    then have "l2_result a d = (if spte_type d = SPTE_MAP then d + word_of_nat (off_in 25 a) else d)"
      using sw e(2) by (simp add: l2_result_def L2_IS_SW_BLOCK_def L2_IS_HW_BLOCK_def hw_bit off_masks Let_def)
    then show ?thesis using sw_result [OF sw e(1) off_in_less(1) off_in_less(2)] by simp
  qed
qed

section \<open>Splitting a block\<close>

lemma type_set: "(d AND NOT PTE_TYPE) OR PTE_TYPE = d OR PTE_TYPE"
  by (rule bit_word_eqI) (auto simp: bit_simps)

lemma type_bits: "bit (d OR PTE_TYPE) 0 = bit d 0" "bit (d OR PTE_TYPE) 1" "d OR PTE_TYPE \<noteq> 0"
proof -
  have b: "bit PTE_TYPE n \<longleftrightarrow> n = 1" for n by (auto simp: PTE_TYPE_def bit_2_iff)
  show "bit (d OR PTE_TYPE) 0 = bit d 0" "bit (d OR PTE_TYPE) 1" by (simp_all add: bit_or_iff b)
  then show "d OR PTE_TYPE \<noteq> 0" by (metis bit_0_eq bot_apply bot_bool_def)
qed

lemma ext_type: "bit d 0 \<Longrightarrow> ext_ok (d OR PTE_TYPE) e = ext_ok d e"
proof -
  assume "bit d 0"
  moreover have "(d OR PTE_TYPE) AND PTE_TARGET_MASK = d AND PTE_TARGET_MASK"
    by (rule bit_word_eqI) (auto simp: bit_simps pte_masks_bit PTE_TYPE_def bit_2_iff)
  ultimately show ?thesis using type_bits(1) [of d] by (simp add: ext_ok_def)
qed

text \<open>A page of a split block means what the block meant there.\<close>

lemma split_l2_entry:
  assumes "wf_l2d d" and "i < 2048"
  obtains d' where "split_l2 d i = L3_Desc d'" and "wf_l3d d'" and "\<And>k. k < 2 ^ 14 \<Longrightarrow> leaf d' k = leaf d (i * 2 ^ 14 + k)"
proof (cases "d = 0")
  case True
  then show ?thesis using that [of 0] by (simp add: split_l2_def wf_l3d_def leaf_def)
next
  case d0: False
  define x where "x = (if bit d 0 then d OR PTE_TYPE else d)"
  have x: "x \<noteq> 0" "bit x 0 = bit d 0" "bit x 1 = bit d 0" "ext_ok x (2 ^ 25)" "\<And>k. leaf x k = leaf d k"
    using assms(1) d0 type_bits [of d] by (auto simp: x_def wf_l2d_def ext_type leaf_type simp del: One_nat_def)
  have s: "split_l2 d i = L3_Desc (x + (if moves x then word_of_nat (i * 2 ^ 14) else 0))"
    using d0 x by (simp add: split_l2_def Let_def x_def hw_bit type_set moves_def type_bits)
  show ?thesis
  proof (cases "moves x")
    case False
    have "wf_l3d x" using x ext_ok_mono [OF x(4), of "2 ^ 14"] by (simp add: wf_l3d_def)
    then show ?thesis
      using that [of x] s False x(5) leaf_fixed [OF False] by simp
  next
    case True
    have le: "i * 2 ^ 14 + 2 ^ 14 \<le> (2 :: nat) ^ 25" "i * 2 ^ 14 < (2 :: nat) ^ 25"
    proof -
      have "(i + 1) * 2 ^ 14 \<le> 2048 * (2 :: nat) ^ 14" using assms(2) by (intro mult_right_mono) simp_all
      then show "i * 2 ^ 14 + 2 ^ 14 \<le> (2 :: nat) ^ 25" by simp
      then show "i * 2 ^ 14 < (2 :: nat) ^ 25" by simp
    qed
    have dv: "4 dvd i * 2 ^ 14" "(2 :: nat) ^ 14 dvd i * 2 ^ 14" by simp_all
    note a = leaf_add [OF x(4) True le(2) dv(1)]
    have c: "bit x 0 \<longrightarrow> 2 ^ 14 dvd i * 2 ^ 14 \<and> i * 2 ^ 14 + 2 ^ 14 \<le> (2 :: nat) ^ 25" using le by simp
    have "wf_l3d (x + word_of_nat (i * 2 ^ 14))"
      using a(3,4) [OF c] a(6) [OF c] ext_ok_mono [OF a(6) [OF c], of "2 ^ 14"] le x(2,3)
      unfolding wf_l3d_def by auto
    then show ?thesis using that [of "x + word_of_nat (i * 2 ^ 14)"] s True a(1) [OF c] x(5) by simp
  qed
qed

lemma split_l3_entry:
  assumes "wf_l3d d" and "i < 4096"
  shows "\<not> bit (split_l3 d i) 0" and "pte_access (split_l3 d i) = leaf d (4 * i)"
proof -
  define y where "y = (if bit d 0 then d AND PTE_TARGET_MASK else d)"
  have y: "\<not> bit y 0" "\<not> bit y 1" "ext_ok y (2 ^ 14)" "\<And>k. leaf y k = leaf d k"
  proof -
    show "\<not> bit y 0" "\<not> bit y 1"
      using assms(1) by (auto simp: y_def wf_l3d_def bit_and_iff pte_masks_bit)
    have m: "(d AND PTE_TARGET_MASK) AND PTE_TARGET_MASK_L4 = d AND PTE_TARGET_MASK" "drop_bit 61 (d AND PTE_TARGET_MASK) = 0"
      "drop_bit 50 (d AND PTE_TARGET_MASK) = 0" "take_bit 50 (d AND PTE_TARGET_MASK) = d AND PTE_TARGET_MASK"
      by (rule bit_word_eqI, auto simp: bit_simps pte_masks_bit)+
    have u: "unat (d AND PTE_TARGET_MASK) mod 2 ^ 50 = unat (d AND PTE_TARGET_MASK)"
      using unat_take [of 50 "d AND PTE_TARGET_MASK"] m(4) by simp
    show "ext_ok y (2 ^ 14)"
      using assms(1) u by (auto simp: y_def wf_l3d_def ext_ok_def bit_and_iff pte_masks_bit)
    show "leaf y k = leaf d k" for k
      using assms(1) m by (auto simp: y_def leaf_def wf_l3d_def ext_ok_def bit_and_iff pte_masks_bit spte_type_eq SPTE_MAP_def)
  qed
  have s: "split_l3 d i = (if y = 0 then 0 else (y OR PTE_TYPE) + (if moves y then word_of_nat (4 * i) else 0))"
  proof -
    have "spte_type (y OR PTE_TYPE) = spte_type y"
      by (rule bit_word_eqI) (auto simp: spte_type_eq bit_simps PTE_TYPE_def bit_2_iff)
    then show ?thesis
      using y(1) by (simp add: split_l3_def Let_def hw_bit y_def [symmetric] type_set moves_def mult.commute)
  qed
  have or_add: "z OR PTE_TYPE = z + 2" if "\<not> bit z 1" for z
    using that by (subst disjunctive_add) (auto simp: PTE_TYPE_def bit_2_iff)
  have "\<not> bit (split_l3 d i) 0 \<and> pte_access (split_l3 d i) = leaf y (4 * i)"
  proof (cases "y = 0")
    case True
    then show ?thesis using s by (simp add: pte_access_def leaf_def)
  next
    case y0: False
    define z where "z = y + (if moves y then word_of_nat (4 * i) else 0)"
    have z: "\<not> bit z 0" "\<not> bit z 1" "z \<noteq> 0" "leaf z 0 = leaf y (4 * i)"
      using leaf_add [OF y(3), of "4 * i"] y(1,2) y0 assms(2) leaf_fixed [of y 0 "4 * i"] by (auto simp: z_def)
    have "split_l3 d i = z OR PTE_TYPE"
      using s y0 or_add [OF y(2)] or_add [OF z(2)] by (simp add: z_def)
    then show ?thesis using z type_bits(1) [of z] by (simp add: pte_access_leaf leaf_type)
  qed
  then show "\<not> bit (split_l3 d i) 0" "pte_access (split_l3 d i) = leaf d (4 * i)" using y(4) by simp_all
qed

section \<open>The tables as a flat map\<close>

definition l3_access :: "l3_entry \<Rightarrow> u64 \<Rightarrow> access" where
  "l3_access e a = (case e of L3_Desc d \<Rightarrow> leaf d (off_in 14 a) | L3_Tab t \<Rightarrow> pte_access (t (l4_index a)))"

definition l2_access :: "l2_entry \<Rightarrow> u64 \<Rightarrow> access" where
  "l2_access e a = (case e of L2_Desc d \<Rightarrow> leaf d (off_in 25 a) | L2_Tab t \<Rightarrow> l3_access (t (l3_index a)) a)"

definition pt_access :: "hv_pt \<Rightarrow> u64 \<Rightarrow> access" where
  "pt_access st a =
     (case hv_Ltop st of
        Top_L2 t \<Rightarrow> l2_access (t (l2_index a)) a
      | Top_L1 t \<Rightarrow> (case t (l1_index a) of L1_Desc _ \<Rightarrow> Unmapped | L1_Tab t2 \<Rightarrow> l2_access (t2 (l2_index a)) a))"

lemma index_eqs:
  "l1_index a = unat a div 2 ^ 36" "l2_index a = unat a div 2 ^ 25 mod 2 ^ 11"
  "l3_index a = unat a div 2 ^ 14 mod 2 ^ 11" "l4_index a = unat a div 2 ^ 2 mod 2 ^ 12"
  by (simp_all only: l1_index_def l2_index_def l3_index_def l4_index_def unat_and_mask unat_drop)

lemma index_less [simp]: "l2_index a < 2048" "l3_index a < 2048" "l4_index a < 4096"
  by (simp_all add: index_eqs)

definition in_range :: "hv_pt \<Rightarrow> u64 \<Rightarrow> bool" where
  "in_range st a \<longleftrightarrow> unat a < 2 ^ vaddr_bits st"

lemma in_range_l1:
  assumes "wf_pt st" and "in_range st a"
  shows "l1_index a < 256" and "vaddr_bits st \<le> 36 \<Longrightarrow> l1_index a = 0"
proof -
  have "unat a < 2 ^ 44"
    using assms less_le_trans [of "unat a" "2 ^ vaddr_bits st" "2 ^ 44"] power_increasing [of "vaddr_bits st" 44 "2 :: nat"]
    by (simp add: wf_pt_def in_range_def)
  then have "unat a div 2 ^ 36 < 2 ^ 8" by (intro less_mult_imp_div_less) simp
  then show "l1_index a < 256" by (simp add: index_eqs)
  assume "vaddr_bits st \<le> 36"
  then have "unat a < 2 ^ 36"
    using assms less_le_trans [of "unat a" "2 ^ vaddr_bits st" "2 ^ 36"] power_increasing [of "vaddr_bits st" 36 "2 :: nat"]
    by (simp add: in_range_def)
  then show "l1_index a = 0" by (simp add: index_eqs)
qed

lemma walk_l3_access:
  assumes "wf_l3 e"
  shows "\<exists>pte. walk_l3 e a = Some pte \<and> pte_access pte = l3_access e a"
  using assms l3_result_leaf by (cases e) (auto simp: walk_l3_def as_l4_def wf_l3_def l3_access_def)

lemma walk_l2_access:
  assumes "wf_l2 e"
  shows "\<exists>pte. walk_l2 e a = Some pte \<and> pte_access pte = l2_access e a"
  using assms l2_result_leaf walk_l3_access
  by (cases e) (auto simp: walk_l2_def as_l3_def wf_l2_def l2_access_def)

lemma walk_access:
  assumes "wf_pt st" and "in_range st a"
  shows "\<exists>pte. hv_pt_walk st a = Some pte \<and> pte_access pte = pt_access st a"
proof (cases "hv_Ltop st")
  case (Top_L2 t)
  then have "wf_l2 (t (l2_index a))" "vaddr_bits st \<le> 36" using assms(1) by (simp_all add: wf_pt_def)
  then show ?thesis
    using Top_L2 walk_l2_access [of "t (l2_index a)" a] in_range_l1 [OF assms] by (auto simp: hv_pt_walk_def pt_access_def)
next
  case (Top_L1 t)
  have i: "l1_index a < 256" by (rule in_range_l1 [OF assms])
  have w: "vaddr_bits st > 36" "case t (l1_index a) of L1_Desc d \<Rightarrow> d = 0 | L1_Tab t2 \<Rightarrow> \<forall>j < 2048. wf_l2 (t2 j)"
    using assms(1) Top_L1 i by (simp_all add: wf_pt_def)
  then show ?thesis
    using Top_L1 i walk_l2_access
    by (cases "t (l1_index a)") (auto simp: hv_pt_walk_def pt_access_def as_l2_def L2_IS_TABLE_def pte_access_def)
qed

definition same_block :: "nat \<Rightarrow> u64 \<Rightarrow> u64 \<Rightarrow> bool" where
  "same_block n a b \<longleftrightarrow> unat a div 2 ^ n = unat b div 2 ^ n"

lemma div_mod_block:
  fixes x y :: nat
  assumes "n \<le> m"
  shows "x div 2 ^ n = y div 2 ^ n \<longleftrightarrow>
    x div 2 ^ m = y div 2 ^ m \<and> x div 2 ^ n mod 2 ^ (m - n) = y div 2 ^ n mod 2 ^ (m - n)"
proof -
  have "z div 2 ^ m = z div 2 ^ n div 2 ^ (m - n)" for z :: nat
    using assms by (simp add: div_mult2_eq [symmetric] power_add [symmetric])
  then show ?thesis by (metis div_mult_mod_eq)
qed

lemma same_block_l1: "same_block 25 a b \<longleftrightarrow> l1_index a = l1_index b \<and> l2_index a = l2_index b"
  using div_mod_block [of 25 36 "unat a" "unat b"] unfolding same_block_def index_eqs by simp

lemma same_block_l2: "same_block 14 a b \<longleftrightarrow> same_block 25 a b \<and> l3_index a = l3_index b"
  using div_mod_block [of 14 25 "unat a" "unat b"] unfolding same_block_def index_eqs by simp

lemma same_block_l3: "same_block 2 a b \<longleftrightarrow> same_block 14 a b \<and> l4_index a = l4_index b"
  using div_mod_block [of 2 14 "unat a" "unat b"] unfolding same_block_def index_eqs by simp

lemma off_split: "off_in 25 a = l3_index a * 2 ^ 14 + off_in 14 a" "off_in 14 a = 4 * l4_index a"
proof -
  have m: "x mod 2 ^ 25 = x div 2 ^ 14 mod 2 ^ 11 * 2 ^ 14 + x mod 2 ^ 14" for x :: nat
    using mod_mult2_eq [of x "2 ^ 14" "2 ^ 11"] by (simp add: mult.commute)
  have d: "(j * 2 ^ 14 + y) div 4 * 4 = j * 2 ^ 14 + y div 4 * 4" for j y :: nat
  proof -
    have "j * 2 ^ 14 + y = y + 4 * (j * 2 ^ 12)" by simp
    then show ?thesis by (simp only: div_mult_self2) simp
  qed
  show "off_in 25 a = l3_index a * 2 ^ 14 + off_in 14 a" unfolding off_in_def index_eqs m d ..
  have "x mod 2 ^ 14 div 4 = x div 4 mod 2 ^ 12" for x :: nat
    using mod_mult2_eq [of x 4 "2 ^ 12"] by simp
  then show "off_in 14 a = 4 * l4_index a" by (simp add: off_in_def index_eqs)
qed

section \<open>Lookup and store\<close>

lemma get_l2:
  assumes "wf_pt st" and "in_range st a"
  obtains t where "hv_pt_get_l2 st a = Some t" and "\<forall>i < 2048. wf_l2 (t i)"
    and "\<forall>b. l1_index b = l1_index a \<longrightarrow> pt_access st b = l2_access (t (l2_index b)) b"
proof (cases "hv_Ltop st")
  case (Top_L2 t)
  then show ?thesis
    using that [of t] assms in_range_l1 [OF assms] by (auto simp: wf_pt_def hv_pt_get_l2_def pt_access_def)
next
  case (Top_L1 t)
  have i: "l1_index a < 256" by (rule in_range_l1 [OF assms])
  have w: "vaddr_bits st > 36" "case t (l1_index a) of L1_Desc d \<Rightarrow> d = 0 | L1_Tab t2 \<Rightarrow> \<forall>j < 2048. wf_l2 (t2 j)"
    using assms(1) Top_L1 i by (simp_all add: wf_pt_def)
  show ?thesis
  proof (cases "t (l1_index a)")
    case (L1_Desc d)
    then show ?thesis
      using that [of "\<lambda>_. L2_Desc 0"] Top_L1 i w
      by (simp add: hv_pt_get_l2_def pt_access_def as_l2_def L2_IS_TABLE_def wf_l2_def wf_l2d_def l2_access_def leaf_def)
  next
    case (L1_Tab t2)
    then show ?thesis
      using that [of t2] Top_L1 i w by (simp add: hv_pt_get_l2_def pt_access_def as_l2_def)
  qed
qed

lemma put_l2:
  assumes "wf_pt st" and "in_range st a" and "\<forall>i < 2048. wf_l2 (t i)"
  shows "wf_pt (hv_pt_put_l2 st a t)" and "vaddr_bits (hv_pt_put_l2 st a t) = vaddr_bits st"
    and "in_range st b \<Longrightarrow> pt_access (hv_pt_put_l2 st a t) b =
       (if l1_index b = l1_index a then l2_access (t (l2_index b)) b else pt_access st b)"
  using assms in_range_l1 [OF assms(1), of b] in_range_l1 [OF assms(1,2)]
  by (cases "hv_Ltop st"; auto simp: hv_pt_put_l2_def wf_pt_def pt_access_def)+

lemma get_l3:
  assumes "wf_pt st" and "in_range st a"
  obtains t where "hv_pt_get_l3 st a = Some t" and "\<forall>i < 2048. wf_l3 (t i)"
    and "\<forall>b. same_block 25 b a \<longrightarrow> pt_access st b = l3_access (t (l3_index b)) b"
proof -
  obtain l2 where l2: "hv_pt_get_l2 st a = Some l2" "\<forall>i < 2048. wf_l2 (l2 i)"
    "\<forall>b. l1_index b = l1_index a \<longrightarrow> pt_access st b = l2_access (l2 (l2_index b)) b"
    using get_l2 [OF assms] by blast
  show ?thesis
  proof (cases "l2 (l2_index a)")
    case (L2_Tab t)
    then show ?thesis
      using that [of t] l2 l2(2) [rule_format, of "l2_index a"]
      by (simp add: hv_pt_get_l3_def as_l3_def wf_l2_def same_block_l1 l2_access_def)
  next
    case (L2_Desc d)
    have w: "wf_l2d d" using l2(2) [rule_format, of "l2_index a"] L2_Desc by (simp add: wf_l2_def)
    have "wf_l3 (split_l2 d i)" if "i < 2048" for i
      by (rule split_l2_entry [OF w that]) (simp add: wf_l3_def)
    moreover have "leaf d (off_in 25 b) = l3_access (split_l2 d (l3_index b)) b" for b
    proof -
      obtain d' where "split_l2 d (l3_index b) = L3_Desc d'" "leaf d' (off_in 14 b) = leaf d (l3_index b * 2 ^ 14 + off_in 14 b)"
        using split_l2_entry [OF w, of "l3_index b"] off_in_less(1) [of 14 b] by auto
      then show ?thesis by (simp add: l3_access_def off_split(1))
    qed
    ultimately show ?thesis
      using that [of "split_l2 d"] l2 L2_Desc l2_result_leaf(2) [OF w]
      by (simp add: hv_pt_get_l3_def as_l3_def same_block_l1 l2_access_def)
  qed
qed

lemma put_l3:
  assumes "wf_pt st" and "in_range st a" and "\<forall>i < 2048. wf_l3 (t i)"
  obtains st' where "hv_pt_put_l3 st a t = Some st'" and "wf_pt st'" and "vaddr_bits st' = vaddr_bits st"
    and "\<forall>b. in_range st b \<longrightarrow> pt_access st' b =
       (if same_block 25 b a then l3_access (t (l3_index b)) b else pt_access st b)"
proof -
  obtain l2 where l2: "hv_pt_get_l2 st a = Some l2" "\<forall>i < 2048. wf_l2 (l2 i)"
    "\<forall>b. l1_index b = l1_index a \<longrightarrow> pt_access st b = l2_access (l2 (l2_index b)) b"
    using get_l2 [OF assms(1,2)] by blast
  define l2' where "l2' = l2(l2_index a := L2_Tab t)"
  have w: "wf_l2 (l2' i)" if "i < 2048" for i using l2(2) assms(3) that by (simp add: l2'_def wf_l2_def)
  have w2: "\<forall>i < 2048. wf_l2 (l2' i)" using w by simp
  have e: "l2' i = (if i = l2_index a then L2_Tab t else l2 i)" for i by (simp add: l2'_def)
  note p = put_l2 [OF assms(1,2) w2]
  show ?thesis
  proof (rule that)
    show "hv_pt_put_l3 st a t = Some (hv_pt_put_l2 st a l2')" by (simp add: hv_pt_put_l3_def l2 l2'_def)
    show "wf_pt (hv_pt_put_l2 st a l2')" "vaddr_bits (hv_pt_put_l2 st a l2') = vaddr_bits st" by (rule p)+
    show "\<forall>b. in_range st b \<longrightarrow> pt_access (hv_pt_put_l2 st a l2') b =
        (if same_block 25 b a then l3_access (t (l3_index b)) b else pt_access st b)"
    proof (intro allI impI)
      fix b assume b: "in_range st b"
      have "pt_access (hv_pt_put_l2 st a l2') b =
          (if l1_index b = l1_index a then l2_access (l2' (l2_index b)) b else pt_access st b)"
        by (rule p(3) [OF b])
      moreover have "l2_access (l2' (l2_index b)) b =
          (if l2_index b = l2_index a then l3_access (t (l3_index b)) b else l2_access (l2 (l2_index b)) b)"
        by (simp add: e l2_access_def)
      ultimately show "pt_access (hv_pt_put_l2 st a l2') b =
          (if same_block 25 b a then l3_access (t (l3_index b)) b else pt_access st b)"
        using l2(3) by (cases "l1_index b = l1_index a"; cases "l2_index b = l2_index a"; simp add: same_block_l1)
    qed
  qed
qed

lemma get_l4:
  assumes "wf_pt st" and "in_range st a"
  obtains t where "hv_pt_get_l4 st a = Some t" and "\<forall>i < 4096. \<not> bit (t i) 0"
    and "\<forall>b. same_block 14 b a \<longrightarrow> pt_access st b = pte_access (t (l4_index b))"
proof -
  obtain l3 where l3: "hv_pt_get_l3 st a = Some l3" "\<forall>i < 2048. wf_l3 (l3 i)"
    "\<forall>b. same_block 25 b a \<longrightarrow> pt_access st b = l3_access (l3 (l3_index b)) b"
    using get_l3 [OF assms] by blast
  show ?thesis
  proof (cases "l3 (l3_index a)")
    case (L3_Tab t)
    then show ?thesis
      using that [of t] l3 l3(2) [rule_format, of "l3_index a"]
      by (simp add: hv_pt_get_l4_def as_l4_def wf_l3_def same_block_l2 l3_access_def)
  next
    case (L3_Desc d)
    have w: "wf_l3d d" using l3(2) [rule_format, of "l3_index a"] L3_Desc by (simp add: wf_l3_def)
    have b: "\<not> (IS_HW d \<and> d AND PTE_TYPE = 0)" using w by (auto simp: hw_bit wf_l3d_def)
    show ?thesis
      using that [of "split_l3 d"] l3 L3_Desc l3_result_leaf(2) [OF w] split_l3_entry [OF w] b
      by (simp add: hv_pt_get_l4_def as_l4_def same_block_l2 l3_access_def off_split(2))
  qed
qed

lemma put_l4:
  assumes "wf_pt st" and "in_range st a" and "\<forall>i < 4096. \<not> bit (t i) 0"
  obtains st' where "hv_pt_put_l4 st a t = Some st'" and "wf_pt st'" and "vaddr_bits st' = vaddr_bits st"
    and "\<forall>b. in_range st b \<longrightarrow> pt_access st' b =
       (if same_block 14 b a then pte_access (t (l4_index b)) else pt_access st b)"
proof -
  obtain l3 where l3: "hv_pt_get_l3 st a = Some l3" "\<forall>i < 2048. wf_l3 (l3 i)"
    "\<forall>b. same_block 25 b a \<longrightarrow> pt_access st b = l3_access (l3 (l3_index b)) b"
    using get_l3 [OF assms(1,2)] by blast
  define l3' where "l3' = l3(l3_index a := L3_Tab t)"
  have w: "wf_l3 (l3' i)" if "i < 2048" for i using l3(2) assms(3) that by (simp add: l3'_def wf_l3_def)
  obtain st' where p: "hv_pt_put_l3 st a l3' = Some st'" "wf_pt st'" "vaddr_bits st' = vaddr_bits st"
    "\<forall>b. in_range st b \<longrightarrow> pt_access st' b =
       (if same_block 25 b a then l3_access (l3' (l3_index b)) b else pt_access st b)"
    using put_l3 [OF assms(1,2), of l3'] w by blast
  show ?thesis
  proof (rule that)
    show "hv_pt_put_l4 st a t = Some st'" by (simp add: hv_pt_put_l4_def l3 p(1) [unfolded l3'_def])
    show "\<forall>b. in_range st b \<longrightarrow> pt_access st' b =
        (if same_block 14 b a then pte_access (t (l4_index b)) else pt_access st b)"
      using p(4) l3(3) by (auto simp: same_block_l2 l3'_def l3_access_def)
  qed (fact p)+
qed

end
