(* ===== verification/Stage2_Mapping.thy ===== *)
theory Stage2_Mapping
  imports Stage2_Access
begin

text \<open>
  What mapping does to the meaning of the tables.  The contract of one table level is the locale
  \<open>map_level\<close>: a step that maps one block correctly and a loop over it; the three loops of the code
  are its instances, and the five stages of \<^verbatim>\<open>hv_map\<close> compose them.
\<close>

section \<open>Mapping a range\<close>

definition covers :: "hv_pt \<Rightarrow> hv_pt \<Rightarrow> u64 \<Rightarrow> u64 \<Rightarrow> nat \<Rightarrow> bool" where
  "covers st st' from to n \<longleftrightarrow> wf_pt st' \<and> vaddr_bits st' = vaddr_bits st \<and>
     (\<forall>b. in_range st b \<longrightarrow> pt_access st' b =
        (if unat from \<le> unat b \<and> unat b < unat from + n
         then leaf to ((unat b - unat from) div 4 * 4) else pt_access st b))"

lemma covers_refl: "wf_pt st \<Longrightarrow> covers st st from to 0"
  by (auto simp: covers_def)

lemma covers_leaf: "covers st st' from to n \<Longrightarrow> (\<And>k. leaf to k = leaf to' k) \<Longrightarrow> covers st st' from to' n"
  by (simp add: covers_def)

lemma covers_append:
  assumes "covers st st1 from to n1" and "covers st1 st2 from2 to2 n2" and "4 dvd n1"
    and "unat from2 = unat from + n1" and "\<And>k. k < n2 \<Longrightarrow> leaf to2 k = leaf to (n1 + k)"
  shows "covers st st2 from to (n1 + n2)"
  unfolding covers_def
proof (intro conjI allI impI)
  show "wf_pt st2" "vaddr_bits st2 = vaddr_bits st" using assms(1,2) by (simp_all add: covers_def)
  fix b assume b: "in_range st b"
  then have b1: "in_range st1 b" using assms(1) by (simp add: covers_def in_range_def)
  obtain j where j: "n1 = 4 * j" using assms(3) by blast
  show "pt_access st2 b = (if unat from \<le> unat b \<and> unat b < unat from + (n1 + n2)
         then leaf to ((unat b - unat from) div 4 * 4) else pt_access st b)"
  proof (cases "unat from2 \<le> unat b \<and> unat b < unat from2 + n2")
    case True
    define x where "x = unat b - unat from2"
    have "unat b - unat from = x + n1" "x < n2" using True assms(4) by (auto simp: x_def)
    moreover have "x div 4 * 4 < n2" using \<open>x < n2\<close> div_times_less_eq_dividend [of x 4] by linarith
    moreover have "(x + n1) div 4 * 4 = n1 + x div 4 * 4" by (simp add: j)
    ultimately show ?thesis
      using True assms(2,4) b1 assms(5) [of "x div 4 * 4"] by (auto simp: covers_def x_def)
  next
    case False
    then have "pt_access st2 b = pt_access st1 b" using assms(2) b1 by (auto simp: covers_def)
    also have "\<dots> = (if unat from \<le> unat b \<and> unat b < unat from + n1
         then leaf to ((unat b - unat from) div 4 * 4) else pt_access st b)"
      using assms(1) b by (simp add: covers_def)
    finally show ?thesis using False assms(4) by auto
  qed
qed

text \<open>
  The contract of one table level: \<open>step\<close> writes one entry of \<open>2 ^ m\<close> bytes and \<open>loop\<close> writes
  consecutive entries.  \<open>ok\<close> is the shape a descriptor must have at that level; \<open>slack\<close> is the
  room the level's own type bit takes in the descriptor.
\<close>

locale map_level =
  fixes step :: "hv_pt \<Rightarrow> u64 \<Rightarrow> u64 \<Rightarrow> hv_pt option"
    and loop :: "nat \<Rightarrow> hv_pt \<Rightarrow> u64 \<Rightarrow> u64 \<Rightarrow> u64 \<Rightarrow> hv_pt option"
    and m slack :: nat and ok :: "u64 \<Rightarrow> bool"
  assumes width: "2 \<le> m" "m \<le> 25" "slack < 2 ^ m"
    and loop_0: "loop 0 st from to incr = Some st"
    and loop_Suc: "loop (Suc n) st from to incr =
       Option.bind (step st from to) (\<lambda>st1. loop n st1 (from + push_bit m 1) (to + incr * push_bit m 1) incr)"
    and step_covers: "wf_pt st \<Longrightarrow> in_range st from \<Longrightarrow> 2 ^ m dvd unat from \<Longrightarrow> ok to \<Longrightarrow>
       ext_ok to (2 ^ m - slack) \<Longrightarrow> \<exists>st'. step st from to = Some st' \<and> covers st st' from to (2 ^ m)"
    and ok_hw: "ok to \<Longrightarrow> bit to 0 \<Longrightarrow> 14 \<le> m \<and> slack = 0"
    and ok_add: "ok to \<Longrightarrow> ext_ok to e \<Longrightarrow> moves to \<Longrightarrow> 2 ^ m < e \<Longrightarrow> (bit to 0 \<longrightarrow> 2 ^ m + 2 ^ 14 \<le> e) \<Longrightarrow>
       ok (to + word_of_nat (2 ^ m))"
begin

lemma loop_covers:
  assumes "wf_pt st" and "unat from + n * 2 ^ m \<le> 2 ^ vaddr_bits st" and "2 ^ m dvd unat from" and "ok to"
    and "0 < n \<longrightarrow> ext_ok to (n * 2 ^ m - slack)" and "incr = (if moves to then 1 else 0)"
  shows "\<exists>st'. loop n st from to incr = Some st' \<and> covers st st' from to (n * 2 ^ m)"
  using assms
proof (induction n arbitrary: st "from" to)
  case 0
  then show ?case by (simp add: loop_0 covers_refl)
next
  case (Suc n)
  have pow: "push_bit m 1 = (word_of_nat (2 ^ m) :: u64)" by (simp add: push_bit_eq_mult)
  have "(0 :: nat) < 2 ^ m" by simp
  then have r: "in_range st from" using Suc.prems(2) unfolding in_range_def mult_Suc by linarith
  have e: "ext_ok to (Suc n * 2 ^ m - slack)" using Suc.prems(5) by simp
  have "(2 :: nat) ^ m \<le> Suc n * 2 ^ m" by simp
  then have "ext_ok to (2 ^ m - slack)" by (intro ext_ok_mono [OF e] diff_le_mono)
  from step_covers [OF Suc.prems(1) r Suc.prems(3,4) this]
  obtain st1 where 1: "step st from to = Some st1" "covers st st1 from to (2 ^ m)" by blast
  show ?case
  proof (cases "n = 0")
    case True
    then show ?thesis using 1 by (simp add: loop_Suc loop_0)
  next
    case False
    have v: "vaddr_bits st \<le> 44" using Suc.prems(1) by (simp add: wf_pt_def)
    have big: "unat from + 2 ^ m < 2 ^ vaddr_bits st"
    proof -
      have "1 * 2 ^ m \<le> n * (2 :: nat) ^ m" using False by (intro mult_right_mono) simp_all
      then show ?thesis using Suc.prems(2) \<open>(0 :: nat) < 2 ^ m\<close> unfolding mult_Suc by linarith
    qed
    have "(2 :: nat) ^ vaddr_bits st \<le> 2 ^ 44" using v by (rule power_increasing) simp
    moreover have uw: "unat (word_of_nat (2 ^ m) :: u64) = 2 ^ m"
      by (rule unat_of_nat_small, rule power_strict_increasing) (use width in simp_all)
    ultimately have u: "unat (from + word_of_nat (2 ^ m)) = unat from + 2 ^ m"
      using big unat_add_small [of "from" "word_of_nat (2 ^ m)"] by (simp only: uw) simp
    define to2 where "to2 = to + incr * push_bit m 1"
    have le: "2 ^ m < Suc n * 2 ^ m - slack" "bit to 0 \<longrightarrow> 2 ^ m + 2 ^ 14 \<le> Suc n * 2 ^ m - slack"
      "Suc n * 2 ^ m - slack - 2 ^ m = n * 2 ^ m - slack"
    proof -
      have q: "2 * 2 ^ m \<le> Suc n * (2 :: nat) ^ m" using False by (intro mult_right_mono) simp_all
      then show "2 ^ m < Suc n * 2 ^ m - slack" using width(3) by linarith
      show "bit to 0 \<longrightarrow> 2 ^ m + 2 ^ 14 \<le> Suc n * 2 ^ m - slack"
      proof
        assume "bit to 0"
        then have "14 \<le> m" "slack = 0" using ok_hw [OF Suc.prems(4)] by simp_all
        moreover from this have "(2 :: nat) ^ 14 \<le> 2 ^ m" by (intro power_increasing) simp_all
        ultimately show "2 ^ m + 2 ^ 14 \<le> Suc n * 2 ^ m - slack" using q by linarith
      qed
      show "Suc n * 2 ^ m - slack - 2 ^ m = n * 2 ^ m - slack" by simp
    qed
    have dv: "(4 :: nat) dvd 2 ^ m" using le_imp_power_dvd [OF width(1), of "2 :: nat"] by simp
    have dv14: "bit to 0 \<longrightarrow> (2 :: nat) ^ 14 dvd 2 ^ m" using ok_hw [OF Suc.prems(4)] le_imp_power_dvd [of 14 m "2 :: nat"] by blast
    have t: "ok to2" "ext_ok to2 (n * 2 ^ m - slack)" "incr = (if moves to2 then 1 else 0)"
      "\<And>k. leaf to2 k = leaf to (2 ^ m + k)"
    proof -
      have c: "bit to 0 \<longrightarrow> 2 ^ 14 dvd (2 :: nat) ^ m \<and> 2 ^ m + 2 ^ 14 \<le> Suc n * 2 ^ m - slack"
        using le(2) dv14 by simp
      show "ok to2" "ext_ok to2 (n * 2 ^ m - slack)" "incr = (if moves to2 then 1 else 0)"
        "leaf to2 k = leaf to (2 ^ m + k)" for k
        using Suc.prems(4,6) leaf_add [OF e _ le(1) dv c] ok_add [OF Suc.prems(4) e _ le(1,2)] le(3)
          ext_ok_mono [OF e, of "n * 2 ^ m - slack"] leaf_fixed [of to]
        by (cases "moves to"; simp add: to2_def pow)+
    qed
    have "2 ^ m dvd unat (from + word_of_nat (2 ^ m))" using Suc.prems(3) u by simp
    moreover have "unat (from + word_of_nat (2 ^ m)) + n * 2 ^ m \<le> 2 ^ vaddr_bits st1"
      using Suc.prems(2) u 1(2) by (simp add: covers_def)
    ultimately obtain st2 where 2: "loop n st1 (from + push_bit m 1) to2 incr = Some st2"
      "covers st1 st2 (from + push_bit m 1) to2 (n * 2 ^ m)"
      using Suc.IH [of st1 "from + push_bit m 1" to2] t 1(2) pow by (auto simp: covers_def)
    have "covers st st2 from to (2 ^ m + n * 2 ^ m)"
      using covers_append [OF 1(2) 2(2) dv] u pow t(4) by simp
    then show ?thesis using 1 2 by (simp add: loop_Suc to2_def)
  qed
qed

end

definition step_l2 :: "hv_pt \<Rightarrow> u64 \<Rightarrow> u64 \<Rightarrow> hv_pt option" where
  "step_l2 st from to =
     do {
       l2 \<leftarrow> hv_pt_get_l2 st from;
       _ \<leftarrow> as_l3 (l2 (l2_index from));
       Some (hv_pt_put_l2 st from (l2(l2_index from := L2_Desc to)))
     }"

definition step_l3 :: "hv_pt \<Rightarrow> u64 \<Rightarrow> u64 \<Rightarrow> hv_pt option" where
  "step_l3 st from to =
     do {
       l3 \<leftarrow> hv_pt_get_l3 st from;
       _ \<leftarrow> as_l4 (l3 (l3_index from));
       hv_pt_put_l3 st from (l3(l3_index from := L3_Desc to))
     }"

definition step_l4 :: "hv_pt \<Rightarrow> u64 \<Rightarrow> u64 \<Rightarrow> hv_pt option" where
  "step_l4 st from to =
     do {
       l4 \<leftarrow> hv_pt_get_l4 st from;
       hv_pt_put_l4 st from (l4(l4_index from := to))
     }"

lemma block_range:
  assumes "2 ^ n dvd unat a"
  shows "same_block n b a \<longleftrightarrow> unat a \<le> unat b \<and> unat b < unat a + 2 ^ n"
    and "same_block n b a \<Longrightarrow> unat b - unat a = unat b mod 2 ^ n"
proof -
  obtain q where q: "unat a = 2 ^ n * q" using assms by blast
  have d: "unat a div 2 ^ n = q" by (simp add: q)
  show s: "same_block n b a \<longleftrightarrow> unat a \<le> unat b \<and> unat b < unat a + 2 ^ n"
  proof
    assume "same_block n b a"
    then have "unat b div 2 ^ n = q" using d by (simp add: same_block_def)
    then have e: "unat b = unat a + unat b mod 2 ^ n"
      using div_mult_mod_eq [of "unat b" "2 ^ n"] q by (simp only: mult.commute)
    moreover have "unat b mod 2 ^ n < 2 ^ n" by simp
    ultimately show "unat a \<le> unat b \<and> unat b < unat a + 2 ^ n" by linarith
  next
    assume "unat a \<le> unat b \<and> unat b < unat a + 2 ^ n"
    then have "unat b div 2 ^ n = q" using q by (intro div_nat_eqI) (simp_all add: mult.commute)
    then show "same_block n b a" using d by (simp add: same_block_def)
  qed
  assume "same_block n b a"
  then have "unat b div 2 ^ n = q" using d by (simp add: same_block_def)
  then show "unat b - unat a = unat b mod 2 ^ n"
    using div_mult_mod_eq [of "unat b" "2 ^ n"] q by (simp add: mult.commute)
qed


lemma block_covers:
  assumes "wf_pt st'" and "vaddr_bits st' = vaddr_bits st" and "2 ^ n dvd unat a"
    and "\<And>b. in_range st b \<Longrightarrow> pt_access st' b = (if same_block n b a then leaf to (off_in n b) else pt_access st b)"
  shows "covers st st' a to (2 ^ n)"
  unfolding covers_def
proof (intro conjI allI impI)
  fix b assume "in_range st b"
  then show "pt_access st' b = (if unat a \<le> unat b \<and> unat b < unat a + 2 ^ n
       then leaf to ((unat b - unat a) div 4 * 4) else pt_access st b)"
    using assms(4) [of b] block_range [OF assms(3), of b] by (simp add: off_in_def)
qed (fact assms)+

lemma step_l2_covers:
  assumes "wf_pt st" and "in_range st from" and "2 ^ 25 dvd unat from" and "wf_l2d to"
  shows "\<exists>st'. step_l2 st from to = Some st' \<and> covers st st' from to (2 ^ 25)"
proof -
  obtain l2 where l2: "hv_pt_get_l2 st from = Some l2" "\<forall>i < 2048. wf_l2 (l2 i)"
    "\<forall>b. l1_index b = l1_index from \<longrightarrow> pt_access st b = l2_access (l2 (l2_index b)) b"
    using get_l2 [OF assms(1,2)] by blast
  define l2' where "l2' = l2(l2_index from := L2_Desc to)"
  have w: "\<forall>i < 2048. wf_l2 (l2' i)" using l2(2) assms(4) by (simp add: l2'_def wf_l2_def)
  note p = put_l2 [OF assms(1,2) w]
  have "as_l3 (l2 (l2_index from)) \<noteq> None"
    using l2(2) [rule_format, of "l2_index from"] l2_result_leaf(2)
    by (auto simp: as_l3_def wf_l2_def split: l2_entry.splits)
  then have "step_l2 st from to = Some (hv_pt_put_l2 st from l2')"
    by (auto simp: step_l2_def l2 l2'_def)
  moreover have "covers st (hv_pt_put_l2 st from l2') from to (2 ^ 25)"
  proof (rule block_covers [OF p(1,2) assms(3)])
    fix b assume b: "in_range st b"
    have "pt_access (hv_pt_put_l2 st from l2') b =
        (if l1_index b = l1_index from then l2_access (l2' (l2_index b)) b else pt_access st b)" by (rule p(3) [OF b])
    moreover have "l2_access (l2' (l2_index b)) b =
        (if l2_index b = l2_index from then leaf to (off_in 25 b) else l2_access (l2 (l2_index b)) b)"
      by (simp add: l2'_def l2_access_def)
    ultimately show "pt_access (hv_pt_put_l2 st from l2') b =
        (if same_block 25 b from then leaf to (off_in 25 b) else pt_access st b)"
      using l2(3) by (cases "l1_index b = l1_index from"; cases "l2_index b = l2_index from"; simp add: same_block_l1)
  qed
  ultimately show ?thesis by blast
qed

lemma step_l3_covers:
  assumes "wf_pt st" and "in_range st from" and "2 ^ 14 dvd unat from" and "wf_l3d to"
  shows "\<exists>st'. step_l3 st from to = Some st' \<and> covers st st' from to (2 ^ 14)"
proof -
  obtain l3 where l3: "hv_pt_get_l3 st from = Some l3" "\<forall>i < 2048. wf_l3 (l3 i)"
    "\<forall>b. same_block 25 b from \<longrightarrow> pt_access st b = l3_access (l3 (l3_index b)) b"
    using get_l3 [OF assms(1,2)] by blast
  define l3' where "l3' = l3(l3_index from := L3_Desc to)"
  have w: "\<forall>i < 2048. wf_l3 (l3' i)" using l3(2) assms(4) by (simp add: l3'_def wf_l3_def)
  obtain st' where p: "hv_pt_put_l3 st from l3' = Some st'" "wf_pt st'" "vaddr_bits st' = vaddr_bits st"
    "\<forall>b. in_range st b \<longrightarrow> pt_access st' b = (if same_block 25 b from then l3_access (l3' (l3_index b)) b else pt_access st b)"
    using put_l3 [OF assms(1,2) w] by blast
  have "as_l4 (l3 (l3_index from)) \<noteq> None"
    using l3(2) [rule_format, of "l3_index from"] l3_result_leaf(2)
    by (auto simp: as_l4_def wf_l3_def split: l3_entry.splits)
  then have "step_l3 st from to = Some st'"
    using p(1) by (auto simp: step_l3_def l3 l3'_def)
  moreover have "covers st st' from to (2 ^ 14)"
  proof (rule block_covers [OF p(2,3) assms(3)])
    fix b assume b: "in_range st b"
    have "l3_access (l3' (l3_index b)) b =
        (if l3_index b = l3_index from then leaf to (off_in 14 b) else l3_access (l3 (l3_index b)) b)"
      by (simp add: l3'_def l3_access_def)
    then show "pt_access st' b = (if same_block 14 b from then leaf to (off_in 14 b) else pt_access st b)"
      using p(4) b l3(3) by (cases "same_block 25 b from"; cases "l3_index b = l3_index from"; simp add: same_block_l2)
  qed
  ultimately show ?thesis by blast
qed

lemma step_l4_covers:
  assumes "wf_pt st" and "in_range st from" and "2 ^ 2 dvd unat from" and "\<not> bit to 0"
  shows "\<exists>st'. step_l4 st from to = Some st' \<and> covers st st' from to (2 ^ 2)"
proof -
  obtain l4 where l4: "hv_pt_get_l4 st from = Some l4" "\<forall>i < 4096. \<not> bit (l4 i) 0"
    "\<forall>b. same_block 14 b from \<longrightarrow> pt_access st b = pte_access (l4 (l4_index b))"
    using get_l4 [OF assms(1,2)] by blast
  define l4' where "l4' = l4(l4_index from := to)"
  have w: "\<forall>i < 4096. \<not> bit (l4' i) 0" using l4(2) assms(4) by (simp add: l4'_def)
  obtain st' where p: "hv_pt_put_l4 st from l4' = Some st'" "wf_pt st'" "vaddr_bits st' = vaddr_bits st"
    "\<forall>b. in_range st b \<longrightarrow> pt_access st' b = (if same_block 14 b from then pte_access (l4' (l4_index b)) else pt_access st b)"
    using put_l4 [OF assms(1,2)] w by blast
  have "step_l4 st from to = Some st'" using p(1) by (simp add: step_l4_def l4 l4'_def)
  moreover have "covers st st' from to (2 ^ 2)"
  proof (rule block_covers [OF p(2,3) assms(3)])
    fix b assume b: "in_range st b"
    have "off_in 2 b = 0" by (simp add: off_in_def)
    then show "pt_access st' b = (if same_block 2 b from then leaf to (off_in 2 b) else pt_access st b)"
      using p(4) b l4(3) assms(4)
      by (cases "same_block 14 b from"; cases "l4_index b = l4_index from"; simp add: same_block_l3 l4'_def pte_access_leaf)
  qed
  ultimately show ?thesis by blast
qed

lemma l2_align_add:
  assumes "d AND VADDR_L2_ALIGN_MASK = 0" and "unat (d + k) = unat d + unat k" and "2 ^ 25 dvd unat k"
  shows "(d + k) AND VADDR_L2_ALIGN_MASK = 0"
proof -
  obtain j where "unat k = 2 ^ 25 * j" using assms(3) by blast
  then have "unat (d + k) mod 2 ^ Suc 24 = unat d mod 2 ^ Suc 24" using assms(2) by simp
  then have "unat ((d + k) AND VADDR_L2_ALIGN_MASK) = unat (d AND VADDR_L2_ALIGN_MASK)"
    by (simp only: VADDR_L2_ALIGN_MASK_def unat_field)
  then show ?thesis using assms(1) by (simp add: word_unat_eq_iff)
qed

lemma moves_add_unat:
  assumes "ext_ok d e" and "moves d" and "j < e" and "bit d 0 \<longrightarrow> j + 2 ^ 14 \<le> e"
  shows "unat (d + word_of_nat j) = unat d + j"
proof -
  have "unat d mod 2 ^ 50 + j < 2 ^ 50"
    using assms hw_low [of d] by (cases "bit d 0") (auto simp: ext_ok_def moves_def)
  moreover from this have "unat (word_of_nat j :: u64) = j" by (intro unat_of_nat_small) simp
  ultimately show ?thesis using low_add_unat [of d "word_of_nat j"] by simp
qed

interpretation level2: map_level step_l2 map_l2_loop 25 0
  "\<lambda>d. d = 0 \<or> (\<not> bit d 1 \<and> (bit d 0 \<longrightarrow> d AND VADDR_L2_ALIGN_MASK = 0))"
proof unfold_locales
  fix st "from" to
  assume a: "wf_pt st" "in_range st from" "2 ^ 25 dvd unat from"
    and w: "to = 0 \<or> (\<not> bit to 1 \<and> (bit to 0 \<longrightarrow> to AND VADDR_L2_ALIGN_MASK = 0))" "ext_ok to (2 ^ 25 - 0)"
  have "wf_l2d to" using w by (auto simp: wf_l2d_def)
  then show "\<exists>st'. step_l2 st from to = Some st' \<and> covers st st' from to (2 ^ 25)"
    using step_l2_covers [OF a] by simp
next
  fix to e
  assume w: "to = 0 \<or> (\<not> bit to 1 \<and> (bit to 0 \<longrightarrow> to AND VADDR_L2_ALIGN_MASK = 0))"
    and e: "ext_ok to e" "moves to" "2 ^ 25 < e" "bit to 0 \<longrightarrow> 2 ^ 25 + 2 ^ 14 \<le> e"
  have c: "bit to 0 \<longrightarrow> 2 ^ 14 dvd (2 :: nat) ^ 25 \<and> 2 ^ 25 + 2 ^ 14 \<le> e" using e(4) by simp
  have d4: "(4 :: nat) dvd 2 ^ 25" by simp
  note a = leaf_add [OF e(1,2,3) d4 c]
  have "to \<noteq> 0" using e(2) by (auto simp: moves_def)
  then have b: "\<not> bit (to + word_of_nat (2 ^ 25)) 1" using w a(4) by simp
  have "(to + word_of_nat (2 ^ 25)) AND VADDR_L2_ALIGN_MASK = 0" if "bit to 0"
  proof (rule l2_align_add)
    show "to AND VADDR_L2_ALIGN_MASK = 0" using w that by auto
    have u: "unat (word_of_nat (2 ^ 25) :: u64) = 2 ^ 25" by (rule unat_of_nat_small) simp
    show "unat (to + word_of_nat (2 ^ 25)) = unat to + unat (word_of_nat (2 ^ 25) :: u64)"
      using moves_add_unat [OF e] u by simp
    show "2 ^ 25 dvd unat (word_of_nat (2 ^ 25) :: u64)" unfolding u by simp
  qed
  then show "to + word_of_nat (2 ^ 25) = 0 \<or> (\<not> bit (to + word_of_nat (2 ^ 25)) 1 \<and>
      (bit (to + word_of_nat (2 ^ 25)) 0 \<longrightarrow> (to + word_of_nat (2 ^ 25)) AND VADDR_L2_ALIGN_MASK = 0))"
    using a(3) b by blast
qed (simp_all add: step_l2_def Option.bind_assoc)

interpretation level3: map_level step_l3 map_l3_loop 14 0 "\<lambda>d. d = 0 \<or> (bit d 1 \<longleftrightarrow> bit d 0)"
proof unfold_locales
  fix st "from" to
  assume a: "wf_pt st" "in_range st from" "2 ^ 14 dvd unat from"
    and w: "to = 0 \<or> (bit to 1 \<longleftrightarrow> bit to 0)" "ext_ok to (2 ^ 14 - 0)"
  have "wf_l3d to" using w by (auto simp: wf_l3d_def)
  then show "\<exists>st'. step_l3 st from to = Some st' \<and> covers st st' from to (2 ^ 14)"
    using step_l3_covers [OF a] by simp
next
  fix to e
  assume w: "to = 0 \<or> (bit to 1 \<longleftrightarrow> bit to 0)"
    and e: "ext_ok to e" "moves to" "2 ^ 14 < e" "bit to 0 \<longrightarrow> 2 ^ 14 + 2 ^ 14 \<le> e"
  have c: "bit to 0 \<longrightarrow> 2 ^ 14 dvd (2 :: nat) ^ 14 \<and> 2 ^ 14 + 2 ^ 14 \<le> e" using e(4) by simp
  have d4: "(4 :: nat) dvd 2 ^ 14" by simp
  note a = leaf_add [OF e(1,2,3) d4 c]
  have "to \<noteq> 0" using e(2) by (auto simp: moves_def)
  then show "to + word_of_nat (2 ^ 14) = 0 \<or> (bit (to + word_of_nat (2 ^ 14)) 1 \<longleftrightarrow> bit (to + word_of_nat (2 ^ 14)) 0)"
    using w a(3,4) by simp
qed (simp_all add: step_l3_def Option.bind_assoc)

interpretation level4: map_level step_l4 map_l4_loop 2 2 "\<lambda>d. \<not> bit d 0"
proof unfold_locales
  fix st "from" and to :: u64
  assume "wf_pt st" "in_range st from" "2 ^ 2 dvd unat from" "\<not> bit to 0"
  then show "\<exists>st'. step_l4 st from to = Some st' \<and> covers st st' from to (2 ^ 2)" by (rule step_l4_covers)
next
  fix to e
  assume w: "\<not> bit to 0" and e: "ext_ok to e" "moves to" "2 ^ 2 < e" "bit to 0 \<longrightarrow> 2 ^ 2 + 2 ^ 14 \<le> e"
  have c: "bit to 0 \<longrightarrow> 2 ^ 14 dvd (2 :: nat) ^ 2 \<and> 2 ^ 2 + 2 ^ 14 \<le> e" using w by simp
  have d4: "(4 :: nat) dvd 2 ^ 2" by simp
  show "\<not> bit (to + word_of_nat (2 ^ 2)) 0" using leaf_add(3) [OF e(1,2,3) d4 c] w by simp
qed (simp_all add: step_l4_def Option.bind_assoc)

text \<open>What a caller of the mapping functions must provide.\<close>

definition arg_ok :: "u64 \<Rightarrow> u64 \<Rightarrow> nat \<Rightarrow> bool" where
  "arg_ok to incr n \<longleftrightarrow> ext_ok to n \<and> \<not> bit to 1 \<and> incr = (if moves to then 1 else 0)"

lemma and_mask_0: "(x :: u64) AND mask n = 0 \<longleftrightarrow> 2 ^ n dvd unat x"
  by (metis dvd_eq_mod_eq_0 unat_and_mask unat_eq_zero)

lemma size_split: "2 ^ n dvd unat (sz :: u64) \<Longrightarrow> unat (drop_bit n sz) * 2 ^ n = unat sz"
  by (simp add: unat_drop)

lemma map_l2_covers:
  assumes "wf_pt st" and "arg_ok to incr (unat sz)" and "2 ^ 25 dvd unat from" and "2 ^ 25 dvd unat sz"
    and "unat from + unat sz \<le> 2 ^ vaddr_bits st" and "sz \<noteq> 0" and "IS_HW to \<longrightarrow> to AND VADDR_L2_ALIGN_MASK = 0"
  shows "\<exists>st'. hv_pt_map_l2 st from to sz incr = Some st' \<and> covers st st' from to (unat sz)"
proof -
  note n = size_split [OF assms(4)]
  have "to AND PTE_TARGET_MASK AND mask 25 = to AND VADDR_L2_ALIGN_MASK"
    by (rule bit_word_eqI) (auto simp: bit_simps pte_masks_bit)
  then have g: "IS_SW to \<or> to AND PTE_TARGET_MASK AND mask 25 = 0"
    using assms(7) by (cases "to = 0") (auto simp: hw_bit)
  have "\<exists>st'. map_l2_loop (unat (drop_bit 25 sz)) st from to incr = Some st' \<and> covers st st' from to (unat sz)"
    using assms level2.loop_covers [of st "from" "unat (drop_bit 25 sz)" to incr, unfolded n]
    by (auto simp: arg_ok_def hw_bit)
  then show ?thesis
    using assms(3,4) g by (simp add: hv_pt_map_l2_def and_mask_0)
qed

lemma map_l3_covers:
  assumes "wf_pt st" and "arg_ok to incr (unat sz)" and "2 ^ 14 dvd unat from" and "2 ^ 14 dvd unat sz"
    and "unat from + unat sz \<le> 2 ^ vaddr_bits st" and "sz \<noteq> 0"
  shows "\<exists>st'. hv_pt_map_l3 st from to sz incr = Some st' \<and> covers st st' from to (unat sz)"
proof -
  note n = size_split [OF assms(4)]
  define x where "x = (if IS_HW to then to OR PTE_TYPE else to)"
  have l: "leaf x k = leaf to k" for k by (cases "to = 0") (simp_all add: x_def leaf_type hw_bit)
  have e: "ext_ok x (unat sz)" "x = 0 \<or> bit x 1 = bit x 0" "incr = (if moves x then 1 else 0)"
    using assms(2) type_bits [of to] by (auto simp: x_def arg_ok_def hw_bit ext_type moves_def simp del: One_nat_def)
  have m: "to AND PTE_TARGET_MASK AND mask 14 = 0"
    by (rule bit_word_eqI) (auto simp: bit_simps pte_masks_bit)
  have "\<exists>st'. map_l3_loop (unat (drop_bit 14 sz)) st from x incr = Some st' \<and> covers st st' from x (unat sz)"
    using assms(1,3,5) e level3.loop_covers [of st "from" "unat (drop_bit 14 sz)" x incr, unfolded n] by simp
  then show ?thesis
    using assms(3,4) m covers_leaf [OF _ l] by (auto simp: hv_pt_map_l3_def and_mask_0 x_def)
qed

lemma map_l4_covers:
  assumes "wf_pt st" and "arg_ok to incr (unat sz)" and "2 ^ 2 dvd unat from" and "2 ^ 2 dvd unat sz"
    and "unat from + unat sz \<le> 2 ^ vaddr_bits st" and "sz \<noteq> 0" and "\<not> IS_HW to"
  shows "\<exists>st'. hv_pt_map_l4 st from to sz incr = Some st' \<and> covers st st' from to (unat sz)"
proof -
  note n = size_split [OF assms(4)]
  define x where "x = (if IS_SW to then to OR PTE_TYPE else to)"
  have l: "leaf x k = leaf to k" for k by (cases "to = 0") (simp_all add: x_def leaf_type hw_bit)
  have b: "\<not> bit x 0" "to = 0 \<longleftrightarrow> x = 0" using assms(7) type_bits [of to] by (auto simp: x_def hw_bit)
  have s: "spte_type (to OR PTE_TYPE) = spte_type to"
    by (rule bit_word_eqI) (auto simp: spte_type_eq bit_simps PTE_TYPE_def bit_2_iff)
  have "ext_ok x (unat sz - 2)"
  proof (cases "to \<noteq> 0 \<and> spte_type to = SPTE_MAP")
    case True
    have lo: "unat to mod 2 ^ 50 + unat sz \<le> 2 ^ 50" "\<not> bit to 1"
      using True assms(2,7) by (auto simp: arg_ok_def ext_ok_def hw_bit)
    have "unat sz \<noteq> 0" using assms(6) by (simp add: unat_eq_0)
    then have sz: "4 \<le> unat sz" using assms(4) by (auto dest: dvd_imp_le)
    have "to OR PTE_TYPE = to + 2"
      using lo(2) by (subst disjunctive_add) (auto simp: PTE_TYPE_def bit_2_iff)
    moreover have "unat (to + 2) = unat to + 2" "(unat to + 2) mod 2 ^ 50 = unat to mod 2 ^ 50 + 2"
      using low_add_unat [of to 2] div_mod_add_small(2) [of "unat to" "2 ^ 50" 2] lo(1) sz by simp_all
    ultimately have "unat x mod 2 ^ 50 = unat to mod 2 ^ 50 + 2" using True assms(7) by (simp add: x_def hw_bit)
    then have "unat x mod 2 ^ 50 + (unat sz - 2) \<le> 2 ^ 50" using lo(1) sz by linarith
    then show ?thesis using b(1) by (simp add: ext_ok_def)
  next
    case False
    have "spte_type x = spte_type to" using s by (simp add: x_def)
    then show ?thesis using False b by (auto simp: ext_ok_def)
  qed
  moreover have "incr = (if moves x then 1 else 0)"
  proof -
    have "spte_type x = spte_type to" using s by (simp add: x_def)
    then have "moves x = moves to" using b assms(7) by (simp add: moves_def hw_bit)
    then show ?thesis using assms(2) by (simp add: arg_ok_def)
  qed
  ultimately have "\<exists>st'. map_l4_loop (unat (drop_bit 2 sz)) st from x incr = Some st' \<and> covers st st' from x (unat sz)"
    using assms(1,3,5) b level4.loop_covers [of st "from" "unat (drop_bit 2 sz)" x incr, unfolded n] by blast
  then show ?thesis
    using assms(3,4,7) covers_leaf [OF _ l] by (auto simp: hv_pt_map_l4_def and_mask_0 x_def)
qed

section \<open>The whole mapping operation\<close>

lemma unat_align_down: "unat (ALIGN_DOWN x (push_bit n 1)) = unat x div 2 ^ n * 2 ^ n"
proof -
  have "push_bit n 1 - 1 = (mask n :: u64)" by (simp add: mask_eq_exp_minus_1)
  then show ?thesis by (simp add: ALIGN_DOWN_def unat_and_not_mask)
qed

lemma unat_align_up:
  assumes "unat x + 2 ^ n \<le> 2 ^ 64" and "n < 64"
  shows "unat (ALIGN_UP x (push_bit n 1)) = (unat x + (2 ^ n - 1)) div 2 ^ n * 2 ^ n"
proof -
  have m: "push_bit n 1 - 1 = (mask n :: u64)" by (simp add: mask_eq_exp_minus_1)
  have eq: "(mask n :: u64) = word_of_nat (2 ^ n - 1)" by (simp add: mask_eq_exp_minus_1 of_nat_diff)
  have "(2 :: nat) ^ n < 2 ^ 64" using assms(2) by (intro power_strict_increasing) simp_all
  then have um: "unat (mask n :: u64) = 2 ^ n - 1" unfolding eq by (intro unat_of_nat_small) simp
  have "(0 :: nat) < 2 ^ n" by simp
  then have "unat (x + mask n) = unat x + (2 ^ n - 1)" using assms(1) um by (subst unat_add_small) simp_all
  then show ?thesis unfolding ALIGN_UP_def m unat_and_not_mask by simp
qed

text \<open>
  \<^verbatim>\<open>hv_map\<close> rounds up with \<^verbatim>\<open>MASK\<close> where \<^verbatim>\<open>BIT\<close> is meant; on an even address the result is the
  same 32 MiB boundary.
\<close>

lemma unat_align_up_mask:
  assumes "unat x + 2 ^ 25 \<le> 2 ^ 64" and "2 dvd unat x"
  shows "unat (ALIGN_UP x (mask 25)) = (unat x + (2 ^ 25 - 1)) div 2 ^ 25 * 2 ^ 25"
proof -
  define k :: u64 where "k = mask 25 - 1"
  have k: "k = 0x1fffffe" by (simp add: k_def mask_eq_exp_minus_1)
  have uk: "unat k = 2 ^ 25 - 2" by (simp add: k)
  have y: "unat (x + k) = unat x + (2 ^ 25 - 2)" using assms(1) uk by (subst unat_add_small) simp_all
  have "even (unat (x + k))" using y assms(2) by simp
  then have b0: "\<not> bit (x + k) 0" by (simp add: bit_unat)
  have km: "bit k n \<longleftrightarrow> 1 \<le> n \<and> n < 25" for n
  proof -
    have "k = mask 25 AND NOT 1" by (simp add: k mask_eq_exp_minus_1)
    then show ?thesis by (auto simp: bit_simps bit_1_iff)
  qed
  have "(x + k) AND NOT k = (x + k) AND NOT (mask 25)"
  proof (rule bit_word_eqI)
    fix n assume "n < LENGTH(64)"
    then show "bit ((x + k) AND NOT k) n = bit ((x + k) AND NOT (mask 25)) n"
      using b0 by (cases "n = 0") (auto simp: bit_simps km)
  qed
  then have "unat (ALIGN_UP x (mask 25)) = (unat x + (2 ^ 25 - 2)) div 2 ^ 25 * 2 ^ 25"
    by (simp add: ALIGN_UP_def k_def [symmetric] unat_and_not_mask y)
  moreover have "(unat x + (2 ^ 25 - 2)) div 2 ^ 25 = (unat x + (2 ^ 25 - 1)) div 2 ^ 25"
  proof -
    obtain j where j: "unat x = 2 * j" using assms(2) by blast
    have "z div 2 ^ 25 = z div 2 div 2 ^ 24" for z :: nat by (simp add: div_mult2_eq [symmetric])
    then show ?thesis by (simp add: j)
  qed
  ultimately show ?thesis by simp
qed

text \<open>Where the mapping stands between two stages.\<close>

definition stage_inv :: "hv_pt \<Rightarrow> u64 \<Rightarrow> u64 \<Rightarrow> u64 \<Rightarrow> u64 \<Rightarrow> hv_pt \<times> u64 \<times> u64 \<times> u64 \<Rightarrow> bool" where
  "stage_inv st from to sz incr s \<longleftrightarrow>
     (case s of (st', from', to', sz') \<Rightarrow>
        unat sz' \<le> unat sz \<and> unat from' = unat from + (unat sz - unat sz') \<and> 4 dvd unat sz' \<and>
        (IS_HW to \<longrightarrow> 2 ^ 14 dvd unat sz') \<and> covers st st' from to (unat sz - unat sz') \<and>
        (sz' \<noteq> 0 \<longrightarrow> arg_ok to' incr (unat sz') \<and> IS_HW to' = IS_HW to \<and>
           (\<forall>k < unat sz'. leaf to' k = leaf to (unat sz - unat sz' + k))))"

lemma stage_step:
  assumes "stage_inv st from to sz incr (st', from', to', sz')"
    and "unat from + unat sz \<le> 2 ^ vaddr_bits st" and "wf_pt st"
    and "4 dvd unat from" and "4 dvd unat sz" and "IS_HW to \<longrightarrow> 2 ^ 14 dvd unat sz"
    and "unat chunk \<le> unat sz'" and "4 dvd unat chunk" and "IS_HW to \<longrightarrow> 2 ^ 14 dvd unat chunk"
    and "chunk \<noteq> 0 \<Longrightarrow> wf_pt st' \<Longrightarrow> arg_ok to' incr (unat chunk) \<Longrightarrow> IS_HW to' = IS_HW to \<Longrightarrow>
       unat from' + unat chunk \<le> 2 ^ vaddr_bits st' \<Longrightarrow>
       \<exists>st2. f st' from' to' chunk incr = Some st2 \<and> covers st' st2 from' to' (unat chunk)"
  shows "\<exists>s2. map_stage f incr chunk (st', from', to', sz') = Some s2 \<and> stage_inv st from to sz incr s2 \<and>
     unat (snd (snd (snd s2))) = unat sz' - unat chunk \<and>
     unat (fst (snd s2)) = unat from' + unat chunk"
proof (cases "chunk = 0")
  case True
  then show ?thesis using assms(1) by (simp add: map_stage_def)
next
  case False
  note i = assms(1) [unfolded stage_inv_def prod.case]
  define m where "m = unat sz - unat sz'"
  define c where "c = unat chunk"
  have c0: "0 < c" using False by (simp add: c_def unat_gt_0)
  have sz': "sz' \<noteq> 0" using c0 assms(7) by (auto simp: c_def)
  have v: "vaddr_bits st' = vaddr_bits st" "wf_pt st'" using i by (simp_all add: covers_def)
  have e: "ext_ok to' (unat sz')" "\<not> bit to' 1" "incr = (if moves to' then 1 else 0)"
    using i sz' by (simp_all add: arg_ok_def)
  have "arg_ok to' incr c" using e ext_ok_mono [OF e(1)] assms(7) by (simp add: arg_ok_def c_def)
  moreover have fr: "unat from' + c \<le> 2 ^ vaddr_bits st'"
    using i assms(2,7) v(1) by (auto simp: c_def)
  ultimately obtain st2 where 2: "f st' from' to' chunk incr = Some st2" "covers st' st2 from' to' c"
    using assms(10) [OF False v(2)] i sz' by (auto simp: c_def)
  define from2 to2 sz2 where "from2 = from' + chunk" and "to2 = to' + incr * chunk" and "sz2 = sz' - chunk"
  have "(2 :: nat) ^ vaddr_bits st \<le> 2 ^ 44" using assms(3) by (intro power_increasing) (simp_all add: wf_pt_def)
  then have u: "unat from2 = unat from' + c" using fr v(1) by (simp add: from2_def c_def unat_add_small)
  have us: "unat sz2 = unat sz' - c"
    using assms(7) by (simp add: sz2_def c_def unat_diff_small word_le_nat_alt)
  have d4: "4 dvd m" "4 dvd c" "4 dvd unat sz2" using i assms(5,8) us by (auto simp: m_def c_def)
  have cov: "covers st st2 from to (m + c)"
  proof (rule covers_append [OF _ 2(2) d4(1)])
    show "covers st st' from to m" using i by (simp add: m_def)
    show "unat from' = unat from + m" using i by (simp add: m_def)
    show "leaf to' k = leaf to (m + k)" if "k < c" for k using i sz' that assms(7) by (simp add: m_def c_def)
  qed
  have mc: "m + c = unat sz - unat sz2" using i us assms(7) by (auto simp: m_def c_def)
  have late: "arg_ok to2 incr (unat sz2) \<and> IS_HW to2 = IS_HW to \<and> (\<forall>k < unat sz2. leaf to2 k = leaf to (m + c + k))"
    if nz: "sz2 \<noteq> 0"
  proof -
    have lt: "c < unat sz'" using nz us by (metis c_def linorder_not_less unat_eq_zero diff_is_0_eq)
    have hw: "bit to' 0 \<longrightarrow> 2 ^ 14 dvd c \<and> c + 2 ^ 14 \<le> unat sz'"
    proof
      assume "bit to' 0"
      then have h: "IS_HW to" using i sz' by (simp add: hw_bit)
      then have d: "2 ^ 14 dvd c" "2 ^ 14 dvd unat sz'" using i assms(9) by (auto simp: c_def)
      then have "2 ^ 14 dvd unat sz' - c" by simp
      then have "2 ^ 14 \<le> unat sz' - c" using lt by (intro dvd_imp_le) simp_all
      then show "2 ^ 14 dvd c \<and> c + 2 ^ 14 \<le> unat sz'" using d lt by linarith
    qed
    have ch: "chunk = word_of_nat c" by (simp add: c_def)
    show ?thesis
    proof (cases "moves to'")
      case True
      note a = leaf_add [OF e(1) True lt d4(2) hw]
      have t2: "to2 = to' + word_of_nat c" using e(3) True ch by (simp add: to2_def)
      have "leaf to2 k = leaf to (m + c + k)" if "k < unat sz2" for k
        using a(1) [of k] i sz' that us lt by (simp add: t2 m_def add.assoc)
      then show ?thesis using a(3,4,5,6) e True us i sz' by (simp add: t2 arg_ok_def hw_bit)
    next
      case False
      have t2: "to2 = to'" using e(3) False by (simp add: to2_def)
      have "leaf to2 k = leaf to (m + c + k)" if "k < unat sz2" for k
      proof -
        have "leaf to' k = leaf to' (c + k)" by (rule leaf_fixed [OF False])
        also have "\<dots> = leaf to (m + (c + k))" using i sz' that us by (simp add: m_def)
        finally show ?thesis by (simp add: t2 add.assoc)
      qed
      then show ?thesis using e ext_ok_mono [OF e(1)] us i sz' by (simp add: t2 arg_ok_def)
    qed
  qed
  have "stage_inv st from to sz incr (st2, from2, to2, sz2)"
    unfolding stage_inv_def prod.case
  proof (intro conjI)
    show "unat sz2 \<le> unat sz" using i us by linarith
    show "unat from2 = unat from + (unat sz - unat sz2)" using u i mc unfolding m_def by linarith
    show "4 dvd unat sz2" by (rule d4)
    show "IS_HW to \<longrightarrow> 2 ^ 14 dvd unat sz2" using i assms(9) us by (simp add: c_def)
    show "covers st st2 from to (unat sz - unat sz2)" using cov mc by simp
    show "sz2 \<noteq> 0 \<longrightarrow> arg_ok to2 incr (unat sz2) \<and> IS_HW to2 = IS_HW to \<and>
       (\<forall>k < unat sz2. leaf to2 k = leaf to (unat sz - unat sz2 + k))" using late mc by simp
  qed
  moreover have "map_stage f incr chunk (st', from', to', sz') = Some (st2, from2, to2, sz2)"
    using False 2(1) by (simp add: map_stage_def from2_def to2_def sz2_def)
  ultimately show ?thesis using u us by (simp add: c_def)
qed


lemma round_up:
  fixes x n :: nat
  defines "u \<equiv> (x + (2 ^ n - 1)) div 2 ^ n * 2 ^ n"
  shows "x \<le> u" and "u < x + 2 ^ n" and "2 ^ n dvd u" and "2 ^ n dvd x \<Longrightarrow> u = x"
proof -
  have e: "u + (x + (2 ^ n - 1)) mod 2 ^ n = x + (2 ^ n - 1)" unfolding u_def by (rule div_mult_mod_eq)
  have m: "(x + (2 ^ n - 1)) mod 2 ^ n < 2 ^ n" by simp
  show "x \<le> u" using e m by linarith
  show "u < x + 2 ^ n" using e zero_less_power [of "2 :: nat" n] by linarith
  show "2 ^ n dvd u" by (simp add: u_def)
  assume "2 ^ n dvd x"
  then obtain q where q: "x = 2 ^ n * q" by blast
  have z: "(0 :: nat) < 2 ^ n" by simp
  have "(x + (2 ^ n - 1)) div 2 ^ n = q" unfolding q
  proof (rule div_nat_eqI)
    show "2 ^ n * q \<le> 2 ^ n * q + (2 ^ n - 1)" by (rule le_add1)
    show "2 ^ n * q + (2 ^ n - 1) < 2 ^ n * Suc q" unfolding mult_Suc_right using z by linarith
  qed
  then show "u = x" by (simp add: u_def q)
qed

text \<open>The preconditions of a mapping, and the boundary the native part is aligned to.\<close>

definition map_pre :: "u64 \<Rightarrow> hv_pt \<Rightarrow> u64 \<Rightarrow> u64 \<Rightarrow> u64 \<Rightarrow> u64 \<Rightarrow> bool" where
  "map_pre img st from to sz incr \<longleftrightarrow>
     wf_pt st \<and> arg_ok to incr (unat sz) \<and> unat from + unat sz \<le> 2 ^ vaddr_bits st \<and>
     4 dvd unat from \<and> 4 dvd unat sz \<and> (IS_HW to \<longrightarrow> 2 ^ 14 dvd unat from \<and> 2 ^ 14 dvd unat sz) \<and>
     2 ^ 14 dvd unat img \<and> unat img < 2 ^ 48"

lemma boundary_ok:
  assumes "4 dvd unat from" and "unat from \<le> 2 ^ 44" and "2 ^ 14 dvd unat img" and "unat img < 2 ^ 48"
  shows "2 ^ 25 dvd unat (map_boundary rb img from)" and "from \<le> map_boundary rb img from"
proof -
  have up: "unat (ALIGN_UP x (mask 25)) = (unat x + (2 ^ 25 - 1)) div 2 ^ 25 * 2 ^ 25 \<and> x \<le> ALIGN_UP x (mask 25)"
    if "4 dvd unat x" "unat x \<le> 2 ^ 48" for x
  proof -
    have "unat x + 2 ^ 25 \<le> 2 ^ 64" "2 dvd unat x" using that by (auto elim: dvd_trans [rotated])
    note u = unat_align_up_mask [OF this]
    have "unat x \<le> (unat x + (2 ^ 25 - 1)) div 2 ^ 25 * 2 ^ 25"
      by (rule round_up)
    then show ?thesis using u by (simp add: word_le_nat_alt)
  qed
  have f: "4 dvd unat from" "unat from \<le> 2 ^ 48" using assms by simp_all
  have g: "4 dvd unat img" "unat img \<le> 2 ^ 48" using assms(3,4) by (auto elim: dvd_trans [rotated])
  show "2 ^ 25 dvd unat (map_boundary rb img from)"
    using up [OF f] up [OF g] by (auto simp: map_boundary_def Let_def)
  show "from \<le> map_boundary rb img from"
    using up [OF f] up [OF g] by (auto simp: map_boundary_def Let_def)
qed

lemma map_stages:
  assumes "map_pre img st from to sz incr"
  shows "\<exists>st'. hv_map rb img st from to sz incr = Some (0, st') \<and> covers st st' from to (unat sz)"
proof -
  note p = assms [unfolded map_pre_def]
  have s0: "stage_inv st from to sz incr (st, from, to, sz)"
    using p covers_refl [of st "from" to] by (simp add: stage_inv_def)
  have "(2 :: nat) ^ vaddr_bits st \<le> 2 ^ 44" using p by (intro power_increasing) (simp_all add: wf_pt_def)
  then have fs: "unat from + unat sz \<le> 2 ^ 44" using p by linarith
  have pre: "unat from + unat sz \<le> 2 ^ vaddr_bits st" "wf_pt st" "4 dvd unat from" "4 dvd unat sz"
    "IS_HW to \<longrightarrow> 2 ^ 14 dvd unat sz" using p by auto
  note step = stage_step [OF _ pre]
  have dv: "(4 :: nat) dvd 2 ^ 14" "(2 :: nat) ^ 14 dvd 2 ^ 25" "(2 :: nat) ^ 2 = 4" by simp_all
  define c0 where "c0 = min sz (ALIGN_UP from (push_bit 14 1) - from)"
  define pad where "pad = (unat from + (2 ^ 14 - 1)) div 2 ^ 14 * 2 ^ 14 - unat from"
  note ru = round_up [of "unat from" 14]
  have ua: "unat (ALIGN_UP from (push_bit 14 1)) = (unat from + (2 ^ 14 - 1)) div 2 ^ 14 * 2 ^ 14"
    using fs by (intro unat_align_up) simp_all
  then have "unat (ALIGN_UP from (push_bit 14 1) - from) = pad"
    using ru(1) by (subst unat_diff_small) (simp_all add: word_le_nat_alt pad_def)
  then have uc0: "unat c0 = min (unat sz) pad" by (simp add: c0_def min_def word_le_nat_alt)
  have pad: "2 ^ 14 dvd unat from + pad" "2 ^ 14 dvd unat from \<longrightarrow> pad = 0" "4 dvd pad"
  proof -
    show d: "2 ^ 14 dvd unat from + pad" using ru(1,3) by (simp add: pad_def)
    show "2 ^ 14 dvd unat from \<longrightarrow> pad = 0" using ru(4) by (auto simp: pad_def)
    have "4 dvd unat from + pad" using d dv(1) dvd_trans by blast
    then show "4 dvd pad" using pre(3) by (simp add: dvd_add_right_iff)
  qed
  have hw0: "IS_HW to \<longrightarrow> c0 = 0" using p pad(2) uc0 by (auto simp: unat_eq_zero [symmetric] simp del: unat_eq_zero)
  have d0: "4 dvd unat c0" "IS_HW to \<longrightarrow> 2 ^ 14 dvd unat c0" "unat c0 \<le> unat sz"
    using uc0 pad(3) pre(4) hw0 by (auto simp: min_def)
  obtain st1 from1 to1 sz1 where s1: "map_stage hv_pt_map_l4 incr c0 (st, from, to, sz) = Some (st1, from1, to1, sz1)"
    "stage_inv st from to sz incr (st1, from1, to1, sz1)" "unat sz1 = unat sz - unat c0" "unat from1 = unat from + unat c0"
    using step [OF s0 d0(3,1,2), of hv_pt_map_l4] map_l4_covers hw0 pre(3) d0(1)
    by (metis dv(3) fst_conv snd_conv prod_cases4)
  have a1: "sz1 = 0 \<or> 2 ^ 14 dvd unat from1"
    using s1(3,4) uc0 pad(1) by (cases "unat sz \<le> pad") (auto simp: min_def unat_eq_zero)
  define bd where "bd = map_boundary rb img from1"
  have f1: "4 dvd unat from1" "unat from1 \<le> 2 ^ 44" using s1(4) d0 pre(3) fs by auto
  have bd: "2 ^ 25 dvd unat bd" "unat from1 \<le> unat bd"
    using boundary_ok [OF f1, of img rb] p by (simp_all add: bd_def word_le_nat_alt)
  define c1 where "c1 = ALIGN_DOWN (min sz1 (bd - from1)) (push_bit 14 1)"
  have uc1: "unat c1 = min (unat sz1) (unat bd - unat from1) div 2 ^ 14 * 2 ^ 14"
    unfolding c1_def unat_align_down using bd(2)
    by (simp add: min_def word_le_nat_alt unat_diff_small)
  have d1: "2 ^ 14 dvd unat c1" "unat c1 \<le> unat sz1"
    using div_times_less_eq_dividend [of "min (unat sz1) (unat bd - unat from1)" "2 ^ 14"] by (simp_all add: uc1)
  have d1': "4 dvd unat c1" using d1(1) dv(1) dvd_trans by blast
  have al1: "2 ^ 14 dvd unat from1" if "c1 \<noteq> 0" using a1 d1(2) that by (auto simp: unat_eq_zero)
  obtain st2 from2 to2 sz2 where s2: "map_stage hv_pt_map_l3 incr c1 (st1, from1, to1, sz1) = Some (st2, from2, to2, sz2)"
    "stage_inv st from to sz incr (st2, from2, to2, sz2)" "unat sz2 = unat sz1 - unat c1" "unat from2 = unat from1 + unat c1"
    using step [OF s1(2) d1(2) d1', of hv_pt_map_l3] map_l3_covers [of st1 to1 incr c1 from1] al1 d1(1)
    by (metis fst_conv snd_conv prod_cases4)
  have a2: "unat sz2 < 2 ^ 14 \<or> 2 ^ 25 dvd unat from2"
  proof (cases "sz1 = 0 \<or> unat sz1 \<le> unat bd - unat from1")
    case True
    then have "unat sz2 = unat sz1 mod 2 ^ 14"
      using s2(3) uc1 by (auto simp: min_def minus_div_mult_eq_mod)
    then show ?thesis by simp
  next
    case False
    then have "2 ^ 14 dvd unat from1" "min (unat sz1) (unat bd - unat from1) = unat bd - unat from1" using a1 by auto
    moreover from this have "2 ^ 14 dvd unat bd - unat from1" using bd dv(2) dvd_trans [OF dv(2)] by (intro dvd_diff_nat) blast+
    ultimately show ?thesis using s2(4) uc1 bd by simp
  qed
  define c2 where "c2 = ALIGN_DOWN sz2 (push_bit 25 1)"
  have uc2: "unat c2 = unat sz2 div 2 ^ 25 * 2 ^ 25" unfolding c2_def by (rule unat_align_down)
  have d2: "2 ^ 25 dvd unat c2" "unat c2 \<le> unat sz2"
    using div_times_less_eq_dividend [of "unat sz2" "2 ^ 25"] by (simp_all add: uc2)
  have d2': "2 ^ 14 dvd unat c2" "4 dvd unat c2" using d2(1) dvd_trans [OF dv(2)] dvd_trans [OF dv(1)] by blast+
  have al2: "2 ^ 25 dvd unat from2" if "c2 \<noteq> 0"
  proof -
    have "unat c2 \<noteq> 0" using that by (simp add: unat_eq_zero)
    then have "2 ^ 25 \<le> unat c2" using d2(1) by (intro dvd_imp_le) simp_all
    then have "\<not> unat sz2 < 2 ^ 14" using d2(2) by simp
    then show ?thesis using a2 by blast
  qed
  define go where "go \<longleftrightarrow> c2 \<noteq> 0 \<and> (\<not> IS_HW to \<or> to2 AND VADDR_L2_ALIGN_MASK = 0)"
  obtain st3 from3 to3 sz3 where s3: "(if go then map_stage hv_pt_map_l2 incr c2 (st2, from2, to2, sz2)
      else Some (st2, from2, to2, sz2)) = Some (st3, from3, to3, sz3)"
    "stage_inv st from to sz incr (st3, from3, to3, sz3)" "unat sz3 < 2 ^ 14 \<or> 2 ^ 14 dvd unat from3"
  proof (cases go)
    case False
    have "unat sz2 < 2 ^ 14 \<or> 2 ^ 14 dvd unat from2" using a2 dvd_trans [OF dv(2)] by blast
    then show ?thesis using that [of st2 from2 to2 sz2] s2 False by simp
  next
    case True
    obtain st3 from3 to3 sz3 where x: "map_stage hv_pt_map_l2 incr c2 (st2, from2, to2, sz2) = Some (st3, from3, to3, sz3)"
      "stage_inv st from to sz incr (st3, from3, to3, sz3)" "unat from3 = unat from2 + unat c2"
      using step [OF s2(2) d2(2) d2'(2), of hv_pt_map_l2] map_l2_covers [of st2 to2 incr c2 from2] al2 d2(1) d2'(1) True
      unfolding go_def by (metis fst_conv snd_conv prod_cases4)
    have "2 ^ 14 dvd unat from2" using al2 True dvd_trans [OF dv(2)] by (simp add: go_def)
    then have "2 ^ 14 dvd unat from3" using x(3) d2'(1) by simp
    then show ?thesis using that [of st3 from3 to3 sz3] x True by simp
  qed
  define c3 where "c3 = ALIGN_DOWN sz3 (push_bit 14 1)"
  have uc3: "unat c3 = unat sz3 div 2 ^ 14 * 2 ^ 14" unfolding c3_def by (rule unat_align_down)
  have d3: "2 ^ 14 dvd unat c3" "unat c3 \<le> unat sz3" "unat sz3 - unat c3 < 2 ^ 14"
    using div_times_less_eq_dividend [of "unat sz3" "2 ^ 14"] by (simp_all add: uc3 minus_div_mult_eq_mod)
  have d3': "4 dvd unat c3" using d3(1) dv(1) dvd_trans by blast
  have al3: "2 ^ 14 dvd unat from3" if "c3 \<noteq> 0"
    using that s3(3) uc3 by (metis div_less mult_zero_left unat_eq_zero)
  obtain st4 from4 to4 sz4 where s4: "map_stage hv_pt_map_l3 incr c3 (st3, from3, to3, sz3) = Some (st4, from4, to4, sz4)"
    "stage_inv st from to sz incr (st4, from4, to4, sz4)" "unat sz4 = unat sz3 - unat c3"
    using step [OF s3(2) d3(2) d3', of hv_pt_map_l3] map_l3_covers [of st3 to3 incr c3 from3] al3 d3(1)
    by (metis fst_conv snd_conv prod_cases4)
  note i4 = s4(2) [unfolded stage_inv_def prod.case]
  have hw4: "IS_HW to \<longrightarrow> sz4 = 0"
  proof
    assume "IS_HW to"
    then have "2 ^ 14 dvd unat sz4" using i4 by simp
    then show "sz4 = 0" using d3(3) s4(3) by (metis dvd_imp_le leD not_gr_zero unat_eq_zero)
  qed
  have d4: "4 dvd unat sz4" "4 dvd unat from4" using i4 pre(3,4) by (auto simp: dvd_add_right_iff)
  obtain s5 where s5: "map_stage hv_pt_map_l4 incr sz4 (st4, from4, to4, sz4) = Some s5"
    "stage_inv st from to sz incr s5" "unat (snd (snd (snd s5))) = 0"
    using step [OF s4(2) order_refl d4(1), of hv_pt_map_l4] map_l4_covers [of st4 to4 incr sz4 from4] hw4 d4
    by (metis dv(3) diff_self_eq_0 unat_eq_zero dvd_0_right)
  have "covers st (fst s5) from to (unat sz)"
    using s5(2,3) by (cases s5) (simp add: stage_inv_def)
  moreover have "hv_map rb img st from to sz incr = Some (0, fst s5)"
  proof -
    have g: "\<not> (from AND mask 2 \<noteq> 0 \<or> sz AND mask 2 \<noteq> 0)"
      "\<not> (IS_HW to \<and> (from AND mask 14 \<noteq> 0 \<or> sz AND mask 14 \<noteq> 0))"
      using p unfolding and_mask_0 dv(3) by auto
    have n1: "\<not> (c0 \<noteq> 0 \<and> IS_HW to)" and n5: "\<not> (sz4 \<noteq> 0 \<and> IS_HW to)" using hw0 hw4 by auto
    show ?thesis
      unfolding hv_map_def Let_def if_not_P [OF g(1)] if_not_P [OF g(2)] c0_def [symmetric] if_not_P [OF n1]
        s1(1) Option.bind.bind_lunit prod.case bd_def [symmetric] c1_def [symmetric] s2(1) c2_def [symmetric]
        go_def [symmetric] s3(1) c3_def [symmetric] s4(1) if_not_P [OF n5] s5(1) ..
  qed
  ultimately show ?thesis by blast
qed

end
