(* ===== verification/Stage2_Properties.thy ===== *)
theory Stage2_Properties
  imports Stage2_Mapping
begin

text \<open>
  The properties of the stage-2 tables: the table refines a flat address space, and the mapping
  wrappers, the walk and the translation used by the DMA fixups agree with it.
\<close>

section \<open>The guest's view\<close>

text \<open>
  The abstract specification is a flat address space: what the walk finds at every guest address.
\<close>

definition aspace :: "hv_pt \<Rightarrow> u64 \<Rightarrow> access option" where
  "aspace st a = map_option pte_access (hv_pt_walk st a)"

lemma aspace_access: "wf_pt st \<Longrightarrow> in_range st a \<Longrightarrow> aspace st a = Some (pt_access st a)"
  using walk_access by (fastforce simp: aspace_def)

lemma covers_aspace:
  assumes "wf_pt st" and "covers st st' from to n" and "in_range st a"
  shows "aspace st' a = (if unat from \<le> unat a \<and> unat a < unat from + n
     then Some (leaf to ((unat a - unat from) div 4 * 4)) else aspace st a)"
proof -
  have "wf_pt st'" "in_range st' a" using assms by (simp_all add: covers_def in_range_def)
  then show ?thesis using assms by (simp add: aspace_access covers_def)
qed

lemma covers_wf: "covers st st' from to n \<Longrightarrow> wf_pt st' \<and> vaddr_bits st' = vaddr_bits st"
  by (simp add: covers_def)

text \<open>The descriptors the four wrappers build.\<close>

definition attr_ok :: "u64 \<Rightarrow> bool" where
  "attr_ok w \<longleftrightarrow> take_bit 14 w = w \<and> bit w 0 \<and> \<not> bit w 1"

lemma attr_ok_hw: "attr_ok (PTE_ATTRIBUTES OR PTE_VALID)" "attr_ok (PTE_ATTRIBUTES_NC OR PTE_VALID)"
proof -
  have e: "PTE_ATTRIBUTES OR PTE_VALID = (0x7fd :: u64)" "PTE_ATTRIBUTES_NC OR PTE_VALID = (0x7d5 :: u64)"
    by (simp_all add: PTE_ATTRIBUTES_def PTE_ATTRIBUTES_NC_def PTE_VALID_def)
  show "attr_ok (PTE_ATTRIBUTES OR PTE_VALID)" "attr_ok (PTE_ATTRIBUTES_NC OR PTE_VALID)"
    unfolding e attr_ok_def by (simp_all add: bit_numeral_simps)
qed

lemma low_zero: "2 ^ m dvd unat (x :: u64) \<Longrightarrow> j < m \<Longrightarrow> \<not> bit x j"
  by (metis and_mask_0 bit_0_eq bit_and_iff bit_mask_iff bit_imp_le_length bot_apply bot_bool_def possible_bit_word)

lemma high_zero:
  assumes "unat (x :: u64) < 2 ^ m" and "m \<le> j"
  shows "\<not> bit x j"
proof -
  have "take_bit m x = x" unfolding word_unat_eq_iff unat_take using assms(1) by simp
  then have "bit x j = bit (take_bit m x) j" by simp
  then show ?thesis using assms(2) by (simp add: bit_take_bit_iff)
qed

lemma hw_desc:
  assumes "attr_ok w" and "2 ^ 14 dvd unat to" and "to \<noteq> 0" and "unat to + n \<le> 2 ^ 50" and "0 < n"
  shows "arg_ok (to OR w) 1 n" and "leaf (to OR w) k = Direct (to + word_of_nat k) 0" and "IS_HW (to OR w)"
proof -
  have lo: "bit to j \<Longrightarrow> 14 \<le> j" for j using low_zero [OF assms(2)] not_less by blast
  have hi: "bit to j \<Longrightarrow> j \<le> 49" for j using high_zero [of to 50 j] assms(4,5) by fastforce
  have wb: "\<not> bit w j" if "14 \<le> j" for j
    using assms(1) that bit_take_bit_iff [of 14 w j] by (simp add: attr_ok_def)
  have t: "(to OR w) AND PTE_TARGET_MASK = to"
    using lo hi wb by (intro bit_word_eqI) (auto simp: bit_simps pte_masks_bit not_less)
  have b: "bit (to OR w) 0" "\<not> bit (to OR w) 1"
    using assms(1) lo [of 0] lo [of 1] by (auto simp: attr_ok_def bit_or_iff)
  then have nz: "to OR w \<noteq> 0" by (metis bit_0_eq bot_apply bot_bool_def)
  show "arg_ok (to OR w) 1 n" using b t assms(3,4) by (simp add: arg_ok_def ext_ok_def moves_def)
  show "leaf (to OR w) k = Direct (to + word_of_nat k) 0" using b t nz by (simp add: leaf_def)
  show "IS_HW (to OR w)" using b by (simp add: hw_bit)
qed

lemma sw_desc:
  assumes "4 dvd unat to" and "to \<noteq> 0" and "unat to + n \<le> 2 ^ 50" and "0 < n"
  shows "arg_ok to 1 n" and "leaf to k = Direct (to + word_of_nat k) 0" and "\<not> IS_HW to"
proof -
  have lo: "\<not> bit to j" if "j < 2" for j using low_zero [of 2 to j] assms(1) that by simp
  have l: "unat to mod 2 ^ 50 = unat to" using assms(3,4) by simp
  have hi: "drop_bit 50 to = 0" "drop_bit 61 to = 0"
    using assms(3,4) unfolding word_unat_eq_iff unat_drop by simp_all
  have ty: "spte_type to = SPTE_MAP" by (simp add: spte_type_eq hi SPTE_MAP_def)
  have t: "to AND PTE_TARGET_MASK_L4 = to"
    unfolding word_unat_eq_iff unat_target_l4 l using assms(1) by simp
  have b: "\<not> bit to 0" "\<not> bit to 1" using lo by simp_all
  show "arg_ok to 1 n" using b ty assms(2,3) l by (simp add: arg_ok_def ext_ok_def moves_def)
  show "leaf to k = Direct (to + word_of_nat k) 0" using b t ty hi assms(2) by (simp add: leaf_def)
  show "\<not> IS_HW to" using b by (simp add: hw_bit)
qed

lemma hook_desc:
  assumes "4 dvd unat hook" and "unat hook < 2 ^ 50"
  defines "d \<equiv> hook OR push_bit 50 SPTE_HOOK"
  shows "arg_ok d 0 n" and "leaf d k = Hooked SPTE_HOOK hook 0" and "\<not> IS_HW d"
proof -
  have lo: "bit hook j \<Longrightarrow> 2 \<le> j" for j using low_zero [of 2 hook j] assms(1) by fastforce
  have hi: "bit hook j \<Longrightarrow> j < 50" for j using high_zero [OF assms(2), of j] not_less by blast
  have db: "bit d j \<longleftrightarrow> bit hook j \<or> j = 50" for j
  proof -
    have "bit d j \<longleftrightarrow> bit hook j \<or> (50 \<le> j \<and> j < 64 \<and> j - 50 = 0)"
      unfolding d_def SPTE_HOOK_def by (simp only: bit_or_iff bit_push_bit_iff bit_1_iff possible_bit_word) simp
    then show ?thesis by auto
  qed
  have b: "\<not> bit d 0" "\<not> bit d 1" using lo [of 0] lo [of 1] db [of 0] db [of 1] by auto
  have nz: "d \<noteq> 0" using db [of 50] by auto
  have ty: "spte_type d = SPTE_HOOK"
    by (rule bit_word_eqI) (use hi in \<open>auto simp: spte_type_eq bit_take_bit_iff bit_drop_bit_eq db SPTE_HOOK_def bit_1_iff\<close>)
  have hi9: "bit hook j \<Longrightarrow> j \<le> 49" for j using hi [of j] by linarith
  have t: "d AND PTE_TARGET_MASK_L4 = hook"
    by (rule bit_word_eqI) (use hi9 lo in \<open>auto simp: bit_and_iff db pte_masks_bit not_less not_le\<close>)
  have z: "drop_bit 61 d = 0" by (rule bit_word_eqI) (use hi9 in \<open>fastforce simp: bit_drop_bit_eq db\<close>)
  have nm: "SPTE_HOOK \<noteq> SPTE_MAP" by (simp add: SPTE_HOOK_def SPTE_MAP_def)
  show "arg_ok d 0 n" using b nz ty nm by (simp add: arg_ok_def ext_ok_def moves_def)
  show "leaf d k = Hooked SPTE_HOOK hook 0" using b nz ty nm t z by (simp add: leaf_def)
  show "\<not> IS_HW d" using b by (simp add: hw_bit)
qed

section \<open>Mapping a range of the guest\<close>

text \<open>What the callers of the wrappers keep: the placement of the range and of the hypervisor image.\<close>

definition span_ok :: "u64 \<Rightarrow> hv_pt \<Rightarrow> u64 \<Rightarrow> u64 \<Rightarrow> bool" where
  "span_ok img st from sz \<longleftrightarrow>
     wf_pt st \<and> sz \<noteq> 0 \<and> unat from + unat sz \<le> 2 ^ vaddr_bits st \<and> 2 ^ 14 dvd unat img \<and> unat img < 2 ^ 48"

definition in_span :: "u64 \<Rightarrow> u64 \<Rightarrow> u64 \<Rightarrow> bool" where
  "in_span from sz a \<longleftrightarrow> unat from \<le> unat a \<and> unat a < unat from + unat sz"

lemma covers_result:
  assumes "wf_pt st" and "\<exists>st'. r = Some (0, st') \<and> covers st st' from to (unat sz)"
  shows "\<exists>st'. r = Some (0 :: int, st') \<and> wf_pt st' \<and> vaddr_bits st' = vaddr_bits st \<and>
    (\<forall>a. in_range st a \<longrightarrow> aspace st' a = (if in_span from sz a
       then Some (leaf to ((unat a - unat from) div 4 * 4)) else aspace st a))"
  using assms covers_aspace [OF assms(1)] covers_wf by (fastforce simp: in_span_def)

lemma hw_map_covers:
  assumes "span_ok img st from sz" and "attr_ok w" and "to \<noteq> 0" and "unat to + unat sz \<le> 2 ^ 50"
    and "2 ^ 14 dvd unat from" and "2 ^ 14 dvd unat to" and "2 ^ 14 dvd unat sz"
  shows "\<exists>st'. hv_map rb img st from (to OR w) sz 1 = Some (0, st') \<and> covers st st' from (to OR w) (unat sz)"
proof (rule map_stages)
  have "(4 :: nat) dvd 2 ^ 14" by simp
  then have "4 dvd unat from" "4 dvd unat sz" using assms(5,7) dvd_trans by blast+
  then show "map_pre img st from (to OR w) sz 1"
    using assms hw_desc(1) [OF assms(2,6,3,4)] by (simp add: map_pre_def span_ok_def unat_gt_0)
qed

lemma sw_map_covers:
  assumes "span_ok img st from sz" and "arg_ok d incr (unat sz)" and "\<not> IS_HW d" and "4 dvd unat from" and "4 dvd unat sz"
  shows "\<exists>st'. hv_map rb img st from d sz incr = Some (0, st') \<and> covers st st' from d (unat sz)"
  by (rule map_stages) (use assms in \<open>simp add: map_pre_def span_ok_def\<close>)


lemma hv_pt_init_wf:
  assumes "hv_pt_init r = Some st"
  shows "wf_pt st" and "in_range st a \<Longrightarrow> pt_access st a = Unmapped" and "32 \<le> vaddr_bits st"
proof -
  have "r < 7" using assms by (auto simp: hv_pt_init_def pa_bits_def split: if_splits)
  then have "r \<in> {0, 1, 2, 3, 4, 5, 6}" by auto
  then show "wf_pt st" "in_range st a \<Longrightarrow> pt_access st a = Unmapped" "32 \<le> vaddr_bits st"
    using assms
    by (auto simp: hv_pt_init_def pa_bits_def wf_pt_def wf_l2_def wf_l2d_def pt_access_def l2_access_def leaf_def)
qed

text \<open>A freshly initialised 36-bit table, the state the examples below start from.\<close>

definition pt36 :: hv_pt where "pt36 = \<lparr>vaddr_bits = 36, hv_Ltop = Top_L2 (\<lambda>_. L2_Desc 0)\<rparr>"

lemma pt36_init: "hv_pt_init 1 = Some pt36"
  by (simp add: hv_pt_init_def pa_bits_def pt36_def)

lemma span36: "span_ok 0x804000000 pt36 0x1004000 0x3000000" "span_ok 0x804000000 pt36 0x235000010 0x8"
  using hv_pt_init_wf(1) [OF pt36_init] by (simp_all add: span_ok_def) (simp_all add: pt36_def)

lemma arg36: "arg_ok 0x20000000 1 0x3000000"
  by (rule sw_desc) simp_all

text \<open>
  C1. Mapping refines the update of a flat address space.  For a descriptor whose target stays in
  the 50 target bits over the range, on well-formed tables, \<^verbatim>\<open>hv_map\<close> succeeds (no assertion
  fails, no wild table is followed), keeps the tables well-formed, and afterwards the walk of every
  guest address finds exactly the new mapping inside the range and what it found before outside,
  whatever blocks and pages had to be split on the way.
\<close>

theorem hv_map_refines:
  "map_pre img st from to sz incr \<Longrightarrow>
   \<exists>st'. hv_map rb img st from to sz incr = Some (0, st') \<and> wf_pt st' \<and> vaddr_bits st' = vaddr_bits st \<and>
     (\<forall>a. in_range st a \<longrightarrow> aspace st' a = (if in_span from sz a
        then Some (leaf to ((unat a - unat from) div 4 * 4)) else aspace st a))"
  by (rule covers_result) (use map_stages in \<open>simp_all add: map_pre_def\<close>)

theorem hv_map_refines_witness:
  "\<exists>st'. hv_map 0x800000000 0x804000000 pt36 0x1004000 0x20000000 0x3000000 1 = Some (0, st') \<and> wf_pt st' \<and>
     aspace st' 0x1004000 = Some (Direct 0x20000000 0)"
proof -
  have "map_pre 0x804000000 pt36 0x1004000 0x20000000 0x3000000 1"
    using span36(1) arg36 by (simp add: map_pre_def span_ok_def)
  from hv_map_refines [OF this, of "0x800000000"] obtain st' where
    s: "hv_map 0x800000000 0x804000000 pt36 0x1004000 0x20000000 0x3000000 1 = Some (0, st')" "wf_pt st'"
    and a: "\<forall>a. in_range pt36 a \<longrightarrow> aspace st' a = (if in_span 0x1004000 0x3000000 a
        then Some (leaf 0x20000000 ((unat a - unat (0x1004000 :: u64)) div 4 * 4)) else aspace pt36 a)" by (elim exE conjE)
  have "leaf 0x20000000 0 = Direct 0x20000000 0"
    using sw_desc(2) [of "0x20000000" 4 0] by simp
  then have "aspace st' 0x1004000 = Some (Direct 0x20000000 0)"
    using a [rule_format, of "0x1004000"] by (simp add: in_range_def pt36_def in_span_def)
  then show ?thesis using s by blast
qed

lemma ipa_to_pa_direct:
  assumes "wf_pt st" and "in_range st a" and "aspace st (a AND NOT (mask 14)) = Some (Direct p 0)"
    and "2 ^ 14 dvd unat p" and "p \<noteq> 0" and "unat p < 2 ^ 50"
  shows "nwoas_ipa_to_pa st a = Some (p + (a AND mask 14))"
proof -
  have r: "\<not> push_bit (vaddr_bits st) 1 \<le> a"
  proof -
    have "(2 :: nat) ^ vaddr_bits st \<le> 2 ^ 44" using assms(1) by (intro power_increasing) (simp_all add: wf_pt_def)
    then have "unat (push_bit (vaddr_bits st) (1 :: u64)) = 2 ^ vaddr_bits st" by (subst unat_push_small) simp_all
    then show ?thesis using assms(2) unfolding word_le_nat_alt in_range_def by linarith
  qed
  obtain pte where w: "hv_pt_walk st (a AND NOT (mask 14)) = Some pte" and d: "pte_access pte = Direct p 0"
    using assms(3) by (auto simp: aspace_def)
  have z: "pte \<noteq> 0" and t: "pte AND PTE_TARGET_MASK_L4 = p" using d by (auto simp: pte_access_def split: if_splits)
  have "pte AND PTE_TARGET_MASK = p AND PTE_TARGET_MASK"
    unfolding t [symmetric] by (rule bit_word_eqI) (auto simp: bit_simps pte_masks_bit)
  also have "\<dots> = p" unfolding word_unat_eq_iff unat_target using assms(4,6) by simp
  finally have pt: "pte AND PTE_TARGET_MASK = p" .
  have "p OR (a AND mask 14) = p + (a AND mask 14)"
    by (rule disjunctive_add [symmetric]) (use low_zero [OF assms(4)] in \<open>auto simp: bit_simps\<close>)
  then show ?thesis using r w z pt by (simp add: nwoas_ipa_to_pa_def)
qed

lemma page_base:
  assumes "2 ^ 14 dvd unat from" and "in_span from sz a"
  shows "in_span from sz (a AND NOT (mask 14))"
    and "unat a - unat from = (unat (a AND NOT (mask 14)) - unat from) + unat a mod 2 ^ 14"
    and "2 ^ 14 dvd unat (a AND NOT (mask 14)) - unat from"
proof -
  obtain q where q: "unat from = 2 ^ 14 * q" using assms(1) by blast
  have u: "unat (a AND NOT (mask 14)) = unat a div 2 ^ 14 * 2 ^ 14" by (rule unat_and_not_mask)
  have qa: "q \<le> unat a div 2 ^ 14"
    using assms(2) div_le_mono [of "2 ^ 14 * q" "unat a" "2 ^ 14"] by (simp add: in_span_def q)
  then have le: "2 ^ 14 * q \<le> unat a div 2 ^ 14 * 2 ^ 14" by simp
  have m: "unat a = unat a div 2 ^ 14 * 2 ^ 14 + unat a mod 2 ^ 14" by simp
  show "in_span from sz (a AND NOT (mask 14))"
    using assms(2) le m unfolding in_span_def u q by linarith
  show "unat a - unat from = (unat (a AND NOT (mask 14)) - unat from) + unat a mod 2 ^ 14"
    using le m unfolding u q by linarith
  show "2 ^ 14 dvd unat (a AND NOT (mask 14)) - unat from" unfolding u q by simp
qed

lemma ipa_to_pa_mapped:
  assumes "span_ok img st from sz" and "attr_ok w" and "to \<noteq> 0" and "unat to + unat sz \<le> 2 ^ 50"
    and "2 ^ 14 dvd unat from" and "2 ^ 14 dvd unat to" and "2 ^ 14 dvd unat sz"
  shows "\<exists>st'. hv_map rb img st from (to OR w) sz 1 = Some (0, st') \<and>
     (\<forall>a. in_span from sz a \<longrightarrow> nwoas_ipa_to_pa st' a = Some (to + (a - from)))"
proof -
  have pos: "0 < unat sz" and wf: "wf_pt st" using assms(1) by (simp_all add: span_ok_def unat_gt_0)
  obtain st' where m: "hv_map rb img st from (to OR w) sz 1 = Some (0, st')"
    and c: "covers st st' from (to OR w) (unat sz)" using hw_map_covers [OF assms] by blast
  have "nwoas_ipa_to_pa st' a = Some (to + (a - from))" if s: "in_span from sz a" for a
  proof -
    define b where "b = a AND NOT (mask 14)"
    define j where "j = unat b - unat from"
    note pb = page_base [OF assms(5) s]
    have ba: "unat b \<le> unat a" unfolding b_def unat_and_not_mask by (rule div_times_less_eq_dividend)
    have ra: "in_range st a" using s assms(1) by (auto simp: in_span_def span_ok_def in_range_def)
    then have rb: "in_range st b" using ba by (simp add: in_range_def)
    have j: "j < unat sz" "2 ^ 14 dvd j" using pb(1,3) by (auto simp: in_span_def b_def j_def)
    have "(4 :: nat) dvd 2 ^ 14" by simp
    then have j4: "j div 4 * 4 = j" using j(2) dvd_trans by fastforce
    have as: "aspace st' b = Some (Direct (to + word_of_nat j) 0)"
      using covers_aspace [OF wf c rb] pb(1) hw_desc(2) [OF assms(2,6,3,4) pos]
      by (simp add: in_span_def b_def [symmetric] j_def [symmetric] j4)
    have uj: "unat (to + word_of_nat j) = unat to + j"
    proof -
      have "unat (word_of_nat j :: u64) = j" using j(1) assms(4) by (intro unat_of_nat_small) simp
      then show ?thesis using j(1) assms(4) by (subst unat_add_small) simp_all
    qed
    have "nwoas_ipa_to_pa st' a = Some (to + word_of_nat j + (a AND mask 14))"
    proof (rule ipa_to_pa_direct)
      show "wf_pt st'" "in_range st' a" using c ra by (simp_all add: covers_def in_range_def)
      show "aspace st' (a AND NOT (mask 14)) = Some (Direct (to + word_of_nat j) 0)" using as by (simp add: b_def)
      show "2 ^ 14 dvd unat (to + word_of_nat j)" unfolding uj using assms(6) j(2) by (rule dvd_add)
      show "to + word_of_nat j \<noteq> 0" using uj assms(3) by (metis add_is_0 unat_eq_zero)
      show "unat (to + word_of_nat j) < 2 ^ 50" using uj j(1) assms(4) by simp
    qed
    moreover have "word_of_nat j + (a AND mask 14) = a - from"
    proof -
      have "unat (a - from) = j + unat a mod 2 ^ 14"
        using pb(2) s by (simp add: unat_diff_small word_le_nat_alt in_span_def b_def j_def)
      then have "a - from = word_of_nat (j + unat (a AND mask 14))"
        unfolding unat_and_mask by (rule word_of_unat_eq)
      then show ?thesis by simp
    qed
    ultimately show ?thesis by (simp add: add.assoc)
  qed
  then show ?thesis using m by blast
qed

text \<open>
  C29. After a native mapping with \<^verbatim>\<open>hv_map_hw\<close> (cacheable) or \<^verbatim>\<open>hv_map_hw_nc\<close>, the address
  translation the DMA fixups use gives the target plus the offset for every byte of the range.
\<close>

theorem hv_map_hw_translates:
  "span_ok img st from sz \<and> to \<noteq> 0 \<and> unat to + unat sz \<le> 2 ^ 50 \<and>
   2 ^ 14 dvd unat from \<and> 2 ^ 14 dvd unat to \<and> 2 ^ 14 dvd unat sz \<Longrightarrow>
   (\<exists>st'. hv_map_hw rb img st from to sz = Some (0, st') \<and>
      (\<forall>a. in_span from sz a \<longrightarrow> nwoas_ipa_to_pa st' a = Some (to + (a - from)))) \<and>
   (\<exists>st'. hv_map_hw_nc rb img st from to sz = Some (0, st') \<and>
      (\<forall>a. in_span from sz a \<longrightarrow> nwoas_ipa_to_pa st' a = Some (to + (a - from))))"
  unfolding hv_map_hw_def hv_map_hw_nc_def or.assoc
  using ipa_to_pa_mapped [OF _ attr_ok_hw(1)] ipa_to_pa_mapped [OF _ attr_ok_hw(2)] by blast

theorem hv_map_hw_translates_witness:
  "\<exists>st'. hv_map_hw 0x800000000 0x804000000 pt36 0x1004000 0x900000000 0x3000000 = Some (0, st') \<and>
     nwoas_ipa_to_pa st' 0x1004123 = Some 0x900000123"
proof -
  from conjunct1 [OF hv_map_hw_translates [of "0x804000000" pt36 "0x1004000" "0x3000000" "0x900000000" "0x800000000"]]
  obtain st' where s: "hv_map_hw 0x800000000 0x804000000 pt36 0x1004000 0x900000000 0x3000000 = Some (0, st')"
    and a: "\<And>a. in_span 0x1004000 0x3000000 a \<Longrightarrow> nwoas_ipa_to_pa st' a = Some (0x900000000 + (a - 0x1004000))"
    using span36(1) by auto
  show ?thesis using s a [of "0x1004123"] by (simp add: in_span_def)
qed



text \<open>
  \<^verbatim>\<open>hv_map_hook\<close> works at word granularity: every address of a range of whole words reaches
  exactly that hook, and no address outside the range is disturbed, even in the same page.
\<close>

theorem hv_map_hook_dispatch:
  "span_ok img st from sz \<and> 4 dvd unat from \<and> 4 dvd unat sz \<and> 4 dvd unat hook \<and> unat hook < 2 ^ 50 \<Longrightarrow>
   \<exists>st'. hv_map_hook rb img st from hook sz = Some (0, st') \<and> wf_pt st' \<and>
     (\<forall>a. in_range st a \<longrightarrow> aspace st' a = (if in_span from sz a then Some (Hooked SPTE_HOOK hook 0) else aspace st a))"
proof -
  assume a: "span_ok img st from sz \<and> 4 dvd unat from \<and> 4 dvd unat sz \<and> 4 dvd unat hook \<and> unat hook < 2 ^ 50"
  note d = hook_desc [of hook]
  obtain st' where "hv_map rb img st from (hook OR push_bit 50 SPTE_HOOK) sz 0 = Some (0, st')"
    "covers st st' from (hook OR push_bit 50 SPTE_HOOK) (unat sz)"
    using sw_map_covers [OF _ d(1) d(3)] a by blast
  then show ?thesis
    using a covers_aspace [of st st'] covers_wf [of st st'] d(2)
    by (intro exI [of _ st']) (auto simp: hv_map_hook_def span_ok_def in_span_def)
qed

theorem hv_map_hook_dispatch_witness:
  "\<exists>st'. hv_map_hook 0x800000000 0x804000000 pt36 0x235000010 0x801230000 8 = Some (0, st') \<and>
     aspace st' 0x235000014 = Some (Hooked SPTE_HOOK 0x801230000 0)"
proof -
  obtain st' where s: "hv_map_hook 0x800000000 0x804000000 pt36 0x235000010 0x801230000 8 = Some (0, st')"
    and a: "\<forall>a. in_range pt36 a \<longrightarrow> aspace st' a = (if in_span 0x235000010 8 a
       then Some (Hooked SPTE_HOOK 0x801230000 0) else aspace pt36 a)"
    using hv_map_hook_dispatch [of "0x804000000" pt36 "0x235000010" 8 "0x801230000" "0x800000000"] span36(2) by auto
  show ?thesis using s a [rule_format, of "0x235000014"] by (simp add: in_span_def in_range_def pt36_def)
qed

text \<open>
  Of all calls with an encodable descriptor, \<^verbatim>\<open>hv_map\<close> refuses exactly those that are not
  word aligned and the native ones that are not page aligned: it returns -1 and leaves the tables
  as they were.  Every other call returns 0.
\<close>

theorem hv_map_rejects:
  "wf_pt st \<and> arg_ok to incr (unat sz) \<and> unat from + unat sz \<le> 2 ^ vaddr_bits st \<and> 2 ^ 14 dvd unat img \<and>
   unat img < 2 ^ 48 \<Longrightarrow>
   (if 4 dvd unat from \<and> 4 dvd unat sz \<and> (IS_HW to \<longrightarrow> 2 ^ 14 dvd unat from \<and> 2 ^ 14 dvd unat sz)
    then \<exists>st'. hv_map rb img st from to sz incr = Some (0, st')
    else hv_map rb img st from to sz incr = Some (-1, st))"
proof -
  assume a: "wf_pt st \<and> arg_ok to incr (unat sz) \<and> unat from + unat sz \<le> 2 ^ vaddr_bits st \<and> 2 ^ 14 dvd unat img \<and>
    unat img < 2 ^ 48"
  show ?thesis
  proof (cases "4 dvd unat from \<and> 4 dvd unat sz \<and> (IS_HW to \<longrightarrow> 2 ^ 14 dvd unat from \<and> 2 ^ 14 dvd unat sz)")
    case True
    then have "map_pre img st from to sz incr" using a by (auto simp: map_pre_def)
    then have "\<exists>st'. hv_map rb img st from to sz incr = Some (0, st')" using map_stages by blast
    then show ?thesis by (subst if_P [OF True])
  next
    case False
    have m2: "x AND mask 2 = 0 \<longleftrightarrow> 4 dvd unat x" for x :: u64 using and_mask_0 [of x 2] by simp
    show ?thesis using False by (auto simp: hv_map_def Let_def m2 and_mask_0)
  qed
qed

theorem hv_map_rejects_witness:
  "hv_map 0x800000000 0x804000000 pt36 0x1004002 0x20000000 0x1000 1 = Some (-1, pt36) \<and>
   hv_map 0x800000000 0x804000000 pt36 0x1001000 (0x20000000 OR PTE_ATTRIBUTES OR PTE_VALID) 0x4000 1 = Some (-1, pt36)"
proof
  have w: "wf_pt pt36" by (rule hv_pt_init_wf(1) [OF pt36_init])
  have s: "arg_ok 0x20000000 1 0x1000" by (rule sw_desc) simp_all
  show "hv_map 0x800000000 0x804000000 pt36 0x1004002 0x20000000 0x1000 1 = Some (-1, pt36)"
    using hv_map_rejects [of pt36 "0x20000000" 1 "0x1000" "0x1004002" "0x804000000" "0x800000000"] w s
    by (simp add: pt36_def)
  have h: "arg_ok (0x20000000 OR (PTE_ATTRIBUTES OR PTE_VALID)) 1 0x4000" "IS_HW (0x20000000 OR (PTE_ATTRIBUTES OR PTE_VALID))"
    by (rule hw_desc [OF attr_ok_hw(1), where n = "0x4000"]; simp)+
  show "hv_map 0x800000000 0x804000000 pt36 0x1001000 (0x20000000 OR PTE_ATTRIBUTES OR PTE_VALID) 0x4000 1 = Some (-1, pt36)"
    unfolding or.assoc
    using hv_map_rejects [of pt36 "0x20000000 OR (PTE_ATTRIBUTES OR PTE_VALID)" 1 "0x4000" "0x1001000" "0x804000000" "0x800000000"] w h
    by (simp add: pt36_def)
qed

section \<open>Every table the hypervisor can build\<close>







end
