(* ===== verification/Ldst_Emulation.thy ===== *)
theory Ldst_Emulation
  imports Nwoas_Prelude
begin

text \<open>
  The load and store emulator of the hypervisor, \<^verbatim>\<open>emulate_load\<close> and \<^verbatim>\<open>emulate_store\<close> of
  \<^verbatim>\<open>nvme-s208/hv_vm-s208.c\<close>.

  The trapped context holds the general registers (index 31 is a scratch slot, which the code uses
  as the zero register) and the vector registers as pairs of 64-bit halves.  A result \<open>None\<close> marks
  an undefined shift: \<^verbatim>\<open>EXT\<close> with more than 32 bits.  \<^verbatim>\<open>emulate_load\<close> is called twice, first
  without a value (to learn the width and address of the access) and then with the loaded words.
\<close>

record exc_info =
  regs :: "nat \<Rightarrow> u64"
  simd :: "nat \<Rightarrow> u64 \<times> u64"
  ctx_elr :: u64
  ctx_esr :: u64
  ctx_far :: u64

section \<open>Fields of an instruction\<close>

definition insn_Rt :: "u32 \<Rightarrow> nat" where "insn_Rt insn = unat (insn AND 0x1f)"
definition insn_Rn :: "u32 \<Rightarrow> nat" where "insn_Rn insn = unat (drop_bit 5 insn AND 0x1f)"
definition insn_Rt2 :: "u32 \<Rightarrow> nat" where "insn_Rt2 insn = unat (drop_bit 10 insn AND 0x1f)"
definition insn_uimm12 :: "u32 \<Rightarrow> u64" where "insn_uimm12 insn = ucast (drop_bit 10 insn AND 0xfff)"
definition insn_size :: "u32 \<Rightarrow> nat" where "insn_size insn = unat (drop_bit 30 insn)"

text \<open>\<^verbatim>\<open>EXT(n, b)\<close>: the low \<open>b\<close> bits as a signed 32-bit number, widened to 64 bits by its use.\<close>

definition EXT :: "u32 \<Rightarrow> nat \<Rightarrow> u64" where
  "EXT n b = scast (signed_drop_bit (32 - b) (push_bit (32 - b) n))"

definition insn_imm9 :: "u32 \<Rightarrow> u64" where "insn_imm9 insn = EXT (drop_bit 12 insn AND 0x1ff) 9"
definition insn_imm7 :: "u32 \<Rightarrow> u64" where "insn_imm7 insn = EXT (drop_bit 15 insn AND 0x7f) 7"

definition set_reg :: "nat \<Rightarrow> u64 \<Rightarrow> exc_info \<Rightarrow> exc_info" where
  "set_reg r v ctx = ctx\<lparr>regs := (regs ctx)(r := v)\<rparr>"

definition set_simd :: "nat \<Rightarrow> u64 \<times> u64 \<Rightarrow> exc_info \<Rightarrow> exc_info" where
  "set_simd r v ctx = ctx\<lparr>simd := (simd ctx)(r := v)\<rparr>"

section \<open>Loads\<close>

text \<open>
  \<^verbatim>\<open>DECODE_OK\<close> returns here when only the decode is wanted; \<^verbatim>\<open>CHECK_RN\<close> refuses the stack pointer
  as a base that is written back.
\<close>

definition DECODE_OK ::
  "u64 list option \<Rightarrow> exc_info \<Rightarrow> nat \<Rightarrow> u64 \<Rightarrow> (u64 list \<Rightarrow> exc_info option)
     \<Rightarrow> (bool \<times> exc_info \<times> nat \<times> u64) option" where
  "DECODE_OK val ctx width vaddr commit =
     (case val of
        None \<Rightarrow> Some (True, ctx, width, vaddr)
      | Some v \<Rightarrow> (case commit v of None \<Rightarrow> None | Some ctx' \<Rightarrow> Some (True, ctx', width, vaddr)))"

definition CHECK_RN ::
  "u32 \<Rightarrow> exc_info \<Rightarrow> nat \<Rightarrow> u64 \<Rightarrow> (bool \<times> exc_info \<times> nat \<times> u64) option
     \<Rightarrow> (bool \<times> exc_info \<times> nat \<times> u64) option" where
  "CHECK_RN insn ctx width vaddr rest =
     (if insn_Rn insn = 31 then Some (False, ctx, width, vaddr) else rest)"

text \<open>The sign-extending loads, with the 32-bit variant selected by bit 22.\<close>

definition load_signed :: "u32 \<Rightarrow> nat \<Rightarrow> bool \<Rightarrow> u64 list \<Rightarrow> exc_info \<Rightarrow> exc_info option" where
  "load_signed insn width to32 v ctx =
     (if width \<le> 2
      then let x = EXT (ucast (v ! 0)) (8 * 2 ^ width)
           in Some (set_reg (insn_Rt insn) (if to32 then x AND 0xffffffff else x) ctx)
      else None)"

definition load_simd :: "u32 \<Rightarrow> u64 \<times> u64 \<Rightarrow> exc_info \<Rightarrow> exc_info option" where
  "load_simd insn q ctx = Some (set_simd (insn_Rt insn) q ctx)"

definition emulate_load_simd ::
  "exc_info \<Rightarrow> u32 \<Rightarrow> u64 list option \<Rightarrow> nat \<Rightarrow> u64 \<Rightarrow> (bool \<times> exc_info \<times> nat \<times> u64) option" where
  "emulate_load_simd ctx insn val width vaddr =
     (let Rt = insn_Rt insn; Rn = insn_Rn insn; base = regs ctx Rn in
      if insn AND 0xfec00000 = 0xac400000 then
        DECODE_OK val ctx 5 (base + insn_imm7 insn * 16)
          (\<lambda>v. Some (set_simd (insn_Rt2 insn) (v ! 2, v ! 3) (set_simd Rt (v ! 0, v ! 1) ctx)))
      else if insn AND 0x3fc00000 = 0x3d400000 then
        DECODE_OK val ctx width (base + push_bit width (insn_uimm12 insn)) (\<lambda>v. load_simd insn (v ! 0, 0) ctx)
      else if insn AND 0x3fe00c00 = 0x3c400000 then
        DECODE_OK val ctx width (base + insn_imm9 insn) (\<lambda>v. load_simd insn (v ! 0, v ! 1) ctx)
      else if insn AND 0xffc00000 = 0x3dc00000 then
        DECODE_OK val ctx 4 (base + push_bit 4 (insn_uimm12 insn)) (\<lambda>v. load_simd insn (v ! 0, v ! 1) ctx)
      else if insn AND 0xffe00c00 = 0x3cc00000 then
        DECODE_OK val ctx 4 (base + insn_imm9 insn) (\<lambda>v. load_simd insn (v ! 0, v ! 1) ctx)
      else if insn AND 0x3fe00400 = 0x3c400400 then
        CHECK_RN insn ctx width vaddr
          (DECODE_OK val ctx width vaddr (\<lambda>v. load_simd insn (v ! 0, 0) (set_reg Rn (base + insn_imm9 insn) ctx)))
      else if insn AND 0xffe00400 = 0x3cc00400 then
        CHECK_RN insn ctx 4 vaddr
          (DECODE_OK val ctx 4 vaddr (\<lambda>v. load_simd insn (v ! 0, v ! 1) (set_reg Rn (base + insn_imm9 insn) ctx)))
      else if insn AND 0x3fe04c00 = 0x3c604800 then
        DECODE_OK val ctx width vaddr (\<lambda>v. load_simd insn (v ! 0, 0) ctx)
      else if insn AND 0xffe04c00 = 0x3ce04800 then
        DECODE_OK val ctx 4 vaddr (\<lambda>v. load_simd insn (v ! 0, v ! 1) ctx)
      else if insn AND 0xbffffc00 = 0x0d408400 then
        DECODE_OK val ctx 3 vaddr
          (\<lambda>v. load_simd insn (if drop_bit 30 insn AND 1 = 0 then (v ! 0, snd (simd ctx Rt)) else (fst (simd ctx Rt), v ! 0)) ctx)
      else if insn AND 0x3ffffc00 = 0x08dffc00 then
        DECODE_OK val ctx width vaddr (\<lambda>v. Some (set_reg Rt (v ! 0) ctx))
      else Some (False, ctx, width, vaddr))"

definition emulate_load ::
  "exc_info \<Rightarrow> u32 \<Rightarrow> u64 list option \<Rightarrow> u64 \<Rightarrow> (bool \<times> exc_info \<times> nat \<times> u64) option" where
  "emulate_load ctx insn val vaddr =
     (let Rt = insn_Rt insn; Rn = insn_Rn insn; Rt2 = insn_Rt2 insn; width = insn_size insn;
          base = regs ctx Rn; to32 = (insn AND 0x400000 \<noteq> 0) in
      if insn AND 0x3fe00400 = 0x38400400 then
        CHECK_RN insn ctx width vaddr
          (DECODE_OK val ctx width vaddr (\<lambda>v. Some (set_reg Rt (v ! 0) (set_reg Rn (base + insn_imm9 insn) ctx))))
      else if insn AND 0x3fc00000 = 0x39400000 then
        DECODE_OK val ctx width vaddr (\<lambda>v. Some (set_reg Rt (v ! 0) ctx))
      else if insn AND 0x3fa00400 = 0x38800400 then
        CHECK_RN insn ctx width vaddr
          (DECODE_OK val ctx width vaddr (\<lambda>v. load_signed insn width to32 v (set_reg Rn (base + insn_imm9 insn) ctx)))
      else if insn AND 0x3fa00000 = 0x39800000 then
        DECODE_OK val ctx width vaddr (\<lambda>v. load_signed insn width to32 v ctx)
      else if insn AND 0x3fc00000 = 0x39c00000 then
        DECODE_OK val ctx width vaddr (\<lambda>v. load_signed insn width True v ctx)
      else if insn AND 0x3fe04c00 = 0x38604800 then
        DECODE_OK val ctx width vaddr (\<lambda>v. Some (set_reg Rt (v ! 0) ctx))
      else if insn AND 0x3fa04c00 = 0x38a04800 then
        DECODE_OK val ctx width vaddr (\<lambda>v. load_signed insn width to32 v ctx)
      else if insn AND 0x3fe00c00 = 0x38400000 then
        DECODE_OK val ctx width vaddr (\<lambda>v. Some (set_reg Rt (v ! 0) ctx))
      else if insn AND 0x3fa00c00 = 0x38a00000 then
        DECODE_OK val ctx width vaddr (\<lambda>v. load_signed insn width to32 v ctx)
      else if insn AND 0xfec00000 = 0x28400000 then
        DECODE_OK val ctx 3 (base + insn_imm7 insn * 4)
          (\<lambda>v. Some (set_reg Rt2 (drop_bit 32 (v ! 0)) (set_reg Rt (v ! 0 AND 0xffffffff) ctx)))
      else if insn AND 0xfec00000 = 0xa8400000 then
        DECODE_OK val ctx 4 (base + insn_imm7 insn * 8)
          (\<lambda>v. Some (set_reg Rt2 (v ! 1) (set_reg Rt (v ! 0) ctx)))
      else if insn AND 0xfec00000 = 0xa8c00000 then
        DECODE_OK val ctx 4 (base + (if bit insn 24 then insn_imm7 insn * 8 else 0))
          (\<lambda>v. Some (set_reg Rt2 (v ! 1) (set_reg Rt (v ! 0) (set_reg Rn (base + insn_imm7 insn * 8) ctx))))
      else emulate_load_simd ctx insn val width vaddr)"

section \<open>Stores\<close>

definition CACHE_LINE_LOG2 :: nat where "CACHE_LINE_LOG2 = 6"

definition store_mask :: "nat \<Rightarrow> u64" where
  "store_mask width = (if width < 3 then mask (8 * 2 ^ width) else -1)"

definition emulate_store_simd ::
  "exc_info \<Rightarrow> u32 \<Rightarrow> u64 list \<Rightarrow> nat \<Rightarrow> u64 \<Rightarrow> bool \<times> exc_info \<times> u64 list \<times> nat \<times> u64" where
  "emulate_store_simd ctx insn val width vaddr =
     (let Rt = insn_Rt insn; q = simd ctx Rt; base = regs ctx (insn_Rn insn) in
      if insn AND 0x3fc00000 = 0x3d000000 then (True, ctx, val[0 := fst q], width, vaddr)
      else if insn AND 0x3fe04c00 = 0x3c204800 then (True, ctx, val[0 := fst q], width, vaddr)
      else if insn AND 0xffe04c00 = 0x3ca04800 then (True, ctx, val[0 := fst q, 1 := snd q], 4, vaddr)
      else if insn AND 0xffc00000 = 0x3d800000 then (True, ctx, val[0 := fst q, 1 := snd q], 4, vaddr)
      else if insn AND 0xffe00000 = 0xbc000000 then (True, ctx, val[0 := fst q AND mask 32], 2, vaddr)
      else if insn AND 0xffe00000 = 0xfc000000 then (True, ctx, val[0 := fst q], 3, vaddr)
      else if insn AND 0xffe00000 = 0x3c800000 then (True, ctx, val[0 := fst q, 1 := snd q], 4, vaddr)
      else if insn AND 0xffc00000 = 0x2d000000 then
        (True, ctx, val[0 := (fst q AND mask 32) OR push_bit 32 (fst (simd ctx (insn_Rt2 insn)) AND mask 32)], 3,
         base + insn_imm7 insn * 4)
      else if insn AND 0xffc00000 = 0xad000000 then
        (True, ctx, val[0 := fst q, 1 := snd q, 2 := fst (simd ctx (insn_Rt2 insn)), 3 := snd (simd ctx (insn_Rt2 insn))], 5,
         base + insn_imm7 insn * 16)
      else if insn AND 0x3fe00c00 = 0x38000000 then
        (True, ctx, val[0 := regs ctx Rt AND store_mask width], width, vaddr)
      else if insn AND 0xffffffe0 = 0xd50b7420 then
        (True, ctx, replicate 8 0, CACHE_LINE_LOG2, regs ctx Rt)
      else if insn AND 0x3ffffc00 = 0x089ffc00 then
        (True, ctx, val[0 := regs ctx Rt AND store_mask width], width, vaddr)
      else (False, ctx, val, width, vaddr))"

definition emulate_store ::
  "exc_info \<Rightarrow> u32 \<Rightarrow> u64 list \<Rightarrow> u64 \<Rightarrow> bool \<times> exc_info \<times> u64 list \<times> nat \<times> u64" where
  "emulate_store ctx0 insn val vaddr =
     (let Rt = insn_Rt insn; Rn = insn_Rn insn; Rt2 = insn_Rt2 insn; width = insn_size insn;
          ctx = set_reg 31 0 ctx0; base = regs ctx Rn in
      if insn AND 0x3fe00400 = 0x38000400 then
        (if Rn = 31 then (False, ctx, val, width, vaddr)
         else let ctx' = set_reg Rn (base + insn_imm9 insn) ctx
              in (True, ctx', val[0 := regs ctx' Rt AND store_mask width], width, vaddr))
      else if insn AND 0x3fc00000 = 0x39000000 then
        (True, ctx, val[0 := regs ctx Rt AND store_mask width], width, vaddr)
      else if insn AND 0x3fe04c00 = 0x38204800 then
        (True, ctx, val[0 := regs ctx Rt AND store_mask width], width, vaddr)
      else if insn AND 0xfec00000 = 0x28000000 then
        (True, ctx, val[0 := (regs ctx Rt AND 0xffffffff) OR push_bit 32 (regs ctx Rt2)], 3, base + insn_imm7 insn * 4)
      else if insn AND 0xfec00000 = 0xa8000000 then
        (True, ctx, val[0 := regs ctx Rt, 1 := regs ctx Rt2], 4, base + insn_imm7 insn * 8)
      else if insn AND 0xfec00000 = 0xa8800000 then
        (if Rn = 31 then (False, ctx, val, width, vaddr)
         else let ctx' = set_reg Rn (base + insn_imm7 insn * 8) ctx
              in (True, ctx', val[0 := regs ctx' Rt, 1 := regs ctx' Rt2], 4,
                  base + (if bit insn 24 then insn_imm7 insn * 8 else 0)))
      else emulate_store_simd ctx insn val width vaddr)"

section \<open>Decoding and completing a load\<close>


lemma insn_fields: "insn_Rt i < 32" "insn_Rn i < 32" "insn_Rt2 i < 32" "insn_size i < 4"
proof -
  have m: "(0x1f :: u32) = mask 5" by (simp add: mask_eq_exp_minus_1)
  show "insn_Rt i < 32" "insn_Rn i < 32" "insn_Rt2 i < 32"
    by (simp_all add: insn_Rt_def insn_Rn_def insn_Rt2_def m unat_and_mask)
  have "unat i < 2 ^ 32" using unsigned_less [of i] by simp
  then have "unat i div 2 ^ 30 < 4" by (intro less_mult_imp_div_less) simp
  then show "insn_size i < 4" unfolding insn_size_def unat_drop .
qed












section \<open>Sign extension\<close>

lemma sint_low:
  fixes n :: u32
  assumes "0 < b" and "b \<le> 32"
  shows "sint (signed_drop_bit (32 - b) (push_bit (32 - b) n)) = signed_take_bit (b - 1) (uint n)"
proof (rule bit_eqI)
  fix k
  obtain c where c: "b = Suc c" "c < 32" using assms by (cases b) auto
  show "bit (sint (signed_drop_bit (32 - b) (push_bit (32 - b) n))) k = bit (signed_take_bit (b - 1) (uint n)) k"
    using c
    by (cases "c = 31"; cases "k = c")
      (auto simp: bit_simps bit_signed_take_bit_iff min_def not_less le_diff_conv2 bit_sint_iff)
qed

lemma EXT_signed: "0 < b \<Longrightarrow> b \<le> 32 \<Longrightarrow> EXT n b = word_of_int (signed_take_bit (b - 1) (uint n))"
  unfolding EXT_def by (metis sint_low scast_eq)

section \<open>Properties\<close>

text \<open>The context the examples run in: register \<open>r\<close> holds \<open>100 + r\<close>.\<close>

definition demo_ctx :: exc_info where
  "demo_ctx = \<lparr>regs = (\<lambda>r. 100 + word_of_nat r), simd = (\<lambda>r. (word_of_nat r, 1)), ctx_elr = 0x8000, ctx_esr = 0, ctx_far = 0\<rparr>"





text \<open>An instruction of one class matches no pattern that contradicts it.\<close>

lemma field_clash: "(x :: u32) AND m = p \<Longrightarrow> p AND m' \<noteq> p' AND m \<Longrightarrow> (x AND m' = p') = False"
  by (metis and.assoc and.commute)







text \<open>
  The sign-extending loads at an unsigned offset put the loaded byte, halfword or word into the
  register as a signed number, in 64 bits or, with bit 22 set, in the low 32 bits with the upper
  half cleared.
\<close>

theorem signed_load_extends:
  "insn AND 0x3fa00000 = 0x39800000 \<and> insn_size insn \<le> 2 \<Longrightarrow>
   emulate_load ctx insn (Some v) vaddr =
     Some (True, set_reg (insn_Rt insn)
       (if bit insn 22 then take_bit 32 (word_of_int (signed_take_bit (8 * 2 ^ insn_size insn - 1) (uint (v ! 0))))
        else word_of_int (signed_take_bit (8 * 2 ^ insn_size insn - 1) (uint (v ! 0)))) ctx, insn_size insn, vaddr)"
proof -
  assume a: "insn AND 0x3fa00000 = 0x39800000 \<and> insn_size insn \<le> 2"
  have "insn_size insn = 0 \<or> insn_size insn = 1 \<or> insn_size insn = 2" using a by auto
  then have b: "0 < (8 :: nat) * 2 ^ insn_size insn" "8 * 2 ^ insn_size insn \<le> (32 :: nat)" by auto
  define n where "n = 8 * 2 ^ insn_size insn - (1 :: nat)"
  have n: "n < 32" using b by (simp add: n_def)
  have "uint (ucast (v ! 0) :: u32) = take_bit 32 (uint (v ! 0))" by (simp add: unsigned_ucast_eq unsigned_take_bit_eq)
  moreover have "signed_take_bit n (take_bit 32 (uint (v ! 0))) = signed_take_bit n (uint (v ! 0))"
    using n by (simp add: signed_take_bit_take_bit)
  ultimately have e: "EXT (ucast (v ! 0)) (8 * 2 ^ insn_size insn) = word_of_int (signed_take_bit n (uint (v ! 0)))"
    using EXT_signed [OF b] by (simp add: n_def)
  have h: "insn AND 0x400000 \<noteq> 0 \<longleftrightarrow> bit insn 22" using and_exp_eq_0_iff_not_bit [of insn 22] by simp
  have m: "x AND 0xffffffff = take_bit 32 x" for x :: u64 by (simp add: take_bit_eq_mask mask_eq_exp_minus_1)
  have c: "insn AND 0x3fa00000 = 0x39800000" using a by simp
  show ?thesis
    using a e
    by (simp add: emulate_load_def Let_def field_clash [OF c] DECODE_OK_def load_signed_def h m n_def)
qed

theorem signed_load_extends_witness:
  "emulate_load demo_ctx 0x39800041 (Some [0x80]) 0x1000 = Some (True, set_reg 1 (- 0x80) demo_ctx, 0, 0x1000)"
proof -
  have f: "insn_size 0x39800041 = 0" "insn_Rt 0x39800041 = 1" by (simp_all add: insn_size_def insn_Rt_def)
  show ?thesis
    using signed_load_extends [of "0x39800041" demo_ctx "[0x80]" "0x1000"] f by (simp add: bit_numeral_simps)
qed

text \<open>
  Every accepted store fits the 64-byte transfer buffer: at most 32 bytes, or one cache line for
  the cache-zero instruction, whose data is zero; the buffer keeps its eight words, and a refused
  store leaves it alone.
\<close>

theorem store_fits_buffer:
  "List.length val = 8 \<Longrightarrow>
   case emulate_store ctx insn val vaddr of (ok, ctx', vals, w, va) \<Rightarrow>
     List.length vals = 8 \<and> w \<le> CACHE_LINE_LOG2 \<and>
     (w = CACHE_LINE_LOG2 \<longrightarrow> insn AND 0xffffffe0 = 0xd50b7420 \<and> (\<forall>i < 8. vals ! i = 0)) \<and> (\<not> ok \<longrightarrow> vals = val)"
proof -
  assume a: "List.length val = 8"
  have w: "insn_size insn \<le> 3" "insn_size insn \<noteq> 6" using insn_fields(4) [of insn] by auto
  show ?thesis
    using a w unfolding emulate_store_def emulate_store_simd_def Let_def CACHE_LINE_LOG2_def
    by (simp split: if_split)
qed

theorem store_fits_buffer_witness:
  "case emulate_store demo_ctx 0xd50b7423 (replicate 8 1) 0x1000 of (ok, demo_ctx', vals, w, va) \<Rightarrow>
     List.length vals = 8 \<and> w \<le> CACHE_LINE_LOG2"
  using store_fits_buffer [of "replicate 8 1" "0xd50b7423" demo_ctx "0x1000"] by (simp split: prod.splits)

text \<open>
  The pattern commented \<^verbatim>\<open>LDURSx\<close> has bit 21 set: it matches the atomic additions with acquire
  semantics, and no unscaled sign-extending load is decoded.
\<close>

lemma ldurs_refused:
  assumes a: "insn AND 0x3fa00c00 = 0x38800000"
  shows "emulate_load ctx insn val vaddr = Some (False, ctx, insn_size insn, vaddr)"
  by (simp add: emulate_load_def emulate_load_simd_def Let_def field_clash [OF a])

end
