(* ===== verification/Mmio_Emulation.thy ===== *)
theory Mmio_Emulation
  imports Ldst_Emulation Stage2_Tables
begin

text \<open>
  The data abort path of the hypervisor, \<^verbatim>\<open>nvme-s208/hv_vm-s208.c\<close>: guarded physical accesses,
  the dispatch of an aligned access on its descriptor, the split of an access into aligned chunks,
  and the abort handler that ties the walk, the instruction emulator and the accesses together.

  The machine is a parameter: loads and stores of the physical bus report whether they faulted, and
  hooks, the proxy, the fast path and the address translation of the processor are functions on the
  hypervisor state.  Accesses to the two USB controllers are instrumented in the source; that code
  is a parameter as well (\<open>mm_usb_write\<close>, \<open>mm_usb_read\<close>).  A result \<open>None\<close> is a failed assertion.
\<close>

section \<open>Guarded physical accesses\<close>

text \<open>The exception guard: while it is on, a faulting access is skipped and counted.\<close>

record 'h pa_state =
  exc_guard :: bool
  exc_count :: nat
  pa_hw :: 'h

record 'h pa_bus =
  bus_store :: "nat \<Rightarrow> u64 \<Rightarrow> u64 \<Rightarrow> 'h \<Rightarrow> bool \<times> 'h"
  bus_load :: "nat \<Rightarrow> u64 \<Rightarrow> 'h \<Rightarrow> bool \<times> u64 \<times> 'h"
  bus_esr :: "'h \<Rightarrow> u64"
  bus_far :: "'h \<Rightarrow> u64"

definition guarded_store :: "'h pa_bus \<Rightarrow> nat \<Rightarrow> u64 \<Rightarrow> u64 \<Rightarrow> ('h, 'z) pa_state_scheme \<Rightarrow> ('h, 'z) pa_state_scheme" where
  "guarded_store bus bits addr v s =
     (case bus_store bus bits addr (take_bit bits v) (pa_hw s) of (fault, h) \<Rightarrow>
        s\<lparr>exc_count := exc_count s + (if fault then 1 else 0), pa_hw := h\<rparr>)"

definition guarded_load :: "'h pa_bus \<Rightarrow> nat \<Rightarrow> u64 \<Rightarrow> ('h, 'z) pa_state_scheme \<Rightarrow> u64 \<times> ('h, 'z) pa_state_scheme" where
  "guarded_load bus bits addr s =
     (case bus_load bus bits addr (pa_hw s) of (fault, v, h) \<Rightarrow>
        (take_bit bits v, s\<lparr>exc_count := exc_count s + (if fault then 1 else 0), pa_hw := h\<rparr>))"

primrec store_words :: "'h pa_bus \<Rightarrow> nat \<Rightarrow> u64 \<Rightarrow> u64 list \<Rightarrow> nat \<Rightarrow> ('h, 'z) pa_state_scheme \<Rightarrow> ('h, 'z) pa_state_scheme" where
  "store_words bus 0 addr val i s = s"
| "store_words bus (Suc n) addr val i s =
     store_words bus n addr val (Suc i) (guarded_store bus 64 (addr + 8 * word_of_nat i) (val ! i) s)"

primrec load_words :: "'h pa_bus \<Rightarrow> nat \<Rightarrow> u64 \<Rightarrow> u64 list \<Rightarrow> nat \<Rightarrow> ('h, 'z) pa_state_scheme \<Rightarrow> u64 list \<times> ('h, 'z) pa_state_scheme" where
  "load_words bus 0 addr val i s = (val, s)"
| "load_words bus (Suc n) addr val i s =
     (case guarded_load bus 64 (addr + 8 * word_of_nat i) s of (v, s1) \<Rightarrow> load_words bus n addr (val[i := v]) (Suc i) s1)"

text \<open>The common end of both accesses: drop the guard and report a counted exception.\<close>

definition guard_exit :: "'h pa_bus \<Rightarrow> exc_info \<Rightarrow> ('h, 'z) pa_state_scheme \<Rightarrow> bool \<times> exc_info \<times> ('h, 'z) pa_state_scheme" where
  "guard_exit bus ctx s =
     (if exc_count s \<noteq> 0
      then (False, ctx\<lparr>ctx_esr := bus_esr bus (pa_hw s), ctx_far := bus_far bus (pa_hw s)\<rparr>, s\<lparr>exc_guard := False\<rparr>)
      else (True, ctx, s\<lparr>exc_guard := False\<rparr>))"

definition hv_pa_write ::
  "'h pa_bus \<Rightarrow> exc_info \<Rightarrow> u64 \<Rightarrow> u64 list \<Rightarrow> nat \<Rightarrow> ('h, 'z) pa_state_scheme \<Rightarrow> bool \<times> exc_info \<times> ('h, 'z) pa_state_scheme" where
  "hv_pa_write bus ctx addr val width s =
     (let s0 = s\<lparr>exc_count := 0, exc_guard := True\<rparr> in
      if width \<le> 3 then guard_exit bus ctx (guarded_store bus (8 * 2 ^ width) addr (val ! 0) s0)
      else if width \<le> 6 then guard_exit bus ctx (store_words bus (2 ^ (width - 3)) addr val 0 s0)
      else (False, ctx, s0\<lparr>exc_guard := False\<rparr>))"

definition hv_pa_read ::
  "'h pa_bus \<Rightarrow> exc_info \<Rightarrow> u64 \<Rightarrow> u64 list \<Rightarrow> nat \<Rightarrow> ('h, 'z) pa_state_scheme
     \<Rightarrow> bool \<times> exc_info \<times> u64 list \<times> ('h, 'z) pa_state_scheme" where
  "hv_pa_read bus ctx addr val width s =
     (let s0 = s\<lparr>exc_count := 0, exc_guard := True\<rparr> in
      if width \<le> 3 then
        (case guarded_load bus (8 * 2 ^ width) addr s0 of (v, s1) \<Rightarrow>
         case guard_exit bus ctx s1 of (ok, ctx', s2) \<Rightarrow> (ok, ctx', val[0 := v], s2))
      else if width \<le> 5 then
        (case load_words bus (2 ^ (width - 3)) addr val 0 s0 of (val', s1) \<Rightarrow>
         case guard_exit bus ctx s1 of (ok, ctx', s2) \<Rightarrow> (ok, ctx', val', s2))
      else (False, ctx, val, s0\<lparr>exc_guard := False\<rparr>))"

section \<open>Transfer buffers\<close>

text \<open>The 64-byte buffer seen as eight words and as bytes.\<close>

definition HV_MAX_RW_SIZE :: nat where "HV_MAX_RW_SIZE = 64"

definition words_of :: "bytes \<Rightarrow> u64 list" where
  "words_of b = map (\<lambda>i. le_word (take 8 (drop (8 * i) b))) [0..<8]"

definition bytes_of :: "u64 list \<Rightarrow> bytes" where
  "bytes_of ws = concat (map (le_bytes 8) ws)"

definition memcpy_at :: "nat \<Rightarrow> bytes \<Rightarrow> bytes \<Rightarrow> bytes" where
  "memcpy_at off src dst = take off dst @ src @ drop (off + List.length src) dst"

section \<open>Aligned accesses\<close>

record trace_event =
  evt_pc :: u64
  evt_addr :: u64
  evt_data :: u64
  evt_width :: nat
  evt_multi :: bool
  evt_write :: bool

definition emit_mmiotrace :: "u64 \<Rightarrow> u64 \<Rightarrow> u64 list \<Rightarrow> nat \<Rightarrow> bool \<Rightarrow> trace_event list" where
  "emit_mmiotrace pc addr data width wr =
     map (\<lambda>i. \<lparr>evt_pc = pc, evt_addr = addr + 8 * word_of_nat i, evt_data = data ! i,
              evt_width = min 3 width, evt_multi = (width > 3), evt_write = wr\<rparr>) [0..<(2 ^ width + 7) div 8]"

record ('h, 's) mmio_ops =
  mm_bus :: "'h pa_bus"
  mm_hook :: "u64 \<Rightarrow> exc_info \<Rightarrow> u64 \<Rightarrow> u64 list \<Rightarrow> bool \<Rightarrow> nat \<Rightarrow> 's \<Rightarrow> bool \<times> exc_info \<times> u64 list \<times> 's"
  mm_fastpath :: "exc_info \<Rightarrow> u64 \<Rightarrow> u64 list \<Rightarrow> bool \<Rightarrow> nat \<Rightarrow> 's \<Rightarrow> bool \<times> exc_info \<times> u64 list \<times> 's"
  mm_proxy :: "u64 \<Rightarrow> exc_info \<Rightarrow> u64 \<Rightarrow> u64 list \<Rightarrow> bool \<Rightarrow> nat \<Rightarrow> u64 \<Rightarrow> 's \<Rightarrow> exc_info \<times> u64 list \<times> 's"
  mm_trace :: "trace_event list \<Rightarrow> u64 \<Rightarrow> bool \<Rightarrow> 's \<Rightarrow> 's"
  mm_usb_write :: "exc_info \<Rightarrow> u64 \<Rightarrow> u64 \<Rightarrow> u64 list \<Rightarrow> nat \<Rightarrow> 's \<Rightarrow> bool \<times> exc_info \<times> u64 list \<times> 's"
  mm_usb_read :: "exc_info \<Rightarrow> u64 \<Rightarrow> u64 \<Rightarrow> u64 list \<Rightarrow> nat \<Rightarrow> 's \<Rightarrow> bool \<times> exc_info \<times> u64 list \<times> 's"

text \<open>The register windows of the two USB controllers whose accesses the source instruments.\<close>

definition usb_window :: "bool \<Rightarrow> u64 \<Rightarrow> u64 \<Rightarrow> nat \<Rightarrow> bool" where
  "usb_window wr elr paddr width \<longleftrightarrow>
     (drop_bit 48 elr = 0xffff \<and> width = 2 \<and> 0x502280000 \<le> paddr \<and> paddr < 0x502290000) \<or>
     ((\<not> wr \<or> drop_bit 48 elr = 0xffff) \<and> 0x6c0000000 \<le> paddr \<and> paddr < 0x6c0100000)"

definition SPTE_PROXY_HOOK_R :: u64 where "SPTE_PROXY_HOOK_R = 2"
definition SPTE_PROXY_HOOK_W :: u64 where "SPTE_PROXY_HOOK_W = 3"
definition SPTE_PROXY_HOOK_RW :: u64 where "SPTE_PROXY_HOOK_RW = 4"

text \<open>The two directions of \<^verbatim>\<open>hv_emulate_rw_aligned\<close>; \<open>pte\<close> is the descriptor after native
  descriptors have been turned into software ones.\<close>

definition emulate_write_aligned ::
  "('h, ('h, 'z) pa_state_scheme) mmio_ops \<Rightarrow> exc_info \<Rightarrow> u64 \<Rightarrow> u64 \<Rightarrow> u64 \<Rightarrow> u64 list \<Rightarrow> nat \<Rightarrow> u64 \<Rightarrow> u64
     \<Rightarrow> ('h, 'z) pa_state_scheme \<Rightarrow> bool \<times> exc_info \<times> u64 list \<times> ('h, 'z) pa_state_scheme" where
  "emulate_write_aligned ops ctx pte paddr0 ipa val width elr par s0 =
     (let s = (if bit pte 62 then mm_trace ops (emit_mmiotrace elr ipa val width True) par (bit pte 61) s0 else s0);
          ty = spte_type pte;
          paddr = (if ty = SPTE_PROXY_HOOK_R then ipa else paddr0) in
      if ty = SPTE_PROXY_HOOK_R \<or> ty = SPTE_MAP then
        if usb_window True elr paddr width then mm_usb_write ops ctx elr paddr val width s
        else (case hv_pa_write (mm_bus ops) ctx paddr val width s of (ok, ctx', s') \<Rightarrow> (ok, ctx', val, s'))
      else if ty = SPTE_HOOK then mm_hook ops (pte AND PTE_TARGET_MASK_L4) ctx ipa val True width s
      else if ty = SPTE_PROXY_HOOK_RW \<or> ty = SPTE_PROXY_HOOK_W then
        (case mm_fastpath ops ctx ipa val True width s of (done, ctx1, val1, s1) \<Rightarrow>
           if done then (True, ctx1, val1, s1)
           else (case mm_proxy ops (drop_bit 2 (pte AND PTE_TARGET_MASK_L4)) ctx1 ipa
                        (words_of (take (2 ^ width) (bytes_of val1))) True width par s1 of
                   (ctx2, _, s2) \<Rightarrow> (True, ctx2, val1, s2)))
      else (False, ctx, val, s))"

definition emulate_read_aligned ::
  "('h, ('h, 'z) pa_state_scheme) mmio_ops \<Rightarrow> exc_info \<Rightarrow> u64 \<Rightarrow> u64 \<Rightarrow> u64 \<Rightarrow> u64 list \<Rightarrow> nat \<Rightarrow> u64 \<Rightarrow> u64
     \<Rightarrow> ('h, 'z) pa_state_scheme \<Rightarrow> bool \<times> exc_info \<times> u64 list \<times> ('h, 'z) pa_state_scheme" where
  "emulate_read_aligned ops ctx pte paddr0 ipa val width elr par s =
     (let ty = spte_type pte;
          paddr = (if ty = SPTE_PROXY_HOOK_W then ipa else paddr0);
          r = (if ty = SPTE_PROXY_HOOK_W \<or> ty = SPTE_MAP then
                 if usb_window False elr paddr width then mm_usb_read ops ctx elr paddr val width s
                 else hv_pa_read (mm_bus ops) ctx paddr val width s
               else if ty = SPTE_HOOK then mm_hook ops (pte AND PTE_TARGET_MASK_L4) ctx ipa val False width s
               else if ty = SPTE_PROXY_HOOK_RW \<or> ty = SPTE_PROXY_HOOK_R then
                 (case mm_fastpath ops ctx ipa val False width s of (done, ctx1, val1, s1) \<Rightarrow>
                    if done then (True, ctx1, val1, s1)
                    else (case mm_proxy ops (drop_bit 2 (pte AND PTE_TARGET_MASK_L4)) ctx1 ipa (replicate 8 0)
                                 False width par s1 of
                            (ctx2, data, s2) \<Rightarrow>
                              (True, ctx2, words_of (memcpy_at 0 (take (2 ^ width) (bytes_of data)) (bytes_of val1)), s2)))
               else (False, ctx, val, s))
      in case r of (ok, ctx', val', s') \<Rightarrow>
           (ok, ctx', val', if ok \<and> bit pte 63
                            then mm_trace ops (emit_mmiotrace elr ipa val' width False) par (bit pte 61) s' else s'))"

definition hv_emulate_rw_aligned ::
  "('h, ('h, 'z) pa_state_scheme) mmio_ops \<Rightarrow> exc_info \<Rightarrow> u64 \<Rightarrow> u64 \<Rightarrow> u64 \<Rightarrow> u64 list \<Rightarrow> bool \<Rightarrow> nat \<Rightarrow> u64 \<Rightarrow> u64
     \<Rightarrow> ('h, 'z) pa_state_scheme \<Rightarrow> (bool \<times> exc_info \<times> u64 list \<times> ('h, 'z) pa_state_scheme) option" where
  "hv_emulate_rw_aligned ops ctx pte0 vaddr ipa val is_write width elr par s =
     (if pte0 = 0 \<or> unat (ipa AND 0x3fff) + 2 ^ width > 0x4000 then None
      else let target = pte0 AND PTE_TARGET_MASK_L4;
               paddr = target OR (vaddr AND mask 2);
               pte = (if IS_HW pte0 then target else pte0)
           in Some (if is_write then emulate_write_aligned ops ctx pte paddr ipa val width elr par s
                    else emulate_read_aligned ops ctx pte paddr ipa val width elr par s))"

section \<open>Splitting an access\<close>

definition rw_width :: "nat \<Rightarrow> u64 \<Rightarrow> nat" where
  "rw_width left ipa =
     (if left \<ge> 64 \<and> ipa AND 63 = 0 then 6
      else if left \<ge> 32 \<and> ipa AND 31 = 0 then 5
      else if left \<ge> 16 \<and> ipa AND 15 = 0 then 4
      else if left \<ge> 8 \<and> ipa AND 7 = 0 then 3
      else if left \<ge> 4 \<and> ipa AND 3 = 0 then 2
      else if left \<ge> 2 \<and> ipa AND 1 = 0 then 1
      else 0)"

lemma rw_width_le: "0 < left \<Longrightarrow> 2 ^ rw_width left ipa \<le> left"
  by (auto simp: rw_width_def)

type_synonym 's access_fn =
  "exc_info \<Rightarrow> u64 \<Rightarrow> u64 \<Rightarrow> u64 \<Rightarrow> u64 list \<Rightarrow> bool \<Rightarrow> nat \<Rightarrow> u64 \<Rightarrow> u64 \<Rightarrow> 's
     \<Rightarrow> (bool \<times> exc_info \<times> u64 list \<times> 's) option"

text \<open>The loop of \<^verbatim>\<open>hv_emulate_rw\<close> over the aligned access \<open>acc\<close>.\<close>

function emulate_rw_loop ::
  "'s access_fn \<Rightarrow> bool \<Rightarrow> bool \<Rightarrow> u64 \<Rightarrow> u64 \<Rightarrow> nat \<Rightarrow> nat \<Rightarrow> u64 \<Rightarrow> u64 \<Rightarrow> u64 \<Rightarrow> u64 \<Rightarrow> bytes \<Rightarrow> exc_info \<Rightarrow> 's
     \<Rightarrow> (bool \<times> exc_info \<times> bytes \<times> 's) option" where
  "emulate_rw_loop acc advance is_write elr par left off ipa vaddr paddr pte0 val ctx s =
     (if left = 0 then Some (True, ctx, val, s)
      else let width = rw_width left ipa;
               chunk = 2 ^ width;
               aval = (if is_write then words_of (take chunk (drop off val)) else replicate 8 0);
               pte = (if advance then (paddr AND PTE_TARGET_MASK_L4) OR (pte0 AND NOT PTE_TARGET_MASK_L4) else pte0)
           in case acc ctx pte vaddr ipa aval is_write width elr par s of
                None \<Rightarrow> None
              | Some (ok, ctx', aval', s') \<Rightarrow>
                  if \<not> ok then Some (False, ctx', val, s')
                  else emulate_rw_loop acc advance is_write elr par (left - chunk) (off + chunk)
                         (ipa + word_of_nat chunk) (vaddr + word_of_nat chunk)
                         (if advance then paddr + word_of_nat chunk else paddr) pte
                         (if is_write then val else memcpy_at off (take chunk (bytes_of aval')) val) ctx' s')"
  by pat_completeness auto

termination
  by (relation "measure (\<lambda>(acc, advance, is_write, elr, par, left, rest). left)") (auto simp: rw_width_le)

declare emulate_rw_loop.simps [simp del]

definition hv_emulate_rw ::
  "'s access_fn \<Rightarrow> exc_info \<Rightarrow> u64 \<Rightarrow> u64 \<Rightarrow> u64 \<Rightarrow> bytes \<Rightarrow> bool \<Rightarrow> nat \<Rightarrow> u64 \<Rightarrow> u64 \<Rightarrow> 's
     \<Rightarrow> (bool \<times> exc_info \<times> bytes \<times> 's) option" where
  "hv_emulate_rw acc ctx pte vaddr ipa val is_write n elr par s =
     emulate_rw_loop acc (IS_HW pte \<or> (IS_SW pte \<and> spte_type pte = SPTE_MAP)) is_write elr par n 0 ipa vaddr
       ((pte AND PTE_TARGET_MASK_L4) OR (vaddr AND mask 2)) pte val ctx s"

end
