(* ===== verification/Mmio_Memory.thy ===== *)
theory Mmio_Memory
  imports Mmio_Emulation Stage2_Access
begin

text \<open>
  Emulated accesses to plain memory.  The contract of the aligned access is the locale
  \<open>aligned_memory\<close>; inside it the split loop is proved to move exactly the bytes asked for.  The
  aligned access of the hypervisor over a bus that has memory behind it is its instance.
\<close>

section \<open>Buffers\<close>

lemma length_bytes_of [simp]: "List.length (bytes_of ws) = 8 * List.length ws"
  by (induction ws) (simp_all add: bytes_of_def)

lemma length_words_of [simp]: "List.length (words_of b) = 8"
  by (simp add: words_of_def)

lemma memcpy_at_length [simp]: "off + List.length xs \<le> List.length v \<Longrightarrow> List.length (memcpy_at off xs v) = List.length v"
  by (simp add: memcpy_at_def)

lemma memcpy_at_append:
  assumes "off + List.length xs + List.length ys \<le> List.length v"
  shows "memcpy_at (off + List.length xs) ys (memcpy_at off xs v) = memcpy_at off (xs @ ys) v"
  using assms by (simp add: memcpy_at_def ac_simps)

lemma memcpy_at_empty [simp]: "memcpy_at off [] v = v"
  by (simp add: memcpy_at_def)

lemma map_upt_add: "map f [0..<a + b] = map f [0..<a] @ map (\<lambda>i. f (a + i)) [0..<b]"
  by (rule nth_equalityI) (auto simp: nth_append)

section \<open>A split access to memory\<close>

text \<open>Descriptors that forward to memory without tracing, and the address they forward to.\<close>

definition plain_pte :: "u64 \<Rightarrow> bool" where
  "plain_pte pte \<longleftrightarrow> pte AND PTE_TARGET_MASK_L4 \<noteq> 0 \<and> (IS_HW pte \<or> (spte_type pte = SPTE_MAP \<and> drop_bit 61 pte = 0))"

definition pte_pa :: "u64 \<Rightarrow> u64 \<Rightarrow> u64" where
  "pte_pa pte vaddr = (pte AND PTE_TARGET_MASK_L4) OR (vaddr AND mask 2)"

text \<open>
  What the split relies on: an aligned access inside a page, to a descriptor that forwards to
  memory, transfers exactly the bytes at the forwarded address.
\<close>

locale aligned_memory =
  fixes acc :: "'s access_fn" and mem :: "'s \<Rightarrow> u64 \<Rightarrow> u8" and quiet :: "u64 \<Rightarrow> u64 \<Rightarrow> bool"
  assumes acc_read: "plain_pte pte \<Longrightarrow> w \<le> 5 \<Longrightarrow> unat ipa mod 2 ^ 14 + 2 ^ w \<le> 2 ^ 14 \<Longrightarrow>
      quiet elr (pte_pa pte vaddr) \<Longrightarrow> List.length aval = 8 \<Longrightarrow>
      \<exists>aval' s'. acc ctx pte vaddr ipa aval False w elr par s = Some (True, ctx, aval', s') \<and>
        List.length aval' = 8 \<and> mem s' = mem s \<and>
        take (2 ^ w) (bytes_of aval') = map (\<lambda>i. mem s (pte_pa pte vaddr + word_of_nat i)) [0..<2 ^ w]"
    and acc_write: "plain_pte pte \<Longrightarrow> w \<le> 6 \<Longrightarrow> unat ipa mod 2 ^ 14 + 2 ^ w \<le> 2 ^ 14 \<Longrightarrow>
      quiet elr (pte_pa pte vaddr) \<Longrightarrow> List.length b = 2 ^ w \<Longrightarrow>
      \<exists>aval' s'. acc ctx pte vaddr ipa (words_of b) True w elr par s = Some (True, ctx, aval', s') \<and>
        mem s' = (\<lambda>a. if unat (a - pte_pa pte vaddr) < 2 ^ w then b ! unat (a - pte_pa pte vaddr) else mem s a)"

lemma pte_step:
  assumes "plain_pte pte" and "unat paddr < 2 ^ 50" and "4 \<le> unat paddr" and "paddr AND mask 2 = vaddr AND mask 2"
  defines "pte' \<equiv> (paddr AND PTE_TARGET_MASK_L4) OR (pte AND NOT PTE_TARGET_MASK_L4)"
  shows "plain_pte pte'" and "pte_pa pte' vaddr = paddr"
proof -
  have hi: "bit paddr n \<Longrightarrow> n \<le> 49" for n
  proof (rule ccontr)
    assume n: "bit paddr n" "\<not> n \<le> 49"
    have "take_bit 50 paddr = paddr" unfolding word_unat_eq_iff unat_take using assms(2) by simp
    then have "bit paddr n = bit (take_bit 50 paddr) n" by simp
    then show False using n by (simp add: bit_take_bit_iff)
  qed
  have t: "pte' AND PTE_TARGET_MASK_L4 = paddr AND PTE_TARGET_MASK_L4"
    unfolding pte'_def by (rule bit_word_eqI) (auto simp: bit_simps)
  have b: "bit pte' n = bit pte n" if "n < 2 \<or> 50 \<le> n" for n
  proof (cases "n < 64")
    case True
    then show ?thesis using that by (auto simp: pte'_def bit_and_iff bit_or_iff bit_not_iff pte_masks_bit)
  next
    case False
    then show ?thesis using bit_imp_le_length [of pte n] bit_imp_le_length [of pte' n] by auto
  qed
  have ty: "spte_type pte' = spte_type pte"
    by (rule bit_word_eqI) (use b in \<open>auto simp: spte_type_eq bit_take_bit_iff bit_drop_bit_eq\<close>)
  have tr: "drop_bit 61 pte' = drop_bit 61 pte"
    by (rule bit_word_eqI) (use b in \<open>auto simp: bit_drop_bit_eq\<close>)
  have nz: "paddr AND PTE_TARGET_MASK_L4 \<noteq> 0"
  proof
    assume z: "paddr AND PTE_TARGET_MASK_L4 = 0"
    have "unat (paddr AND PTE_TARGET_MASK_L4) = unat paddr div 2 ^ 2 * 2 ^ 2"
      unfolding unat_target_l4 using assms(2) by simp
    moreover have "1 \<le> unat paddr div 4" using assms(3) by (simp add: div_greater_zero_iff)
    ultimately show False using z by simp
  qed
  show "plain_pte pte'" using assms(1) b [of 0] nz ty tr t by (simp add: plain_pte_def hw_bit)
  have "paddr = (paddr AND PTE_TARGET_MASK_L4) OR (paddr AND mask 2)"
    by (rule bit_word_eqI) (use hi in \<open>auto simp: bit_simps pte_masks_bit not_le not_less\<close>)
  then show "pte_pa pte' vaddr = paddr" using t assms(4) by (simp add: pte_pa_def)
qed

lemma rw_width_small: "left < 64 \<Longrightarrow> rw_width left ipa \<le> 5" "rw_width left ipa \<le> 6"
  by (auto simp: rw_width_def)

lemma page_step:
  fixes ipa :: u64
  assumes "unat ipa mod 2 ^ 14 + left \<le> 2 ^ 14" and "c < left"
  shows "unat (ipa + word_of_nat c) mod 2 ^ 14 + (left - c) \<le> 2 ^ 14"
proof -
  have "unat (ipa + word_of_nat c) mod 2 ^ 14 = (unat ipa + c) mod 2 ^ 14"
  proof -
    have "unat (ipa + word_of_nat c) = (unat ipa + c) mod 2 ^ 64"
      by (simp add: unat_word_ariths unat_of_nat mod_add_right_eq take_bit_eq_mod)
    then show ?thesis by (simp add: mod_mod_cancel)
  qed
  also have "\<dots> = unat ipa mod 2 ^ 14 + c"
    using assms mod_add_left_eq [of "unat ipa" "2 ^ 14" c] by simp
  finally show ?thesis using assms by simp
qed

lemma low2_step: "(a :: u64) AND mask 2 = b AND mask 2 \<Longrightarrow> (a + c) AND mask 2 = (b + c) AND mask 2"
proof -
  assume "a AND mask 2 = b AND mask 2"
  then have e: "unat a mod 4 = unat b mod 4" unfolding word_unat_eq_iff unat_and_mask by simp
  have "unat (x + c) mod 4 = (unat x + unat c) mod 4" for x by (simp add: unat_word_ariths mod_mod_cancel)
  moreover have "(unat a + unat c) mod 4 = (unat b + unat c) mod 4" using e by (intro mod_add_cong) simp_all
  ultimately show ?thesis unfolding word_unat_eq_iff unat_and_mask by simp
qed

lemma loop_done: "emulate_rw_loop acc adv wr elr par 0 off ipa vaddr paddr pte val ctx s = Some (True, ctx, val, s)"
  by (simp add: emulate_rw_loop.simps)

context aligned_memory
begin

lemma loop_read:
  assumes "plain_pte pte" and "left < 64" and "unat ipa mod 2 ^ 14 + left \<le> 2 ^ 14"
    and "unat paddr + left \<le> 2 ^ 50" and "4 \<le> unat paddr" and "paddr AND mask 2 = vaddr AND mask 2"
    and "\<forall>i < left. quiet elr (paddr + word_of_nat i)" and "off + left \<le> List.length val"
  shows "\<exists>s'. emulate_rw_loop acc True False elr par left off ipa vaddr paddr pte val ctx s =
      Some (True, ctx, memcpy_at off (map (\<lambda>i. mem s (paddr + word_of_nat i)) [0..<left]) val, s') \<and> mem s' = mem s"
  using assms
proof (induction left arbitrary: off ipa vaddr paddr pte val s rule: less_induct)
  case (less left)
  show ?case
  proof (cases "left = 0")
    case True
    then show ?thesis by (simp add: loop_done)
  next
    case False
    define w where "w = rw_width left ipa"
    define c where "c = (2 :: nat) ^ w"
    have c: "c \<le> left" "0 < c" using False rw_width_le [of left ipa] by (simp_all add: c_def w_def)
    define pte' where "pte' = (paddr AND PTE_TARGET_MASK_L4) OR (pte AND NOT PTE_TARGET_MASK_L4)"
    have "unat paddr < 2 ^ 50" using less.prems(4) False by simp
    note p = pte_step [OF less.prems(1) this less.prems(5,6), folded pte'_def]
    have w5: "w \<le> 5" using rw_width_small(1) [OF less.prems(2)] by (simp add: w_def)
    have pg: "unat ipa mod 2 ^ 14 + 2 ^ w \<le> 2 ^ 14" using c less.prems(3) by (simp add: c_def)
    have q: "quiet elr (pte_pa pte' vaddr)" using less.prems(7) [rule_format, of 0] False p(2) by simp
    have l8: "List.length (replicate 8 (0 :: u64)) = 8" by simp
    obtain aval' s1 where a: "acc ctx pte' vaddr ipa (replicate 8 0) False w elr par s = Some (True, ctx, aval', s1)"
      "List.length aval' = 8" "mem s1 = mem s"
      "take c (bytes_of aval') = map (\<lambda>i. mem s (paddr + word_of_nat i)) [0..<c]"
      using acc_read [OF p(1) w5 pg q l8, of ctx par s] unfolding p(2) c_def by blast
    define val1 where "val1 = memcpy_at off (map (\<lambda>i. mem s (paddr + word_of_nat i)) [0..<c]) val"
    have step: "emulate_rw_loop acc True False elr par left off ipa vaddr paddr pte val ctx s =
        emulate_rw_loop acc True False elr par (left - c) (off + c) (ipa + word_of_nat c) (vaddr + word_of_nat c)
          (paddr + word_of_nat c) pte' val1 ctx s1"
      using False a
      by (subst emulate_rw_loop.simps) (simp add: Let_def w_def [symmetric] c_def [symmetric] pte'_def [symmetric] val1_def)
    have v1: "off + c + (left - c) \<le> List.length val1" using c less.prems(8) by (simp add: val1_def)
    show ?thesis
    proof (cases "c = left")
      case True
      then have "emulate_rw_loop acc True False elr par left off ipa vaddr paddr pte val ctx s = Some (True, ctx, val1, s1)"
        using step by (simp add: loop_done)
      then show ?thesis using a True by (simp add: val1_def)
    next
      case lt: False
      have uc: "unat (paddr + word_of_nat c) = unat paddr + c"
        using c less.prems(4) by (subst unat_add_small) (simp_all add: unat_of_nat_small)
      have "\<exists>s'. emulate_rw_loop acc True False elr par (left - c) (off + c) (ipa + word_of_nat c) (vaddr + word_of_nat c)
          (paddr + word_of_nat c) pte' val1 ctx s1 =
        Some (True, ctx, memcpy_at (off + c) (map (\<lambda>i. mem s1 (paddr + word_of_nat c + word_of_nat i)) [0..<left - c]) val1, s') \<and>
        mem s' = mem s1"
      proof (rule less.IH)
        show "left - c < left" using c by simp
        show "plain_pte pte'" by (rule p)
        show "left - c < 64" using less.prems(2) by simp
        show "unat (ipa + word_of_nat c) mod 2 ^ 14 + (left - c) \<le> 2 ^ 14"
          using page_step [OF less.prems(3)] c lt by simp
        show "unat (paddr + word_of_nat c) + (left - c) \<le> 2 ^ 50" using uc c less.prems(4) by simp
        show "4 \<le> unat (paddr + word_of_nat c)" using uc less.prems(5) by simp
        show "(paddr + word_of_nat c) AND mask 2 = (vaddr + word_of_nat c) AND mask 2" by (rule low2_step [OF less.prems(6)])
        show "\<forall>i < left - c. quiet elr (paddr + word_of_nat c + word_of_nat i)"
          using less.prems(7) c by (auto simp: add.assoc word_of_nat_add simp flip: of_nat_add)
        show "off + c + (left - c) \<le> List.length val1" by (rule v1)
      qed
      moreover have "memcpy_at (off + c) (map (\<lambda>i. mem s (paddr + word_of_nat c + word_of_nat i)) [0..<left - c]) val1 =
          memcpy_at off (map (\<lambda>i. mem s (paddr + word_of_nat i)) [0..<left]) val"
      proof -
        define xs ys where "xs = map (\<lambda>i. mem s (paddr + word_of_nat i)) [0..<c]"
          and "ys = map (\<lambda>i. mem s (paddr + word_of_nat c + word_of_nat i)) [0..<left - c]"
        have "map (\<lambda>i. mem s (paddr + word_of_nat i)) [0..<c + (left - c)] = xs @ ys"
          unfolding map_upt_add xs_def ys_def by (simp add: add.assoc)
        then have e: "map (\<lambda>i. mem s (paddr + word_of_nat i)) [0..<left] = xs @ ys" using c by simp
        have "memcpy_at (off + List.length xs) ys (memcpy_at off xs val) = memcpy_at off (xs @ ys) val"
          using c less.prems(8) by (intro memcpy_at_append) (simp add: xs_def ys_def)
        then show ?thesis unfolding e by (simp add: val1_def xs_def ys_def)
      qed
      ultimately show ?thesis using step a(3) by auto
    qed
  qed
qed

end

lemma offset_split:
  fixes a p :: u64
  assumes "c \<le> n" and "n \<le> 64"
  shows "(unat (a - (p + word_of_nat c)) < n - c) = (c \<le> unat (a - p) \<and> unat (a - p) < n)"
    and "c \<le> unat (a - p) \<Longrightarrow> unat (a - (p + word_of_nat c)) = unat (a - p) - c"
proof -
  define d where "d = a - p"
  have u: "unat (word_of_nat c :: u64) = c" using assms by (intro unat_of_nat_small) simp
  have e: "a - (p + word_of_nat c) = d - word_of_nat c" by (simp add: d_def algebra_simps)
  have ge: "unat (d - word_of_nat c) = unat d - c" if "c \<le> unat d"
    using that u by (subst unat_diff_small) (simp_all add: word_le_nat_alt)
  have lt: "n - c \<le> unat (d - word_of_nat c)" if "unat d < c"
  proof -
    have "unat (d - word_of_nat c) = unat d + 2 ^ 64 - c" using that u by (simp add: unat_sub_if')
    then show ?thesis using assms by simp
  qed
  show "c \<le> unat (a - p) \<Longrightarrow> unat (a - (p + word_of_nat c)) = unat (a - p) - c"
    unfolding e using ge by (simp add: d_def)
  show "(unat (a - (p + word_of_nat c)) < n - c) = (c \<le> unat (a - p) \<and> unat (a - p) < n)"
    unfolding e d_def [symmetric] using ge lt by (cases "c \<le> unat d") auto
qed

context aligned_memory
begin

lemma loop_write:
  assumes "plain_pte pte" and "left \<le> 64" and "unat ipa mod 2 ^ 14 + left \<le> 2 ^ 14"
    and "unat paddr + left \<le> 2 ^ 50" and "4 \<le> unat paddr" and "paddr AND mask 2 = vaddr AND mask 2"
    and "\<forall>i < left. quiet elr (paddr + word_of_nat i)" and "off + left \<le> List.length val"
  shows "\<exists>s'. emulate_rw_loop acc True True elr par left off ipa vaddr paddr pte val ctx s = Some (True, ctx, val, s') \<and>
      mem s' = (\<lambda>a. if unat (a - paddr) < left then val ! (off + unat (a - paddr)) else mem s a)"
  using assms
proof (induction left arbitrary: off ipa vaddr paddr pte s rule: less_induct)
  case (less left)
  show ?case
  proof (cases "left = 0")
    case True
    then show ?thesis by (simp add: loop_done)
  next
    case False
    define w where "w = rw_width left ipa"
    define c where "c = (2 :: nat) ^ w"
    have c: "c \<le> left" "0 < c" using False rw_width_le [of left ipa] by (simp_all add: c_def w_def)
    define pte' where "pte' = (paddr AND PTE_TARGET_MASK_L4) OR (pte AND NOT PTE_TARGET_MASK_L4)"
    have "unat paddr < 2 ^ 50" using less.prems(4) False by simp
    note p = pte_step [OF less.prems(1) this less.prems(5,6), folded pte'_def]
    have w6: "w \<le> 6" using rw_width_small(2) by (simp add: w_def)
    have pg: "unat ipa mod 2 ^ 14 + 2 ^ w \<le> 2 ^ 14" using c less.prems(3) by (simp add: c_def)
    have q: "quiet elr (pte_pa pte' vaddr)" using less.prems(7) [rule_format, of 0] False p(2) by simp
    define b where "b = take c (drop off val)"
    have bl: "List.length b = 2 ^ w" using c less.prems(8) by (simp add: b_def c_def)
    obtain aval' s1 where a: "acc ctx pte' vaddr ipa (words_of b) True w elr par s = Some (True, ctx, aval', s1)"
      "mem s1 = (\<lambda>a. if unat (a - paddr) < c then b ! unat (a - paddr) else mem s a)"
      using acc_write [OF p(1) w6 pg q bl, of ctx par s] unfolding p(2) c_def by blast
    have step: "emulate_rw_loop acc True True elr par left off ipa vaddr paddr pte val ctx s =
        emulate_rw_loop acc True True elr par (left - c) (off + c) (ipa + word_of_nat c) (vaddr + word_of_nat c)
          (paddr + word_of_nat c) pte' val ctx s1"
      using False a(1)
      by (subst emulate_rw_loop.simps) (simp add: Let_def w_def [symmetric] c_def [symmetric] pte'_def [symmetric] b_def [symmetric])
    have bn: "b ! k = val ! (off + k)" if "k < c" for k using that less.prems(8) c by (simp add: b_def)
    have fin: "mem s1 a = (if unat (a - paddr) < c then val ! (off + unat (a - paddr)) else mem s a)" for a
      by (simp add: a(2) bn)
    show ?thesis
    proof (cases "c = left")
      case True
      then have "emulate_rw_loop acc True True elr par left off ipa vaddr paddr pte val ctx s = Some (True, ctx, val, s1)"
        using step by (simp add: loop_done)
      then show ?thesis using fin True by auto
    next
      case lt: False
      have uc: "unat (paddr + word_of_nat c) = unat paddr + c"
        using c less.prems(4) by (subst unat_add_small) (simp_all add: unat_of_nat_small)
      have "\<exists>s'. emulate_rw_loop acc True True elr par (left - c) (off + c) (ipa + word_of_nat c) (vaddr + word_of_nat c)
          (paddr + word_of_nat c) pte' val ctx s1 = Some (True, ctx, val, s') \<and>
        mem s' = (\<lambda>a. if unat (a - (paddr + word_of_nat c)) < left - c
           then val ! (off + c + unat (a - (paddr + word_of_nat c))) else mem s1 a)"
      proof (rule less.IH)
        show "left - c < left" using c by simp
        show "plain_pte pte'" by (rule p)
        show "left - c \<le> 64" using less.prems(2) by simp
        show "unat (ipa + word_of_nat c) mod 2 ^ 14 + (left - c) \<le> 2 ^ 14"
          using page_step [OF less.prems(3)] c lt by simp
        show "unat (paddr + word_of_nat c) + (left - c) \<le> 2 ^ 50" using uc c less.prems(4) by simp
        show "4 \<le> unat (paddr + word_of_nat c)" using uc less.prems(5) by simp
        show "(paddr + word_of_nat c) AND mask 2 = (vaddr + word_of_nat c) AND mask 2" by (rule low2_step [OF less.prems(6)])
        show "\<forall>i < left - c. quiet elr (paddr + word_of_nat c + word_of_nat i)"
          using less.prems(7) c by (auto simp: add.assoc word_of_nat_add simp flip: of_nat_add)
        show "off + c + (left - c) \<le> List.length val" using c less.prems(8) by simp
      qed
      then obtain s' where s': "emulate_rw_loop acc True True elr par left off ipa vaddr paddr pte val ctx s = Some (True, ctx, val, s')"
        "mem s' = (\<lambda>a. if unat (a - (paddr + word_of_nat c)) < left - c
           then val ! (off + c + unat (a - (paddr + word_of_nat c))) else mem s1 a)" using step by auto
      have "mem s' a = (if unat (a - paddr) < left then val ! (off + unat (a - paddr)) else mem s a)" for a
        using fin [of a] offset_split [of c left a paddr] c less.prems(2) by (auto simp: s'(2))
      then show ?thesis using s'(1) by auto
    qed
  qed
qed

end

section \<open>Accesses to plain memory\<close>

text \<open>A bus with nothing but memory behind it, which never faults.\<close>

definition ram_bus :: "(u64 \<Rightarrow> u8) pa_bus" where
  "ram_bus =
     \<lparr>bus_store = (\<lambda>bits addr v m. (False, \<lambda>a. if unat (a - addr) < bits div 8
                     then ucast (drop_bit (8 * unat (a - addr)) v) else m a)),
      bus_load = (\<lambda>bits addr m. (False, le_word (map (\<lambda>i. m (addr + word_of_nat i)) [0..<bits div 8]), m)),
      bus_esr = (\<lambda>_. 0), bus_far = (\<lambda>_. 0)\<rparr>"

lemma bytes_of_nth:
  "k < 8 * List.length ws \<Longrightarrow> bytes_of ws ! k = ucast (drop_bit (8 * (k mod 8)) (ws ! (k div 8)))"
proof (induction ws arbitrary: k)
  case Nil
  then show ?case by simp
next
  case (Cons w ws)
  have e: "bytes_of (w # ws) = le_bytes 8 w @ bytes_of ws" by (simp add: bytes_of_def)
  show ?case
  proof (cases "k < 8")
    case True
    then show ?thesis by (simp add: e nth_append)
  next
    case False
    then have "k div 8 = Suc ((k - 8) div 8)" "k mod 8 = (k - 8) mod 8" by (simp_all add: le_div_geq le_mod_geq)
    then show ?thesis using False Cons by (simp add: e nth_append)
  qed
qed

lemma le_word_byte: "j < List.length bs \<Longrightarrow> List.length bs \<le> 8 \<Longrightarrow> ucast (drop_bit (8 * j) (le_word bs :: u64)) = (bs ! j :: u8)"
  using le_bytes_roundtrip [of bs, where 'a = 64] le_bytes_nth [of j "List.length bs" "le_word bs :: u64"] by simp

lemma le_word_small: "take_bit (8 * List.length bs) (le_word bs :: u64) = le_word bs"
  by (rule bit_word_eqI) (auto simp: bit_take_bit_iff bit_le_word)

lemma ram_load_small:
  assumes "w \<le> 3"
  shows "guarded_load ram_bus (8 * 2 ^ w) addr s =
    (le_word (map (\<lambda>i. pa_hw s (addr + word_of_nat i)) [0..<2 ^ w]), s)"
proof -
  define bs where "bs = map (\<lambda>i. pa_hw s (addr + word_of_nat i)) [0..<2 ^ w]"
  have "8 * 2 ^ w = 8 * List.length bs" by (simp add: bs_def)
  then show ?thesis using le_word_small [of bs] by (simp add: guarded_load_def ram_bus_def bs_def)
qed

lemma ram_store_small:
  assumes "w \<le> 3"
  shows "guarded_store ram_bus (8 * 2 ^ w) addr v s =
    s\<lparr>pa_hw := (\<lambda>a. if unat (a - addr) < 2 ^ w then ucast (drop_bit (8 * unat (a - addr)) v) else pa_hw s a)\<rparr>"
proof -
  have "(ucast (drop_bit (8 * k) (take_bit (8 * 2 ^ w) v)) :: u8) = ucast (drop_bit (8 * k) v)" if "k < 2 ^ w" for k
  proof (rule bit_word_eqI)
    fix n assume "n < LENGTH(8)"
    then have "8 * k + n < 8 * 2 ^ w" using that by simp
    then show "bit (ucast (drop_bit (8 * k) (take_bit (8 * 2 ^ w) v)) :: u8) n = bit (ucast (drop_bit (8 * k) v) :: u8) n"
      by (simp add: bit_simps)
  qed
  then show ?thesis by (simp add: guarded_store_def ram_bus_def fun_eq_iff cong: if_cong)
qed

lemma ram_load_words:
  assumes "i + n \<le> List.length val"
  shows "\<exists>val'. load_words ram_bus n addr val i s = (val', s) \<and> List.length val' = List.length val \<and>
     (\<forall>j < List.length val. val' ! j = (if i \<le> j \<and> j < i + n
        then le_word (map (\<lambda>k. pa_hw s (addr + 8 * word_of_nat j + word_of_nat k)) [0..<8]) else val ! j))"
  using assms
proof (induction n arbitrary: val i)
  case 0
  then show ?case by auto
next
  case (Suc n)
  define v where "v = (le_word (map (\<lambda>k. pa_hw s (addr + 8 * word_of_nat i + word_of_nat k)) [0..<8]) :: u64)"
  have g: "guarded_load ram_bus 64 (addr + 8 * word_of_nat i) s = (v, s)"
    using ram_load_small [of 3 "addr + 8 * word_of_nat i" s] by (simp add: v_def)
  obtain val' where v': "load_words ram_bus n addr (val[i := v]) (Suc i) s = (val', s)"
    "List.length val' = List.length val"
    "\<forall>j < List.length val. val' ! j = (if Suc i \<le> j \<and> j < Suc i + n
        then le_word (map (\<lambda>k. pa_hw s (addr + 8 * word_of_nat j + word_of_nat k)) [0..<8]) else val[i := v] ! j)"
    using Suc.IH [of "Suc i" "val[i := v]"] Suc.prems by auto
  have "val' ! j = (if i \<le> j \<and> j < i + Suc n
        then le_word (map (\<lambda>k. pa_hw s (addr + 8 * word_of_nat j + word_of_nat k)) [0..<8]) else val ! j)"
    if "j < List.length val" for j
    using v'(3) [rule_format, OF that] that by (cases "j = i") (auto simp: v_def)
  then show ?case using v' g by auto
qed

lemma ram_store_words:
  assumes "8 * (i + n) \<le> 64"
  shows "store_words ram_bus n addr val i s =
    s\<lparr>pa_hw := (\<lambda>a. let d = unat (a - addr) in if 8 * i \<le> d \<and> d < 8 * (i + n)
       then ucast (drop_bit (8 * (d mod 8)) (val ! (d div 8))) else pa_hw s a)\<rparr>"
  using assms
proof (induction n arbitrary: i s)
  case 0
  have "(\<lambda>a. let d = unat (a - addr) in if 8 * i \<le> d \<and> d < 8 * (i + 0)
       then ucast (drop_bit (8 * (d mod 8)) (val ! (d div 8))) else pa_hw s a) = pa_hw s" by (auto simp: Let_def fun_eq_iff)
  then show ?case by simp
next
  case (Suc n)
  define s1 where "s1 = guarded_store ram_bus 64 (addr + 8 * word_of_nat i) (val ! i) s"
  have e: "addr + 8 * word_of_nat i = addr + word_of_nat (8 * i)" by simp
  have s1: "s1 = s\<lparr>pa_hw := (\<lambda>a. let d = unat (a - addr) in if 8 * i \<le> d \<and> d < 8 * i + 8
       then ucast (drop_bit (8 * (d mod 8)) (val ! (d div 8))) else pa_hw s a)\<rparr>"
  proof -
    have "(if unat (a - (addr + word_of_nat (8 * i))) < 8
           then ucast (drop_bit (8 * unat (a - (addr + word_of_nat (8 * i)))) (val ! i)) else pa_hw s a) =
        (let d = unat (a - addr) in if 8 * i \<le> d \<and> d < 8 * i + 8
           then ucast (drop_bit (8 * (d mod 8)) (val ! (d div 8))) else pa_hw s a)" for a
    proof -
      define d where "d = unat (a - addr)"
      have o: "(unat (a - (addr + word_of_nat (8 * i))) < 8) = (8 * i \<le> d \<and> d < 8 * i + 8)"
        using offset_split(1) [of "8 * i" "8 * i + 8" a addr] Suc.prems by (simp add: d_def)
      show ?thesis
      proof (cases "8 * i \<le> d \<and> d < 8 * i + 8")
        case True
        then have "d div 8 = i" "d mod 8 = d - 8 * i" by (auto intro: div_nat_eqI simp: mod_nat_eqI)
        moreover have "unat (a - (addr + word_of_nat (8 * i))) = d - 8 * i"
          using offset_split(2) [of "8 * i" "8 * i + 8" a addr] Suc.prems True by (simp add: d_def)
        ultimately show ?thesis using o True by (simp add: d_def [symmetric])
      next
        case False
        then show ?thesis using o by (auto simp: d_def [symmetric])
      qed
    qed
    note f = ext [OF this]
    have "s1 = s\<lparr>pa_hw := (\<lambda>a. if unat (a - (addr + word_of_nat (8 * i))) < 8
           then ucast (drop_bit (8 * unat (a - (addr + word_of_nat (8 * i)))) (val ! i)) else pa_hw s a)\<rparr>"
      using ram_store_small [of 3 "addr + word_of_nat (8 * i)" "val ! i" s] by (simp add: s1_def)
    then show ?thesis unfolding f .
  qed
  have "store_words ram_bus (Suc n) addr val i s = store_words ram_bus n addr val (Suc i) s1" by (simp add: s1_def)
  also have "\<dots> = s1\<lparr>pa_hw := (\<lambda>a. let d = unat (a - addr) in if 8 * Suc i \<le> d \<and> d < 8 * (Suc i + n)
       then ucast (drop_bit (8 * (d mod 8)) (val ! (d div 8))) else pa_hw s1 a)\<rparr>"
    using Suc.prems by (intro Suc.IH) simp
  also have "\<dots> = s\<lparr>pa_hw := (\<lambda>a. let d = unat (a - addr) in if 8 * i \<le> d \<and> d < 8 * (i + Suc n)
       then ucast (drop_bit (8 * (d mod 8)) (val ! (d div 8))) else pa_hw s a)\<rparr>"
    by (auto simp: s1 Let_def fun_eq_iff intro!: arg_cong [of _ _ "\<lambda>m. s\<lparr>pa_hw := m\<rparr>"])
  finally show ?case .
qed

lemma ram_guard: "exc_count s = 0 \<Longrightarrow> guard_exit ram_bus ctx s = (True, ctx, s\<lparr>exc_guard := False\<rparr>)"
  by (simp add: guard_exit_def)

lemma width_cases: "(w :: nat) \<le> 6 \<Longrightarrow> w \<le> 3 \<or> w = 4 \<or> w = 5 \<or> w = 6"
  by auto

lemma pa_read_ram:
  assumes "w \<le> 5" and "List.length val = 8"
  shows "\<exists>val' s'. hv_pa_read ram_bus ctx addr val w s = (True, ctx, val', s') \<and> List.length val' = 8 \<and> pa_hw s' = pa_hw s \<and>
     take (2 ^ w) (bytes_of val') = map (\<lambda>i. pa_hw s (addr + word_of_nat i)) [0..<2 ^ w]"
proof (cases "w \<le> 3")
  case True
  then have "w = 0 \<or> w = 1 \<or> w = 2 \<or> w = 3" by auto
  then have p8: "(2 :: nat) ^ w \<le> 8" by auto
  define bs where "bs = map (\<lambda>i. pa_hw s (addr + word_of_nat i)) [0..<2 ^ w]"
  define val' where "val' = val[0 := le_word bs]"
  have "take (2 ^ w) (bytes_of val') = bs"
  proof (rule nth_equalityI)
    show "List.length (take (2 ^ w) (bytes_of val')) = List.length bs" using p8 assms(2) by (simp add: val'_def bs_def)
    fix k assume "k < List.length (take (2 ^ w) (bytes_of val'))"
    then have k: "k < 2 ^ w" "k < 8" using p8 by simp_all
    then show "take (2 ^ w) (bytes_of val') ! k = bs ! k"
      using le_word_byte [of k bs] assms(2) p8 bytes_of_nth [of k val'] by (simp add: val'_def bs_def)
  qed
  then show ?thesis
    using True assms(2) ram_guard [of "s\<lparr>exc_count := 0, exc_guard := True\<rparr>" ctx]
    by (simp add: hv_pa_read_def ram_load_small val'_def bs_def)
next
  case False
  then have w: "w = 4 \<or> w = 5" using assms(1) by auto
  define n where "n = (2 :: nat) ^ (w - 3)"
  have n: "n \<le> 4" "8 * n = 2 ^ w" using w by (auto simp: n_def)
  define s0 where "s0 = s\<lparr>exc_count := 0, exc_guard := True\<rparr>"
  obtain val' where v: "load_words ram_bus n addr val 0 s0 = (val', s0)" "List.length val' = 8"
    "\<forall>j < 8. val' ! j = (if j < n then le_word (map (\<lambda>k. pa_hw s (addr + 8 * word_of_nat j + word_of_nat k)) [0..<8]) else val ! j)"
    using ram_load_words [of 0 n val addr s0] n assms(2) by (auto simp: s0_def)
  have "take (2 ^ w) (bytes_of val') = map (\<lambda>i. pa_hw s (addr + word_of_nat i)) [0..<2 ^ w]"
  proof (rule nth_equalityI)
    show "List.length (take (2 ^ w) (bytes_of val')) = List.length (map (\<lambda>i. pa_hw s (addr + word_of_nat i)) [0..<2 ^ w])"
      using n v(2) by simp
    fix k assume "k < List.length (take (2 ^ w) (bytes_of val'))"
    then have k: "k < 8 * n" using n by simp
    then have j: "k div 8 < n" "k div 8 < 8" using n by (simp_all add: less_mult_imp_div_less mult.commute)
    have "bytes_of val' ! k = pa_hw s (addr + 8 * word_of_nat (k div 8) + word_of_nat (k mod 8))"
      using k n v(2) v(3) [rule_format, OF j(2)] j(1)
        le_word_byte [of "k mod 8" "map (\<lambda>i. pa_hw s (addr + 8 * word_of_nat (k div 8) + word_of_nat i)) [0..<8]"]
      by (simp add: bytes_of_nth)
    moreover have "(8 * word_of_nat (k div 8) + word_of_nat (k mod 8) :: u64) = word_of_nat k"
      using arg_cong [OF mult_div_mod_eq [of 8 k], of "word_of_nat :: nat \<Rightarrow> u64"]
      by (simp only: of_nat_add of_nat_mult of_nat_numeral)
    ultimately show "take (2 ^ w) (bytes_of val') ! k = map (\<lambda>i. pa_hw s (addr + word_of_nat i)) [0..<2 ^ w] ! k"
      using k n by (simp add: add.assoc)
  qed
  moreover have "hv_pa_read ram_bus ctx addr val w s = (True, ctx, val', s0\<lparr>exc_guard := False\<rparr>)"
    using w v(1) ram_guard [of s0 ctx] by (auto simp: hv_pa_read_def s0_def n_def)
  ultimately show ?thesis using v(2) by (simp add: s0_def)
qed

lemma words_bytes:
  assumes "k < List.length b" and "List.length b \<le> 64"
  shows "ucast (drop_bit (8 * (k mod 8)) (words_of b ! (k div 8))) = b ! k"
proof -
  have j: "k div 8 < 8" using assms by (simp add: less_mult_imp_div_less)
  define c where "c = take 8 (drop (8 * (k div 8)) b)"
  have m: "k mod 8 < List.length c" "c ! (k mod 8) = b ! k"
    using assms by (auto simp: c_def min_def) (metis add.commute mult.commute div_mult_mod_eq less_diff_conv)
  show ?thesis using le_word_byte [OF m(1)] m(2) j by (simp add: words_of_def c_def)
qed

lemma pa_write_ram:
  assumes "w \<le> 6" and "List.length b = 2 ^ w"
  shows "\<exists>s'. hv_pa_write ram_bus ctx addr (words_of b) w s = (True, ctx, s') \<and>
     pa_hw s' = (\<lambda>a. if unat (a - addr) < 2 ^ w then b ! unat (a - addr) else pa_hw s a)"
proof -
  have "w = 0 \<or> w = 1 \<or> w = 2 \<or> w = 3 \<or> w = 4 \<or> w = 5 \<or> w = 6" using assms(1) by auto
  then have l64: "List.length b \<le> 64" unfolding assms(2) by auto
  define s0 where "s0 = s\<lparr>exc_count := 0, exc_guard := True\<rparr>"
  have h0: "pa_hw s0 = pa_hw s" by (simp add: s0_def)
  have eq: "(if d < 2 ^ w then ucast (drop_bit (8 * (d mod 8)) (words_of b ! (d div 8))) else x) = (if d < 2 ^ w then b ! d else x)" for d x
    using words_bytes [of d b] l64 assms(2) by simp
  show ?thesis
  proof (cases "w \<le> 3")
    case True
    then have "w = 0 \<or> w = 1 \<or> w = 2 \<or> w = 3" by auto
    then have p8: "(2 :: nat) ^ w \<le> 8" by auto
    have "(if d < 2 ^ w then ucast (drop_bit (8 * d) (words_of b ! 0)) else x) = (if d < 2 ^ w then b ! d else x)" for d x
      using eq [of d x] p8 by (cases "d < 2 ^ w") auto
    then show ?thesis
      using True by (simp add: hv_pa_write_def ram_store_small guard_exit_def fun_eq_iff)
  next
    case False
    then have w: "w = 4 \<or> w = 5 \<or> w = 6" using assms(1) by auto
    define n where "n = (2 :: nat) ^ (w - 3)"
    have n: "n \<le> 8" "8 * n = 2 ^ w" using w by (auto simp: n_def)
    have "hv_pa_write ram_bus ctx addr (words_of b) w s = guard_exit ram_bus ctx (store_words ram_bus n addr (words_of b) 0 s0)"
      using w by (auto simp: hv_pa_write_def s0_def n_def)
    moreover have "store_words ram_bus n addr (words_of b) 0 s0 =
        s0\<lparr>pa_hw := (\<lambda>a. if unat (a - addr) < 2 ^ w then b ! unat (a - addr) else pa_hw s a)\<rparr>"
      using ram_store_words [of 0 n addr "words_of b" s0] n eq unfolding h0 [symmetric] by (simp add: Let_def)
    ultimately show ?thesis by (simp add: guard_exit_def s0_def)
  qed
qed

text \<open>Physical addresses outside the instrumented windows.\<close>

definition quiet_pa :: "u64 \<Rightarrow> u64 \<Rightarrow> bool" where
  "quiet_pa elr pa \<longleftrightarrow> \<not> (0x502280000 \<le> pa \<and> pa < 0x502290000) \<and> \<not> (0x6c0000000 \<le> pa \<and> pa < 0x6c0100000)"

lemma plain_software:
  assumes "plain_pte pte"
  defines "p \<equiv> if IS_HW pte then pte AND PTE_TARGET_MASK_L4 else pte"
  shows "pte \<noteq> 0" and "spte_type p = SPTE_MAP" and "\<not> bit p 62" and "\<not> bit p 63"
proof -
  show "pte \<noteq> 0" using assms(1) by (auto simp: plain_pte_def)
  have hw: "\<not> bit (pte AND PTE_TARGET_MASK_L4) n" if "50 \<le> n" for n using that by (simp add: bit_and_iff pte_masks_bit)
  have "spte_type (pte AND PTE_TARGET_MASK_L4) = 0"
    unfolding spte_type_eq by (rule bit_word_eqI) (simp add: bit_take_bit_iff bit_drop_bit_eq bit_and_iff pte_masks_bit)
  then show "spte_type p = SPTE_MAP" using assms(1) by (auto simp: p_def plain_pte_def SPTE_MAP_def)
  have "\<not> bit pte 62 \<and> \<not> bit pte 63" if z: "drop_bit 61 pte = 0"
  proof -
    have "bit (drop_bit 61 pte) k = bit pte (61 + k)" for k by (simp add: bit_drop_bit_eq)
    from this [of 1] this [of 2] show ?thesis using z by simp
  qed
  then show "\<not> bit p 62" "\<not> bit p 63" using assms(1) hw [of 62] hw [of 63] by (auto simp: p_def plain_pte_def)
qed

lemma page_nat: "unat ((ipa :: u64) AND 0x3fff) = unat ipa mod 2 ^ 14"
proof -
  have "(0x3fff :: u64) = mask 14" by (simp add: mask_eq_exp_minus_1)
  then show ?thesis by (simp only: unat_and_mask)
qed

interpretation ram: aligned_memory "hv_emulate_rw_aligned (ops\<lparr>mm_bus := ram_bus\<rparr>)" pa_hw quiet_pa
  for ops :: "(u64 \<Rightarrow> u8, (u64 \<Rightarrow> u8, 'z) pa_state_scheme) mmio_ops"
proof unfold_locales
  fix pte ipa elr vaddr par :: u64 and w and aval :: "u64 list" and ctx :: exc_info and s :: "(u64 \<Rightarrow> u8, 'z) pa_state_scheme"
  assume a: "plain_pte pte" "w \<le> 5" "unat ipa mod 2 ^ 14 + 2 ^ w \<le> 2 ^ 14" "quiet_pa elr (pte_pa pte vaddr)"
    "List.length aval = 8"
  have "\<not> usb_window False elr (pte_pa pte vaddr) w" using a(4) by (auto simp: quiet_pa_def usb_window_def)
  moreover obtain val' s' where "hv_pa_read ram_bus ctx (pte_pa pte vaddr) aval w s = (True, ctx, val', s')"
    "List.length val' = 8" "pa_hw s' = pa_hw s"
    "take (2 ^ w) (bytes_of val') = map (\<lambda>i. pa_hw s (pte_pa pte vaddr + word_of_nat i)) [0..<2 ^ w]"
    using pa_read_ram [OF a(2,5), of ctx "pte_pa pte vaddr" s] by blast
  ultimately show "\<exists>aval' s'. hv_emulate_rw_aligned (ops\<lparr>mm_bus := ram_bus\<rparr>) ctx pte vaddr ipa aval False w elr par s =
      Some (True, ctx, aval', s') \<and> List.length aval' = 8 \<and> pa_hw s' = pa_hw s \<and>
      take (2 ^ w) (bytes_of aval') = map (\<lambda>i. pa_hw s (pte_pa pte vaddr + word_of_nat i)) [0..<2 ^ w]"
    using plain_software [OF a(1)] a(3)
    by (simp add: hv_emulate_rw_aligned_def page_nat emulate_read_aligned_def pte_pa_def SPTE_MAP_def SPTE_PROXY_HOOK_W_def Let_def)
next
  fix pte ipa elr vaddr par :: u64 and w and b :: bytes and ctx :: exc_info and s :: "(u64 \<Rightarrow> u8, 'z) pa_state_scheme"
  assume a: "plain_pte pte" "w \<le> 6" "unat ipa mod 2 ^ 14 + 2 ^ w \<le> 2 ^ 14" "quiet_pa elr (pte_pa pte vaddr)"
    "List.length b = 2 ^ w"
  have "\<not> usb_window True elr (pte_pa pte vaddr) w" using a(4) by (auto simp: quiet_pa_def usb_window_def)
  moreover obtain s' where "hv_pa_write ram_bus ctx (pte_pa pte vaddr) (words_of b) w s = (True, ctx, s')"
    "pa_hw s' = (\<lambda>a. if unat (a - pte_pa pte vaddr) < 2 ^ w then b ! unat (a - pte_pa pte vaddr) else pa_hw s a)"
    using pa_write_ram [OF a(2,5), of ctx "pte_pa pte vaddr" s] by blast
  ultimately show "\<exists>aval' s'. hv_emulate_rw_aligned (ops\<lparr>mm_bus := ram_bus\<rparr>) ctx pte vaddr ipa (words_of b) True w elr par s =
      Some (True, ctx, aval', s') \<and>
      pa_hw s' = (\<lambda>a. if unat (a - pte_pa pte vaddr) < 2 ^ w then b ! unat (a - pte_pa pte vaddr) else pa_hw s a)"
    using plain_software [OF a(1)] a(3)
    by (simp add: hv_emulate_rw_aligned_def page_nat emulate_write_aligned_def pte_pa_def SPTE_MAP_def SPTE_PROXY_HOOK_R_def Let_def)
qed

lemma pte_pa_facts:
  assumes "plain_pte pte"
  shows "4 \<le> unat (pte_pa pte vaddr)" and "pte_pa pte vaddr AND mask 2 = vaddr AND mask 2"
    and "IS_HW pte \<or> (IS_SW pte \<and> spte_type pte = SPTE_MAP)"
proof -
  define t where "t = pte AND PTE_TARGET_MASK_L4"
  have t: "t \<noteq> 0" "4 dvd unat t" using assms by (auto simp: plain_pte_def t_def unat_target_l4)
  have "pte_pa pte vaddr = t + (vaddr AND mask 2)" unfolding pte_pa_def t_def
    by (rule disjunctive_add [symmetric]) (auto simp: bit_simps pte_masks_bit)
  moreover have lo: "unat (vaddr AND mask 2) < 4" by (simp add: unat_and_mask)
  moreover have "unat t + unat (vaddr AND mask 2) < 2 ^ 64"
  proof -
    have "unat t < 2 ^ 50" unfolding t_def unat_target_l4
      by (rule le_less_trans [OF div_times_less_eq_dividend]) simp
    then show ?thesis using lo by simp
  qed
  ultimately have "unat (pte_pa pte vaddr) = unat t + unat (vaddr AND mask 2)" by (simp add: unat_add_small)
  moreover have "4 \<le> unat t" using t by (intro dvd_imp_le) (simp_all add: unat_gt_0)
  ultimately show "4 \<le> unat (pte_pa pte vaddr)" by simp
  show "pte_pa pte vaddr AND mask 2 = vaddr AND mask 2"
    by (rule bit_word_eqI) (auto simp: pte_pa_def bit_simps pte_masks_bit)
  show "IS_HW pte \<or> (IS_SW pte \<and> spte_type pte = SPTE_MAP)"
    using assms by (auto simp: plain_pte_def hw_bit)
qed

text \<open>A transfer of \<open>n\<close> bytes that stays in one page and reaches plain memory only.\<close>

definition memory_span :: "u64 \<Rightarrow> u64 \<Rightarrow> u64 \<Rightarrow> u64 \<Rightarrow> nat \<Rightarrow> bool" where
  "memory_span elr pte vaddr ipa n \<longleftrightarrow>
     plain_pte pte \<and> n < 64 \<and> unat ipa mod 2 ^ 14 + n \<le> 2 ^ 14 \<and> unat (pte_pa pte vaddr) + n \<le> 2 ^ 50 \<and>
     (\<forall>i < n. quiet_pa elr (pte_pa pte vaddr + word_of_nat i))"

context aligned_memory
begin

lemma split_read:
  assumes "plain_pte pte" and "n < 64" and "unat ipa mod 2 ^ 14 + n \<le> 2 ^ 14"
    and "unat (pte_pa pte vaddr) + n \<le> 2 ^ 50" and "\<forall>i < n. quiet elr (pte_pa pte vaddr + word_of_nat i)"
    and "n \<le> List.length val"
  shows "\<exists>s'. hv_emulate_rw acc ctx pte vaddr ipa val False n elr par s =
      Some (True, ctx, map (\<lambda>i. mem s (pte_pa pte vaddr + word_of_nat i)) [0..<n] @ drop n val, s') \<and> mem s' = mem s"
proof -
  note f = pte_pa_facts(1,2) [OF assms(1), of vaddr] pte_pa_facts(3) [OF assms(1)]
  have adv: "(IS_HW pte \<or> IS_SW pte \<and> spte_type pte = SPTE_MAP) = True" using f(3) by simp
  obtain s' where "emulate_rw_loop acc True False elr par n 0 ipa vaddr (pte_pa pte vaddr) pte val ctx s =
      Some (True, ctx, memcpy_at 0 (map (\<lambda>i. mem s (pte_pa pte vaddr + word_of_nat i)) [0..<n]) val, s')" "mem s' = mem s"
    using loop_read [OF assms(1,2,3,4) f(1,2) assms(5), of 0 val par ctx s] assms(6) by auto
  then show ?thesis unfolding hv_emulate_rw_def adv pte_pa_def [symmetric] by (simp add: memcpy_at_def)
qed

lemma split_write:
  assumes "plain_pte pte" and "n \<le> 64" and "unat ipa mod 2 ^ 14 + n \<le> 2 ^ 14"
    and "unat (pte_pa pte vaddr) + n \<le> 2 ^ 50" and "\<forall>i < n. quiet elr (pte_pa pte vaddr + word_of_nat i)"
    and "n \<le> List.length val"
  shows "\<exists>s'. hv_emulate_rw acc ctx pte vaddr ipa val True n elr par s = Some (True, ctx, val, s') \<and>
      mem s' = (\<lambda>a. if unat (a - pte_pa pte vaddr) < n then val ! unat (a - pte_pa pte vaddr) else mem s a)"
proof -
  note f = pte_pa_facts(1,2) [OF assms(1), of vaddr] pte_pa_facts(3) [OF assms(1)]
  have adv: "(IS_HW pte \<or> IS_SW pte \<and> spte_type pte = SPTE_MAP) = True" using f(3) by simp
  show ?thesis
    using loop_write [OF assms(1,2,3,4) f(1,2) assms(5), of 0 val par ctx s] assms(6)
    unfolding hv_emulate_rw_def adv pte_pa_def [symmetric] add_0 by blast
qed

end

text \<open>
  C13. Splitting is invisible on memory.  Whatever the alignment of the access, \<^verbatim>\<open>hv_emulate_rw\<close>
  through its aligned accesses reads exactly the bytes at the forwarded physical address, leaving
  the memory alone, and writes exactly the bytes of the buffer there and no other byte.
\<close>

theorem rw_split_is_memcpy:
  fixes ops :: "(u64 \<Rightarrow> u8, (u64 \<Rightarrow> u8, 'z) pa_state_scheme) mmio_ops"
  shows "memory_span elr pte vaddr ipa n \<and> List.length val = HV_MAX_RW_SIZE \<Longrightarrow>
   (\<exists>s'. hv_emulate_rw (hv_emulate_rw_aligned (ops\<lparr>mm_bus := ram_bus\<rparr>)) ctx pte vaddr ipa val False n elr par s =
      Some (True, ctx, map (\<lambda>i. pa_hw s (pte_pa pte vaddr + word_of_nat i)) [0..<n] @ drop n val, s') \<and> pa_hw s' = pa_hw s) \<and>
   (\<exists>s'. hv_emulate_rw (hv_emulate_rw_aligned (ops\<lparr>mm_bus := ram_bus\<rparr>)) ctx pte vaddr ipa val True n elr par s =
      Some (True, ctx, val, s') \<and>
      pa_hw s' = (\<lambda>a. if unat (a - pte_pa pte vaddr) < n then val ! unat (a - pte_pa pte vaddr) else pa_hw s a))"
proof -
  assume a: "memory_span elr pte vaddr ipa n \<and> List.length val = HV_MAX_RW_SIZE"
  then have m: "plain_pte pte" "n < 64" "n \<le> 64" "unat ipa mod 2 ^ 14 + n \<le> 2 ^ 14" "unat (pte_pa pte vaddr) + n \<le> 2 ^ 50"
    "\<forall>i < n. quiet_pa elr (pte_pa pte vaddr + word_of_nat i)" "n \<le> List.length val"
    by (auto simp: memory_span_def HV_MAX_RW_SIZE_def)
  show ?thesis
    using ram.split_read [OF m(1,2,4,5,6,7), of ops ctx par s] ram.split_write [OF m(1,3,4,5,6,7), of ops ctx par s] by blast
qed

definition ram_ops :: "(u64 \<Rightarrow> u8, (u64 \<Rightarrow> u8) pa_state) mmio_ops" where
  "ram_ops = \<lparr>mm_bus = ram_bus, mm_hook = (\<lambda>h c i v wr w s. (False, c, v, s)), mm_fastpath = (\<lambda>c i v wr w s. (False, c, v, s)),
     mm_proxy = (\<lambda>h c i v wr w p s. (c, v, s)), mm_trace = (\<lambda>e p b s. s),
     mm_usb_write = (\<lambda>c e p v w s. (False, c, v, s)), mm_usb_read = (\<lambda>c e p v w s. (False, c, v, s))\<rparr>"

definition ram_state :: "(u64 \<Rightarrow> u8) pa_state" where
  "ram_state = \<lparr>exc_guard = False, exc_count = 0, pa_hw = (\<lambda>a. if a = 0x900000013 then 0xab else 0)\<rparr>"

theorem rw_split_is_memcpy_witness:
  "\<exists>s'. hv_emulate_rw (hv_emulate_rw_aligned (ram_ops\<lparr>mm_bus := ram_bus\<rparr>)) demo_ctx 0x900000010 0x1011 0x2011
      (replicate 64 0) False 7 0x8000 0 ram_state =
    Some (True, demo_ctx, [0, 0, 0xab, 0, 0, 0, 0] @ replicate 57 0, s')"
proof -
  have pa: "pte_pa 0x900000010 0x1011 = 0x900000011"
    by (simp add: pte_pa_def PTE_TARGET_MASK_L4_def GENMASK_def mask_eq_exp_minus_1)
  have "plain_pte 0x900000010"
    by (simp add: plain_pte_def PTE_TARGET_MASK_L4_def GENMASK_def mask_eq_exp_minus_1 spte_type_def SPTE_MAP_def)
  moreover have "quiet_pa 0x8000 (0x900000011 + word_of_nat i)" if "i < 7" for i
  proof -
    have "i = 0 \<or> i = 1 \<or> i = 2 \<or> i = 3 \<or> i = 4 \<or> i = 5 \<or> i = 6" using that by auto
    then show ?thesis by (elim disjE) (simp_all add: quiet_pa_def)
  qed
  ultimately have m: "memory_span 0x8000 0x900000010 0x1011 0x2011 7" unfolding memory_span_def pa by simp
  have u: "[0..<7] = [0, 1, 2, 3, 4, 5, 6 :: nat]" by (simp add: upt_rec)
  have "replicate 57 (0 :: u8) = drop 7 (replicate 64 0)" by simp
  then show ?thesis
    using conjunct1 [OF rw_split_is_memcpy [of "0x8000" "0x900000010" "0x1011" "0x2011" 7 "replicate 64 0" ram_ops demo_ctx 0 ram_state]] m
    by (auto simp: HV_MAX_RW_SIZE_def pa ram_state_def u simp del: drop_replicate)
qed

end
