(* ===== verification/Data_Abort.thy ===== *)
theory Data_Abort
  imports Mmio_Memory
begin

text \<open>
  The data abort handler of the hypervisor, \<^verbatim>\<open>hv_handle_dabort\<close> of \<^verbatim>\<open>nvme-s208/hv_vm-s208.c\<close>,
  with the storm counter that parks a runaway processor and the ring that captures the guest's
  serial output.  The abort itself (its direction and address), the stage-1 translation and the
  instruction fetch are parameters.
\<close>

record 'h hv_state = "'h pa_state" +
  hv_tables :: hv_pt
  last_unmapped_elr :: "nat \<Rightarrow> u64"
  unmapped_streak :: "nat \<Rightarrow> u32"
  bmgfw_uart_ring :: "nat \<Rightarrow> u8"
  bmgfw_uart_idx :: u32
  exited_cpus :: "nat list"

record 'h abort_env =
  ab_write :: bool
  ab_far :: u64
  ab_translate :: "u64 \<Rightarrow> bool \<Rightarrow> bool \<Rightarrow> 'h \<Rightarrow> u64 \<times> u64"
  ab_fetch :: "u64 \<Rightarrow> 'h \<Rightarrow> u32"
  ab_cpu :: nat
  ab_boot_cpu :: int
  ab_pinned_cpu :: int
  ab_max_cpus :: nat

section \<open>Captured serial output\<close>

definition BMGFW_UART_SZ :: nat where "BMGFW_UART_SZ = 65536"

definition uart_snoop :: "u8 \<Rightarrow> 'h hv_state \<Rightarrow> 'h hv_state" where
  "uart_snoop c s =
     s\<lparr>bmgfw_uart_ring := (bmgfw_uart_ring s)(unat (bmgfw_uart_idx s AND 0xffff) := c),
       bmgfw_uart_idx := bmgfw_uart_idx s + 1\<rparr>"

definition uart_snoop_abort :: "bool \<Rightarrow> u64 \<Rightarrow> bytes \<Rightarrow> 'h hv_state \<Rightarrow> 'h hv_state" where
  "uart_snoop_abort is_write far val s =
     (if is_write \<and> far AND NOT 0xfff = 0x235200000 \<and> far AND 0xfff = 0x20 then uart_snoop (val ! 0) s else s)"

text \<open>The characters the dump walks over, and the lines it prints from them.\<close>

definition uart_chars :: "'h hv_state \<Rightarrow> bytes" where
  "uart_chars s =
     (let total = bmgfw_uart_idx s;
          n = (if unat total < BMGFW_UART_SZ then total else word_of_nat BMGFW_UART_SZ);
          start = total - n
      in map (\<lambda>k. bmgfw_uart_ring s (unat ((start + word_of_nat k) AND 0xffff))) [0..<unat n])"

fun dump_lines :: "bytes \<Rightarrow> bytes \<Rightarrow> bytes list" where
  "dump_lines [] line = (if line \<noteq> [] then [line] else [])"
| "dump_lines (c # cs) line =
     (if c = 13 then dump_lines cs line
      else if c = 10 \<or> List.length line \<ge> 159
      then line # (if c = 10 then dump_lines cs [] else dump_lines cs [c])
      else dump_lines cs (line @ [c]))"

definition hv_bmgfw_uart_dump :: "'h hv_state \<Rightarrow> bytes list" where
  "hv_bmgfw_uart_dump s = dump_lines (uart_chars s) []"

section \<open>Aborts on unmapped addresses\<close>

definition NWOAS_UNMAPPED_PARK_THRESHOLD :: u32 where "NWOAS_UNMAPPED_PARK_THRESHOLD = 16"

definition count_unmapped :: "'h abort_env \<Rightarrow> u64 \<Rightarrow> 'h hv_state \<Rightarrow> 'h hv_state" where
  "count_unmapped env elr s =
     (let cpu = ab_cpu env in
      if cpu < ab_max_cpus env \<and> elr = last_unmapped_elr s cpu
      then s\<lparr>unmapped_streak := (unmapped_streak s)(cpu := unmapped_streak s cpu + 1)\<rparr>
      else if cpu < ab_max_cpus env
      then s\<lparr>last_unmapped_elr := (last_unmapped_elr s)(cpu := elr), unmapped_streak := (unmapped_streak s)(cpu := 1)\<rparr>
      else s)"

definition unmapped_abort :: "'h abort_env \<Rightarrow> exc_info \<Rightarrow> 'h hv_state \<Rightarrow> bool \<times> exc_info \<times> 'h hv_state" where
  "unmapped_abort env ctx s =
     (let cpu = ab_cpu env; s1 = count_unmapped env (ctx_elr ctx) s in
      if cpu < ab_max_cpus env \<and> int cpu \<noteq> ab_boot_cpu env \<and> int cpu \<noteq> ab_pinned_cpu env \<and>
         unmapped_streak s1 cpu = NWOAS_UNMAPPED_PARK_THRESHOLD
      then (True, ctx, s1\<lparr>exited_cpus := exited_cpus s1 @ [cpu], unmapped_streak := (unmapped_streak s1)(cpu := 0)\<rparr>)
      else (False, ctx, s1))"

section \<open>Emulated accesses\<close>

definition page_of :: "u64 \<Rightarrow> u64" where "page_of a = a AND NOT (mask 14)"

text \<open>An access that straddles a page boundary is performed as two; \<open>off\<close> bytes lie in the lower page.\<close>

definition straddle_rw ::
  "('h, 'h hv_state) mmio_ops \<Rightarrow> 'h abort_env \<Rightarrow> exc_info \<Rightarrow> u64 \<Rightarrow> u64 \<Rightarrow> u64 \<Rightarrow> u64 \<Rightarrow> bytes \<Rightarrow> nat \<Rightarrow> 'h hv_state
     \<Rightarrow> (bool \<times> exc_info \<times> bytes \<times> 'h hv_state) option" where
  "straddle_rw ops env ctx ipa par pte vaddr val n s =
     (let is_write = ab_write env; far = ab_far env; elr = ctx_elr ctx; acc = hv_emulate_rw_aligned ops;
          vaddrp1 = page_of (vaddr + word_of_nat n - 1); off = unat (vaddrp1 - vaddr);
          vaddr2 = (if far = vaddr then vaddrp1 else vaddr) in
      if n \<le> 1 then None
      else if far \<noteq> vaddr \<and> far \<noteq> vaddrp1 then Some (False, ctx, val, s)
      else case ab_translate env vaddr2 True is_write (pa_hw s) of (ipa2, par2) \<Rightarrow>
        if ipa2 = 0 \<or> ipa2 \<ge> push_bit (vaddr_bits (hv_tables s)) 1 then Some (False, ctx, val, s)
        else case hv_pt_walk (hv_tables s) ipa2 of
          None \<Rightarrow> None
        | Some pte2 \<Rightarrow>
            if pte2 = 0 then Some (False, ctx, val, s)
            else case (if far = vaddr then hv_emulate_rw acc ctx pte vaddr ipa val is_write off elr par s
                       else hv_emulate_rw acc ctx pte2 vaddr2 ipa2 val is_write off elr par2 s) of
              None \<Rightarrow> None
            | Some (ok1, ctx1, val1, s1) \<Rightarrow>
                if \<not> ok1 then Some (False, ctx1, val1, s1)
                else case (if far = vaddr
                           then hv_emulate_rw acc ctx1 pte2 vaddr2 ipa2 (drop off val1) is_write (n - off) elr par2 s1
                           else hv_emulate_rw acc ctx1 pte vaddrp1 ipa (drop off val1) is_write (n - off) elr par s1) of
                  None \<Rightarrow> None
                | Some (ok2, ctx2, val2, s2) \<Rightarrow> Some (ok2, ctx2, take off val1 @ val2, s2))"

text \<open>Decoding the trapped instruction: verdict, context, buffer, width and address.\<close>

definition decode_abort ::
  "bool \<Rightarrow> exc_info \<Rightarrow> u32 \<Rightarrow> u64 \<Rightarrow> (bool \<times> exc_info \<times> bytes \<times> nat \<times> u64) option" where
  "decode_abort is_write ctx insn far =
     (if is_write
      then (case emulate_store ctx insn (replicate 8 0) far of (ok, ctx1, vals, width, vaddr) \<Rightarrow>
              Some (ok, ctx1, bytes_of vals, width, vaddr))
      else (case emulate_load ctx insn None far of
              None \<Rightarrow> None
            | Some (ok, ctx1, width, vaddr) \<Rightarrow> Some (ok, ctx1, replicate HV_MAX_RW_SIZE 0, width, vaddr)))"

definition emulate_abort ::
  "('h, 'h hv_state) mmio_ops \<Rightarrow> 'h abort_env \<Rightarrow> exc_info \<Rightarrow> u64 \<Rightarrow> u64 \<Rightarrow> u64 \<Rightarrow> 'h hv_state
     \<Rightarrow> (bool \<times> exc_info \<times> 'h hv_state) option" where
  "emulate_abort ops env ctx ipa par pte s =
     (let is_write = ab_write env; far = ab_far env; elr = ctx_elr ctx;
          elr_pa = fst (ab_translate env elr False False (pa_hw s)) in
      if elr_pa = 0 then Some (False, ctx, s)
      else let insn = ab_fetch env elr_pa (pa_hw s) in
        case decode_abort is_write ctx insn far of
          None \<Rightarrow> None
        | Some (ok, ctx1, val, width, vaddr) \<Rightarrow>
            if \<not> ok then Some (False, ctx1, s)
            else let s1 = uart_snoop_abort is_write far val s; n = 2 ^ width in
              case (if page_of vaddr = page_of (vaddr + word_of_nat n - 1)
                    then if far \<noteq> vaddr then Some (False, ctx1, val, s1)
                         else hv_emulate_rw (hv_emulate_rw_aligned ops) ctx1 pte vaddr ipa val is_write n elr par s1
                    else straddle_rw ops env ctx1 ipa par pte vaddr val n s1) of
                None \<Rightarrow> None
              | Some (ok, ctx2, val2, s2) \<Rightarrow>
                  if \<not> ok then Some (False, ctx2, s2)
                  else if is_write then Some (True, ctx2, s2)
                  else case emulate_load ctx2 insn (Some (words_of val2)) vaddr of
                         None \<Rightarrow> None
                       | Some (ok3, ctx3, _, _) \<Rightarrow> Some (ok3, ctx3, s2))"

definition hv_handle_dabort ::
  "('h, 'h hv_state) mmio_ops \<Rightarrow> 'h abort_env \<Rightarrow> exc_info \<Rightarrow> 'h hv_state \<Rightarrow> (bool \<times> exc_info \<times> 'h hv_state) option" where
  "hv_handle_dabort ops env ctx s =
     (case ab_translate env (ab_far env) True (ab_write env) (pa_hw s) of (ipa, par) \<Rightarrow>
        if ipa = 0 then Some (False, ctx, s)
        else if ipa \<ge> push_bit (vaddr_bits (hv_tables s)) 1 then Some (False, ctx, s)
        else case hv_pt_walk (hv_tables s) ipa of
          None \<Rightarrow> None
        | Some pte \<Rightarrow>
            if pte = 0 then Some (unmapped_abort env ctx s)
            else if IS_HW pte then Some (True, ctx\<lparr>ctx_elr := ctx_elr ctx - 4\<rparr>, s)
            else emulate_abort ops env ctx ipa par pte s)"

end
