(* ===== verification/Abort_Properties.thy ===== *)
theory Abort_Properties
  imports Data_Abort
begin

text \<open>
  The properties of the data abort path: captured serial output, storms of unmapped accesses,
  emulated loads and stores on memory, and refused accesses.
\<close>

section \<open>The serial capture ring\<close>









section \<open>Storms of unmapped accesses\<close>

text \<open>The handler entered \<open>n\<close> times with the same abort, as a processor that keeps faulting does.\<close>

primrec abort_run ::
  "('h, 'h hv_state) mmio_ops \<Rightarrow> 'h abort_env \<Rightarrow> exc_info \<Rightarrow> nat \<Rightarrow> 'h hv_state \<Rightarrow> (bool list \<times> 'h hv_state) option" where
  "abort_run ops env ctx 0 s = Some ([], s)"
| "abort_run ops env ctx (Suc n) s =
     (case abort_run ops env ctx n s of
        None \<Rightarrow> None
      | Some (rs, s1) \<Rightarrow>
          (case hv_handle_dabort ops env ctx s1 of
             None \<Rightarrow> None
           | Some (r, _, s2) \<Rightarrow> Some (rs @ [r], s2)))"

text \<open>The abort translates to an address in range that nothing maps.\<close>

definition faults_unmapped :: "'h abort_env \<Rightarrow> 'h hv_state \<Rightarrow> bool" where
  "faults_unmapped env s \<longleftrightarrow>
     (let ipa = fst (ab_translate env (ab_far env) True (ab_write env) (pa_hw s)) in
      ipa \<noteq> 0 \<and> ipa < push_bit (vaddr_bits (hv_tables s)) 1 \<and> hv_pt_walk (hv_tables s) ipa = Some 0)"

lemma dabort_unmapped:
  "faults_unmapped env s \<Longrightarrow> hv_handle_dabort ops env ctx s = Some (unmapped_abort env ctx s)"
  by (auto simp: faults_unmapped_def hv_handle_dabort_def Let_def split: prod.splits)

lemma unmapped_frame:
  assumes "unmapped_abort env ctx s = (r, ctx', s')"
  shows "faults_unmapped env s' = faults_unmapped env s" and "ctx' = ctx"
  using assms by (auto simp: unmapped_abort_def count_unmapped_def faults_unmapped_def Let_def split: if_splits)

text \<open>The storm counter after \<open>k\<close> aborts, below the threshold.\<close>

lemma abort_run_counts:
  assumes "faults_unmapped env s" and "ab_cpu env < ab_max_cpus env"
    and "ctx_elr ctx \<noteq> last_unmapped_elr s (ab_cpu env) \<or> unmapped_streak s (ab_cpu env) = 0" and "0 < k" and "k < 16"
  shows "\<exists>s'. abort_run ops env ctx k s = Some (replicate k False, s') \<and> faults_unmapped env s' \<and>
     last_unmapped_elr s' (ab_cpu env) = ctx_elr ctx \<and> unmapped_streak s' (ab_cpu env) = word_of_nat k \<and>
     exited_cpus s' = exited_cpus s \<and> pa_hw s' = pa_hw s"
  using assms(4,5)
proof (induction k)
  case 0
  then show ?case by simp
next
  case (Suc k)
  have ne: "(1 :: u32) + word_of_nat k \<noteq> 16" if "Suc k < 16"
  proof
    assume "(1 :: u32) + word_of_nat k = 16"
    then have "(word_of_nat (Suc k) :: u32) = word_of_nat 16" by simp
    then have "unat (word_of_nat (Suc k) :: u32) = 16" by simp
    then show False using that by (simp add: unat_of_nat_small del: of_nat_Suc)
  qed
  show ?case
  proof (cases "k = 0")
    case True
    have u: "unmapped_abort env ctx s = (False, ctx, count_unmapped env (ctx_elr ctx) s)"
      using assms(2,3) by (auto simp: unmapped_abort_def count_unmapped_def NWOAS_UNMAPPED_PARK_THRESHOLD_def Let_def)
    then show ?thesis
      using assms(1,2,3) True unmapped_frame [OF u] dabort_unmapped [OF assms(1), of ops ctx]
      by (auto simp: count_unmapped_def Let_def)
  next
    case False
    then obtain s1 where s1: "abort_run ops env ctx k s = Some (replicate k False, s1)" "faults_unmapped env s1"
      "last_unmapped_elr s1 (ab_cpu env) = ctx_elr ctx" "unmapped_streak s1 (ab_cpu env) = word_of_nat k"
      "exited_cpus s1 = exited_cpus s" "pa_hw s1 = pa_hw s"
      using Suc by auto
    have u: "unmapped_abort env ctx s1 = (False, ctx, count_unmapped env (ctx_elr ctx) s1)"
      using assms(2) s1(3,4) ne Suc.prems
      by (auto simp: unmapped_abort_def count_unmapped_def NWOAS_UNMAPPED_PARK_THRESHOLD_def Let_def add.commute)
    then show ?thesis
      using assms(2) s1 unmapped_frame [OF u] dabort_unmapped [OF s1(2), of ops ctx]
      by (auto simp: count_unmapped_def Let_def replicate_append_same simp flip: replicate_Suc)
  qed
qed


lemma abort_run_parks:
  assumes "faults_unmapped env s" and "ab_cpu env < ab_max_cpus env"
    and "ctx_elr ctx \<noteq> last_unmapped_elr s (ab_cpu env) \<or> unmapped_streak s (ab_cpu env) = 0"
    and "int (ab_cpu env) \<noteq> ab_boot_cpu env" and "int (ab_cpu env) \<noteq> ab_pinned_cpu env"
  shows "\<exists>s'. abort_run ops env ctx 16 s = Some (replicate 15 False @ [True], s') \<and>
     exited_cpus s' = exited_cpus s @ [ab_cpu env] \<and> unmapped_streak s' (ab_cpu env) = 0"
proof -
  obtain s1 where s1: "abort_run ops env ctx 15 s = Some (replicate 15 False, s1)" "faults_unmapped env s1"
    "last_unmapped_elr s1 (ab_cpu env) = ctx_elr ctx" "unmapped_streak s1 (ab_cpu env) = 15" "exited_cpus s1 = exited_cpus s"
    using abort_run_counts [OF assms(1,2,3), of 15 ops] by auto
  define s2 where "s2 = count_unmapped env (ctx_elr ctx) s1"
  have s2: "unmapped_streak s2 (ab_cpu env) = 16" "exited_cpus s2 = exited_cpus s"
    using assms(2) s1 by (simp_all add: s2_def count_unmapped_def Let_def)
  have "hv_handle_dabort ops env ctx s1 = Some (True, ctx, s2\<lparr>exited_cpus := exited_cpus s @ [ab_cpu env],
      unmapped_streak := (unmapped_streak s2)(ab_cpu env := 0)\<rparr>)"
    unfolding dabort_unmapped [OF s1(2)]
    using assms(2,4,5) s2 by (simp add: unmapped_abort_def s2_def [symmetric] NWOAS_UNMAPPED_PARK_THRESHOLD_def Let_def)
  moreover have "abort_run ops env ctx 16 s = abort_run ops env ctx (Suc 15) s" by simp
  ultimately show ?thesis using s1(1) by (simp only: abort_run.simps) simp
qed

lemma abort_keeps_cpu:
  assumes "int (ab_cpu env) = ab_boot_cpu env \<or> int (ab_cpu env) = ab_pinned_cpu env"
  shows "faults_unmapped env s \<Longrightarrow>
     \<exists>s'. abort_run ops env ctx n s = Some (replicate n False, s') \<and> exited_cpus s' = exited_cpus s \<and> faults_unmapped env s'"
proof (induction n)
  case 0
  then show ?case by simp
next
  case (Suc n)
  then obtain s1 where s1: "abort_run ops env ctx n s = Some (replicate n False, s1)" "exited_cpus s1 = exited_cpus s"
    "faults_unmapped env s1" by blast
  have u: "unmapped_abort env ctx s1 = (False, ctx, count_unmapped env (ctx_elr ctx) s1)"
    using assms by (auto simp: unmapped_abort_def Let_def)
  have "exited_cpus (count_unmapped env (ctx_elr ctx) s1) = exited_cpus s"
    using s1(2) by (simp add: count_unmapped_def Let_def)
  then show ?case
    using s1 unmapped_frame [OF u] dabort_unmapped [OF s1(3), of ops ctx] u
    by (simp add: replicate_append_same flip: replicate_Suc)
qed

section \<open>Emulated instructions on memory\<close>







section \<open>Refused accesses\<close>




section \<open>Properties\<close>

text \<open>Examples: a 36-bit table in which page \<open>0x4000\<close> is forwarded by software to \<open>0x900000000\<close>.\<close>

definition demo_pt :: hv_pt where
  "demo_pt = \<lparr>vaddr_bits = 36, hv_Ltop = Top_L2 (\<lambda>i. if i = 0 then L2_Tab (\<lambda>j. if j = 1 then L3_Desc 0x900000000 else L3_Desc 0) else L2_Desc 0)\<rparr>"

definition demo_hv :: "(u64 \<Rightarrow> u8) hv_state" where
  "demo_hv = \<lparr>exc_guard = False, exc_count = 0, pa_hw = (\<lambda>a. if a = 0x900000009 then 0xab else 0), hv_tables = demo_pt,
     last_unmapped_elr = (\<lambda>_. 0), unmapped_streak = (\<lambda>_. 0), bmgfw_uart_ring = (\<lambda>_. 0), bmgfw_uart_idx = 0, exited_cpus = []\<rparr>"

definition demo_abort :: "bool \<Rightarrow> u64 \<Rightarrow> u32 \<Rightarrow> (u64 \<Rightarrow> u8) abort_env" where
  "demo_abort wr far insn = \<lparr>ab_write = wr, ab_far = far, ab_translate = (\<lambda>a s1 w h. (a, 0)), ab_fetch = (\<lambda>a h. insn),
     ab_cpu = 3, ab_boot_cpu = 0, ab_pinned_cpu = 1, ab_max_cpus = 8\<rparr>"

definition demo_mmio :: "(u64 \<Rightarrow> u8, (u64 \<Rightarrow> u8) hv_state) mmio_ops" where
  "demo_mmio = \<lparr>mm_bus = ram_bus, mm_hook = (\<lambda>h c i v wr w s. (False, c, v, s)), mm_fastpath = (\<lambda>c i v wr w s. (False, c, v, s)),
     mm_proxy = (\<lambda>h c i v wr w p s. (c, v, s)), mm_trace = (\<lambda>e p b s. s),
     mm_usb_write = (\<lambda>c e p v w s. (False, c, v, s)), mm_usb_read = (\<lambda>c e p v w s. (False, c, v, s))\<rparr>"

lemmas demo_defs = demo_pt_def demo_hv_def demo_abort_def demo_ctx_def

lemma demo_walk: "hv_pt_walk demo_pt 0x4008 = Some 0x900000008" "hv_pt_walk demo_pt 0x8000 = Some 0"
  by (simp_all add: hv_pt_walk_def demo_pt_def l1_index_def l2_index_def l3_index_def walk_l2_def walk_l3_def as_l3_def as_l4_def
      mask_eq_exp_minus_1 L3_IS_TABLE_def IS_SW_def IS_HW_def PTE_TYPE_def PTE_VALID_def l3_result_def L3_IS_SW_BLOCK_def
      L3_IS_HW_BLOCK_def spte_type_def GENMASK_def SPTE_MAP_def VADDR_L3_ALIGN_MASK_def)





text \<open>
  C6. A storm of aborts on an unmapped address ends.  A processor that is neither the boot nor the
  pinned one and keeps faulting at the same instruction is reported fifteen times and parked by
  the sixteenth abort, with its counter cleared; the boot and the pinned processor are never
  parked, however often they fault.
\<close>

theorem storm_parks_cpu:
  "faults_unmapped env s \<and> ab_cpu env < ab_max_cpus env \<and>
   (ctx_elr ctx \<noteq> last_unmapped_elr s (ab_cpu env) \<or> unmapped_streak s (ab_cpu env) = 0) \<Longrightarrow>
   (if int (ab_cpu env) \<noteq> ab_boot_cpu env \<and> int (ab_cpu env) \<noteq> ab_pinned_cpu env
    then \<exists>s'. abort_run ops env ctx 16 s = Some (replicate 15 False @ [True], s') \<and>
       exited_cpus s' = exited_cpus s @ [ab_cpu env] \<and> unmapped_streak s' (ab_cpu env) = 0
    else \<forall>n. \<exists>s'. abort_run ops env ctx n s = Some (replicate n False, s') \<and> exited_cpus s' = exited_cpus s)"
  using abort_run_parks [of env s ctx ops] abort_keeps_cpu [of env s ops ctx] by (auto split: if_split)

theorem storm_parks_cpu_witness:
  "\<exists>s'. abort_run demo_mmio (demo_abort False 0x8000 0) demo_ctx 16 demo_hv = Some (replicate 15 False @ [True], s') \<and>
     exited_cpus s' = [3]"
proof -
  have "faults_unmapped (demo_abort False 0x8000 0) demo_hv"
    using demo_walk(2) by (simp add: faults_unmapped_def Let_def demo_abort_def demo_hv_def) (simp add: demo_pt_def)
  then show ?thesis
    using storm_parks_cpu [of "demo_abort False 0x8000 0" demo_hv demo_ctx demo_mmio]
    by (auto simp: demo_abort_def demo_hv_def)
qed





end
