(* ===== verification/Nvme_Fastpath.thy ===== *)
theory Nvme_Fastpath
  imports Stage2_Tables Ldst_Emulation Completion_Queue
begin

text \<open>
  The NVMe I/O fast path of the hypervisor, \<^verbatim>\<open>nwoas_nvme_fastpath_*\<close> of
  \<^verbatim>\<open>nvme-s208/hv_vm-s208.c\<close>: one I/O queue pair served inside the abort handler, with the
  execution of reads, writes and flushes, the link to the host for the second namespace, the
  control call that arms and disarms it, and its registers.

  The two static structures and the observation of the guest's queue mapping are one record, with
  the environment in \<open>fp_hw\<close>.  The drive (\<^verbatim>\<open>nvme_flush\<close>, \<^verbatim>\<open>nvme_rw_guest\<close>), guest memory, the
  interrupt line, the clock, the address-translation instruction and the host proxy are parameters;
  the proxy may change the fast path while it runs, so it maps the whole record.  A stage-2
  translation that fails an assertion counts as no translation; well-formed tables have none.
\<close>

section \<open>Constants and layout\<close>

definition NWOAS_NVME_BAR :: u64 where "NWOAS_NVME_BAR = 0x700100000"
definition NWOAS_NVME_BAR_SIZE :: u64 where "NWOAS_NVME_BAR_SIZE = 0x4000"
definition NWOAS_NVME_NAMESPACE_LBAS :: u64 where "NWOAS_NVME_NAMESPACE_LBAS = 61279344"
definition NWOAS_NVME_WRITE_FIRST_LBA :: u64 where "NWOAS_NVME_WRITE_FIRST_LBA = 53839104"
definition NWOAS_NVME_WRITE_LAST_LBA :: u64 where "NWOAS_NVME_WRITE_LAST_LBA = 59968629"
definition NWOAS_NVME_MAX_IO_DEPTH :: u64 where "NWOAS_NVME_MAX_IO_DEPTH = 256"

text \<open>The outcome of a command: \<^verbatim>\<open>NWOAS_NVME_EXEC_FATAL\<close>, \<^verbatim>\<open>NWOAS_NVME_EXEC_CANCELLED\<close> or a status.\<close>

datatype exec_result = EXEC_FATAL | EXEC_CANCELLED | SC u16

definition SC_SUCCESS :: u16 where "SC_SUCCESS = 0x000"
definition SC_INVALID_OPCODE :: u16 where "SC_INVALID_OPCODE = 0x001"
definition SC_INVALID_FIELD :: u16 where "SC_INVALID_FIELD = 0x002"
definition SC_INVALID_NSID :: u16 where "SC_INVALID_NSID = 0x00b"
definition SC_LBA_RANGE :: u16 where "SC_LBA_RANGE = 0x080"
definition SC_WRITE_RO :: u16 where "SC_WRITE_RO = 0x182"
definition SC_WRITE_ERROR :: u16 where "SC_WRITE_ERROR = 0x280"
definition SC_READ_ERROR :: u16 where "SC_READ_ERROR = 0x281"

record nvme_guest_cmd =
  gc_opcode :: u8
  gc_flags :: u8
  gc_cid :: u16
  gc_nsid :: u32
  gc_cdw2 :: u32
  gc_cdw3 :: u32
  gc_metadata :: u64
  gc_prp1 :: u64
  gc_prp2 :: u64
  gc_cdw10 :: u32
  gc_cdw11 :: u32
  gc_cdw12 :: u32
  gc_cdw13 :: u32
  gc_cdw14 :: u32
  gc_cdw15 :: u32

definition field_at :: "nat \<Rightarrow> nat \<Rightarrow> bytes \<Rightarrow> 'a::len word" where
  "field_at off n b = le_word (take n (drop off b))"

definition guest_cmd :: "bytes \<Rightarrow> nvme_guest_cmd" where
  "guest_cmd b =
     \<lparr>gc_opcode = field_at 0 1 b, gc_flags = field_at 1 1 b, gc_cid = field_at 2 2 b, gc_nsid = field_at 4 4 b,
      gc_cdw2 = field_at 8 4 b, gc_cdw3 = field_at 12 4 b, gc_metadata = field_at 16 8 b, gc_prp1 = field_at 24 8 b, gc_prp2 = field_at 32 8 b,
      gc_cdw10 = field_at 40 4 b, gc_cdw11 = field_at 44 4 b, gc_cdw12 = field_at 48 4 b,
      gc_cdw13 = field_at 52 4 b, gc_cdw14 = field_at 56 4 b, gc_cdw15 = field_at 60 4 b\<rparr>"

text \<open>A completion entry, without and with its status word.\<close>

definition guest_cqe_body :: "u32 \<Rightarrow> u16 \<Rightarrow> u16 \<Rightarrow> bytes" where
  "guest_cqe_body result sq_head cid =
     le_bytes 4 result @ le_bytes 4 (0 :: u32) @ le_bytes 2 sq_head @ le_bytes 2 (1 :: u16) @ le_bytes 2 cid"

definition cqe_status :: "u16 \<Rightarrow> u8 \<Rightarrow> u16" where
  "cqe_status status phase = push_bit 1 status OR ucast phase"

section \<open>State\<close>

record nvme_cq_map =
  cm_va :: u64
  cm_ipa :: u64
  cm_par_s1 :: u64
  cm_par_s12 :: u64
  cm_s2 :: u64
  cm_context :: u64
  cm_pc :: u64
  cm_attempts :: u32
  cm_found :: bool

record nvme_diag =
  dg_max_ns1_ticks :: u64
  dg_max_ns2_ticks :: u64
  dg_in_flight_since :: u64
  dg_in_flight_nsid :: u32
  dg_ns1_calls :: u32
  dg_ns2_calls :: u32
  dg_max_sq_backlog :: u32
  dg_cq_ack_writes :: u32
  dg_local_mask_reads :: u32
  dg_local_mask_writes :: u32

record 'h nvme_fp =
  fp_armed :: bool
  fp_faulted :: bool
  fp_deferred :: bool
  fp_irq_enabled :: bool
  fp_cache_enabled :: bool
  fp_link_busy :: bool
  fp_local_mask_allowed :: bool
  fp_mask :: u32
  fp_sq_base :: u64
  fp_cq_base :: u64
  fp_sq_size :: u16
  fp_cq_size :: u16
  fp_sq_head :: u16
  fp_sq_tail :: u16
  fp_cq_head :: u16
  fp_cq_tail :: u16
  fp_cq_pending :: u16
  fp_cq_phase :: u8
  fp_commands :: u32
  fp_errors :: u32
  fp_link_sequence :: u32
  fp_lifecycle_epoch :: u32
  fp_sq_generation :: u16
  fp_cq_generation :: u16
  fp_diag :: nvme_diag
  fp_cq_map :: nvme_cq_map
  fp_hw :: 'h

record link_req =
  lr_magic :: u32
  lr_version :: u32
  lr_size :: u32
  lr_sequence :: u32
  lr_sq_generation :: u16
  lr_cq_generation :: u16
  lr_response :: u32
  lr_status :: u32
  lr_result :: u32
  lr_lifecycle_epoch :: u32
  lr_command :: bytes

datatype guest_io = GUEST_OK | GUEST_REFUSED | GUEST_FAILED

record 'h fp_ops =
  fo_tables :: "'h \<Rightarrow> hv_pt"
  fo_ram_base :: u64
  fo_mem_size :: u64
  fo_read :: "u64 \<Rightarrow> nat \<Rightarrow> 'h \<Rightarrow> bytes"
  fo_write :: "u64 \<Rightarrow> bytes \<Rightarrow> 'h \<Rightarrow> 'h"
  fo_flush :: "'h \<Rightarrow> bool \<times> 'h"
  fo_rw_guest :: "bool \<Rightarrow> u64 \<Rightarrow> u32 \<Rightarrow> u64 \<Rightarrow> u64 \<Rightarrow> 'h \<Rightarrow> guest_io \<times> 'h"
  fo_proxy :: "link_req \<Rightarrow> 'h nvme_fp \<Rightarrow> link_req \<times> 'h nvme_fp"
  fo_set_irq :: "bool \<Rightarrow> 'h \<Rightarrow> 'h"
  fo_now :: "'h \<Rightarrow> u64"
  fo_probe_at :: "u64 \<Rightarrow> bool \<Rightarrow> 'h \<Rightarrow> u64 \<times> u64"
  fo_link_magic :: u32
  fo_link_version :: u32
  fo_link_done :: u32

section \<open>Guest memory\<close>

definition fp_translate :: "'h fp_ops \<Rightarrow> u64 \<Rightarrow> 'h \<Rightarrow> u64" where
  "fp_translate ops ipa h = (case nwoas_ipa_to_pa (fo_tables ops h) ipa of None \<Rightarrow> 0 | Some pa \<Rightarrow> pa)"

text \<open>A null pointer is 0.\<close>

definition nwoas_nvme_guest_ptr :: "'h fp_ops \<Rightarrow> u64 \<Rightarrow> u64 \<Rightarrow> 'h \<Rightarrow> u64" where
  "nwoas_nvme_guest_ptr ops ipa len h =
     (let pa = fp_translate ops ipa h in
      if pa = 0 \<or> \<not> nwoas_in_dram (fo_ram_base ops) (fo_mem_size ops) pa len then 0
      else if (ipa AND mask 14) + len > 0x4000 then 0
      else pa)"

definition fp_level :: "'h nvme_fp \<Rightarrow> bool" where
  "fp_level s \<longleftrightarrow> fp_armed s \<and> \<not> fp_faulted s \<and> fp_irq_enabled s \<and> fp_mask s AND 1 = 0 \<and> fp_cq_pending s \<noteq> 0"

definition nwoas_nvme_fastpath_update_irq :: "'h fp_ops \<Rightarrow> 'h nvme_fp \<Rightarrow> 'h nvme_fp" where
  "nwoas_nvme_fastpath_update_irq ops s = s\<lparr>fp_hw := fo_set_irq ops (fp_level s) (fp_hw s)\<rparr>"

text \<open>The one-time observation of how the guest maps its completion queue.\<close>

definition nwoas_nvme_probe_cq_map :: "'h fp_ops \<Rightarrow> exc_info \<Rightarrow> 'h nvme_fp \<Rightarrow> 'h nvme_fp" where
  "nwoas_nvme_probe_cq_map ops ctx s0 =
     (let cm = fp_cq_map s0; context = regs ctx 21 in
      if cm_found cm \<or> cm_attempts cm \<ge> 64 \<or> ctx_elr ctx < 0xffff000000000000 \<or> context < 0xffff000000000000 then s0
      else let s = s0\<lparr>fp_cq_map := cm\<lparr>cm_attempts := cm_attempts cm + 1\<rparr>\<rparr>;
               h = fp_hw s; dram = nwoas_in_dram (fo_ram_base ops) (fo_mem_size ops);
               pa = fst (fo_probe_at ops context True h);
               va = (field_at 0 8 (fo_read ops pa 8 h) :: u64);
               (ipa, s1) = fo_probe_at ops va False h;
               (cq_pa, s12) = fo_probe_at ops va True h in
        if pa = 0 \<or> pa AND 7 \<noteq> 0 \<or> \<not> dram pa 8 then s
        else if va < 0xffff000000000000 then s
        else if ipa \<noteq> fp_cq_base s then s
        else if cq_pa = 0 \<or> \<not> dram cq_pa 16 \<or> cq_pa \<noteq> fp_translate ops (fp_cq_base s) h then s
        else s\<lparr>fp_cq_map := (fp_cq_map s)\<lparr>cm_va := va, cm_ipa := ipa, cm_par_s1 := s1, cm_par_s12 := s12,
                 cm_s2 := (case hv_pt_walk (fo_tables ops h) ipa of None \<Rightarrow> 0 | Some p \<Rightarrow> p),
                 cm_context := context, cm_pc := ctx_elr ctx, cm_found := True\<rparr>\<rparr>)"

section \<open>Executing a command\<close>

definition nwoas_nvme_link_execute ::
  "'h fp_ops \<Rightarrow> bytes \<Rightarrow> nvme_guest_cmd \<Rightarrow> 'h nvme_fp \<Rightarrow> exec_result \<times> u32 \<times> 'h nvme_fp" where
  "nwoas_nvme_link_execute ops raw cmd s0 =
     (let seq = fp_link_sequence s0 + 1;
          s1 = s0\<lparr>fp_link_sequence := seq, fp_link_busy := True\<rparr>;
          req = \<lparr>lr_magic = fo_link_magic ops, lr_version = fo_link_version ops, lr_size = 96, lr_sequence = seq,
                 lr_sq_generation = fp_sq_generation s0, lr_cq_generation = fp_cq_generation s0, lr_response = 0,
                 lr_status = ucast SC_INVALID_FIELD, lr_result = 0, lr_lifecycle_epoch = fp_lifecycle_epoch s0,
                 lr_command = raw\<rparr>;
          (req', s2) = fo_proxy ops req s1;
          s3 = s2\<lparr>fp_link_busy := False\<rparr> in
      if \<not> fp_armed s3 \<or> fp_faulted s3 \<or> fp_lifecycle_epoch s3 \<noteq> fp_lifecycle_epoch s0 \<or>
         fp_sq_generation s3 \<noteq> fp_sq_generation s0 \<or> fp_cq_generation s3 \<noteq> fp_cq_generation s0 \<or>
         fp_sq_head s3 \<noteq> fp_sq_head s0
      then (EXEC_CANCELLED, 0, s3)
      else if lr_magic req' \<noteq> fo_link_magic ops \<or> lr_version req' \<noteq> fo_link_version ops \<or> lr_size req' \<noteq> 96 \<or>
              lr_sequence req' \<noteq> seq \<or> lr_sq_generation req' \<noteq> fp_sq_generation s0 \<or>
              lr_cq_generation req' \<noteq> fp_cq_generation s0 \<or> lr_lifecycle_epoch req' \<noteq> fp_lifecycle_epoch s0 \<or>
              lr_response req' \<noteq> fo_link_done ops \<or> lr_status req' > 0x7fff
      then (SC (if gc_opcode cmd = 1 then SC_WRITE_ERROR else SC_READ_ERROR), 0, s3)
      else (SC (ucast (lr_status req')), lr_result req', s3))"

definition fp_flush :: "'h fp_ops \<Rightarrow> 'h nvme_fp \<Rightarrow> exec_result \<times> u32 \<times> 'h nvme_fp" where
  "fp_flush ops s =
     (case fo_flush ops (fp_hw s) of (ok, h) \<Rightarrow> (if ok then SC SC_SUCCESS else EXEC_FATAL, 0, s\<lparr>fp_hw := h\<rparr>))"

definition fp_no_args :: "nvme_guest_cmd \<Rightarrow> bool" where
  "fp_no_args cmd \<longleftrightarrow> gc_cdw10 cmd = 0 \<and> gc_cdw11 cmd = 0 \<and> gc_cdw12 cmd = 0 \<and> gc_cdw13 cmd = 0 \<and>
     gc_cdw14 cmd = 0 \<and> gc_cdw15 cmd = 0"

definition cmd_lba :: "nvme_guest_cmd \<Rightarrow> u64" where
  "cmd_lba cmd = ucast (gc_cdw10 cmd) OR push_bit 32 (ucast (gc_cdw11 cmd))"

definition cmd_count :: "nvme_guest_cmd \<Rightarrow> u32" where
  "cmd_count cmd = (gc_cdw12 cmd AND 0xffff) + 1"

text \<open>Reads and writes of the first namespace.\<close>

definition fp_rw ::
  "'h fp_ops \<Rightarrow> nvme_guest_cmd \<Rightarrow> 'h nvme_fp \<Rightarrow> exec_result \<times> u32 \<times> 'h nvme_fp" where
  "fp_rw ops cmd s =
     (let write = (gc_opcode cmd = 1); lba = cmd_lba cmd; count = cmd_count cmd in
      if gc_cdw12 cmd AND 0x3fff0000 \<noteq> 0 \<or> (if write then gc_cdw13 cmd AND NOT 0xff else gc_cdw13 cmd) \<noteq> 0 \<or>
         gc_cdw14 cmd \<noteq> 0 \<or> gc_cdw15 cmd \<noteq> 0
      then (SC SC_INVALID_FIELD, 0, s)
      else if lba \<ge> NWOAS_NVME_NAMESPACE_LBAS \<or> ucast count > NWOAS_NVME_NAMESPACE_LBAS - lba then (SC SC_LBA_RANGE, 0, s)
      else if write \<and> (lba < NWOAS_NVME_WRITE_FIRST_LBA \<or> lba + ucast count - 1 > NWOAS_NVME_WRITE_LAST_LBA)
      then (SC SC_WRITE_RO, 0, s)
      else case fo_rw_guest ops write lba count (gc_prp1 cmd) (gc_prp2 cmd) (fp_hw s) of (result, h) \<Rightarrow>
        let s1 = s\<lparr>fp_hw := h\<rparr> in
        (case result of
           GUEST_FAILED \<Rightarrow> (EXEC_FATAL, 0, s1)
         | GUEST_REFUSED \<Rightarrow> (SC SC_INVALID_FIELD, 0, s1)
         | GUEST_OK \<Rightarrow>
             if write \<and> (bit (gc_cdw12 cmd) 30 \<or> \<not> fp_cache_enabled s1) then fp_flush ops s1
             else (SC SC_SUCCESS, 0, s1)))"

definition nwoas_nvme_fastpath_execute ::
  "'h fp_ops \<Rightarrow> bytes \<Rightarrow> nvme_guest_cmd \<Rightarrow> 'h nvme_fp \<Rightarrow> exec_result \<times> u32 \<times> 'h nvme_fp" where
  "nwoas_nvme_fastpath_execute ops raw cmd s =
     (if gc_flags cmd \<noteq> 0 \<or> gc_metadata cmd \<noteq> 0 then (SC SC_INVALID_FIELD, 0, s)
      else if gc_opcode cmd = 0 \<and> gc_nsid cmd = 0xffffffff then
        (if fp_no_args cmd then fp_flush ops s else (SC SC_INVALID_FIELD, 0, s))
      else if gc_nsid cmd = 2 then nwoas_nvme_link_execute ops raw cmd s
      else if gc_nsid cmd \<noteq> 1 then (SC SC_INVALID_NSID, 0, s)
      else if gc_opcode cmd = 0 then (if fp_no_args cmd then fp_flush ops s else (SC SC_INVALID_FIELD, 0, s))
      else if gc_opcode cmd \<noteq> 1 \<and> gc_opcode cmd \<noteq> 2 then (SC SC_INVALID_OPCODE, 0, s)
      else fp_rw ops cmd s)"

section \<open>Processing the queue\<close>

definition fp_fault :: "'h nvme_fp \<Rightarrow> 'h nvme_fp" where
  "fp_fault s = s\<lparr>fp_faulted := True, fp_deferred := False, fp_errors := fp_errors s + 1\<rparr>"

definition fp_settle :: "'h fp_ops \<Rightarrow> 'h nvme_fp \<Rightarrow> 'h nvme_fp" where
  "fp_settle ops s =
     nwoas_nvme_fastpath_update_irq ops
       (s\<lparr>fp_deferred := (fp_armed s \<and> \<not> fp_faulted s \<and> fp_sq_head s \<noteq> fp_sq_tail s)\<rparr>)"

definition fp_measure :: "u32 \<Rightarrow> u64 \<Rightarrow> 'h nvme_fp \<Rightarrow> 'h nvme_fp" where
  "fp_measure nsid elapsed s =
     (let d = (fp_diag s)\<lparr>dg_in_flight_since := 0\<rparr> in
      s\<lparr>fp_diag := (if nsid = 2
         then d\<lparr>dg_ns2_calls := dg_ns2_calls d + 1, dg_max_ns2_ticks := max elapsed (dg_max_ns2_ticks d)\<rparr>
         else d\<lparr>dg_ns1_calls := dg_ns1_calls d + 1, dg_max_ns1_ticks := max elapsed (dg_max_ns1_ticks d)\<rparr>)\<rparr>)"

definition fp_next_sq :: "'h nvme_fp \<Rightarrow> 'h nvme_fp" where
  "fp_next_sq s = s\<lparr>fp_sq_head := (if fp_sq_head s + 1 = fp_sq_size s then 0 else fp_sq_head s + 1)\<rparr>"

text \<open>The cursor update after an entry has been published.\<close>

definition fp_push_cq :: "'h nvme_fp \<Rightarrow> 'h nvme_fp" where
  "fp_push_cq s =
     (if fp_cq_tail s + 1 = fp_cq_size s
      then s\<lparr>fp_cq_tail := 0, fp_cq_pending := fp_cq_pending s + 1, fp_cq_phase := fp_cq_phase s XOR 1\<rparr>
      else s\<lparr>fp_cq_tail := fp_cq_tail s + 1, fp_cq_pending := fp_cq_pending s + 1\<rparr>)"

text \<open>Publication of one completion: the body first, the phase-bearing status word last.\<close>

definition fp_publish :: "'h fp_ops \<Rightarrow> u64 \<Rightarrow> u16 \<Rightarrow> u32 \<Rightarrow> u16 \<Rightarrow> 'h nvme_fp \<Rightarrow> 'h nvme_fp" where
  "fp_publish ops dst cid result status s0 =
     (let s = fp_next_sq s0;
          h1 = fo_write ops dst (guest_cqe_body result (fp_sq_head s) cid) (fp_hw s);
          h2 = fo_write ops (dst + 14) (le_bytes 2 (cqe_status status (fp_cq_phase s))) h1
      in fp_push_cq (s\<lparr>fp_hw := h2, fp_commands := fp_commands s + 1,
                       fp_errors := fp_errors s + (if status \<noteq> 0 then 1 else 0)\<rparr>))"

text \<open>One round of the loop; the flag tells whether the loop goes on.\<close>

definition fp_serve :: "'h fp_ops \<Rightarrow> 'h nvme_fp \<Rightarrow> bool \<times> 'h nvme_fp" where
  "fp_serve ops s =
     (let h = fp_hw s;
          src = nwoas_nvme_guest_ptr ops (fp_sq_base s + ucast (fp_sq_head s) * 64) 64 h;
          dst = nwoas_nvme_guest_ptr ops (fp_cq_base s + ucast (fp_cq_tail s) * 16) 16 h in
      if src = 0 \<or> dst = 0 then (False, fp_fault s)
      else let raw = fo_read ops src 64 h; cmd = guest_cmd raw; start = fo_now ops h;
               s1 = s\<lparr>fp_diag := (fp_diag s)\<lparr>dg_in_flight_since := start, dg_in_flight_nsid := gc_nsid cmd\<rparr>\<rparr>;
               (result, cresult, s2) = nwoas_nvme_fastpath_execute ops raw cmd s1;
               s3 = fp_measure (gc_nsid cmd) (fo_now ops (fp_hw s2) - start) s2 in
        (case result of
           EXEC_CANCELLED \<Rightarrow> (False, s3)
         | EXEC_FATAL \<Rightarrow> (False, fp_fault s3)
         | SC status \<Rightarrow> (True, fp_publish ops dst (gc_cid cmd) cresult status s3)))"

definition fp_ready :: "'h nvme_fp \<Rightarrow> bool" where
  "fp_ready s \<longleftrightarrow> fp_sq_head s \<noteq> fp_sq_tail s \<and> int (unat (fp_cq_pending s)) < int (unat (fp_cq_size s)) - 1"

primrec fp_loop :: "'h fp_ops \<Rightarrow> nat \<Rightarrow> 'h nvme_fp \<Rightarrow> 'h nvme_fp" where
  "fp_loop ops 0 s = s"
| "fp_loop ops (Suc budget) s =
     (if fp_ready s then (case fp_serve ops s of (go, s1) \<Rightarrow> if go then fp_loop ops budget s1 else s1) else s)"

definition nwoas_nvme_fastpath_process :: "'h fp_ops \<Rightarrow> nat \<Rightarrow> 'h nvme_fp \<Rightarrow> 'h nvme_fp" where
  "nwoas_nvme_fastpath_process ops budget s =
     (if \<not> fp_armed s \<or> fp_faulted s \<or> fp_link_busy s then s else fp_settle ops (fp_loop ops budget s))"

definition nwoas_nvme_fastpath_poll :: "'h fp_ops \<Rightarrow> 'h nvme_fp \<Rightarrow> 'h nvme_fp" where
  "nwoas_nvme_fastpath_poll ops s =
     (if fp_deferred s \<and> int (unat (fp_cq_pending s)) < int (unat (fp_cq_size s)) - 1
      then nwoas_nvme_fastpath_process ops 1 s else s)"

section \<open>Control\<close>

definition fp_policy :: "u64 \<Rightarrow> 'h nvme_fp \<Rightarrow> 'h nvme_fp" where
  "fp_policy flags s =
     s\<lparr>fp_irq_enabled := bit flags 1, fp_cache_enabled := bit flags 2, fp_local_mask_allowed := bit flags 3,
       fp_mask := ucast (drop_bit 32 flags)\<rparr>"

definition fp_arm_args :: "u64 \<Rightarrow> u64 \<Rightarrow> u64 \<Rightarrow> u64 \<Rightarrow> bool" where
  "fp_arm_args sq_base sq_size cq_base cq_size \<longleftrightarrow>
     sq_base \<noteq> 0 \<and> cq_base \<noteq> 0 \<and> sq_base AND 0xfff = 0 \<and> cq_base AND 0xfff = 0 \<and>
     2 \<le> sq_size \<and> sq_size \<le> NWOAS_NVME_MAX_IO_DEPTH \<and> 2 \<le> cq_size \<and> cq_size \<le> NWOAS_NVME_MAX_IO_DEPTH"

definition fp_arm_memory :: "'h fp_ops \<Rightarrow> u64 \<Rightarrow> u64 \<Rightarrow> u64 \<Rightarrow> u64 \<Rightarrow> 'h \<Rightarrow> bool" where
  "fp_arm_memory ops sq_base sq_size cq_base cq_size h \<longleftrightarrow>
     nwoas_nvme_guest_ptr ops sq_base 64 h \<noteq> 0 \<and> nwoas_nvme_guest_ptr ops (sq_base + (sq_size - 1) * 64) 64 h \<noteq> 0 \<and>
     nwoas_nvme_guest_ptr ops cq_base 16 h \<noteq> 0 \<and> nwoas_nvme_guest_ptr ops (cq_base + (cq_size - 1) * 16) 16 h \<noteq> 0"

definition fp_arm :: "u64 \<Rightarrow> u64 \<Rightarrow> u64 \<Rightarrow> u64 \<Rightarrow> u64 \<Rightarrow> 'h nvme_fp \<Rightarrow> 'h nvme_fp" where
  "fp_arm sq_base sq_size cq_base cq_size flags s0 =
     (let sq_gen = ucast (drop_bit 8 flags AND 0xfff); cq_gen = ucast (drop_bit 20 flags AND 0xfff);
          same_sq = (fp_sq_base s0 = sq_base \<and> ucast (fp_sq_size s0) = sq_size \<and> fp_sq_generation s0 = sq_gen);
          same_cq = (fp_cq_base s0 = cq_base \<and> ucast (fp_cq_size s0) = cq_size \<and> fp_cq_generation s0 = cq_gen);
          s1 = (if same_sq then s0 else s0\<lparr>fp_sq_head := 0, fp_sq_tail := 0\<rparr>);
          s2 = (if same_cq then s1
                else s1\<lparr>fp_cq_head := 0, fp_cq_tail := 0, fp_cq_pending := 0, fp_cq_phase := ucast (flags AND 1)\<rparr>)
      in fp_policy flags
           (s2\<lparr>fp_sq_base := sq_base, fp_cq_base := cq_base, fp_sq_size := ucast sq_size, fp_cq_size := ucast cq_size,
               fp_sq_generation := sq_gen, fp_cq_generation := cq_gen,
               fp_lifecycle_epoch := fp_lifecycle_epoch s2 + 1, fp_armed := True\<rparr>))"

definition bit_at :: "nat \<Rightarrow> bool \<Rightarrow> u64" where "bit_at n b = (if b then push_bit n 1 else 0)"

definition fp_query :: "u64 \<Rightarrow> 'h nvme_fp \<Rightarrow> u64" where
  "fp_query action s =
     (let d = fp_diag s in
      if action = 3 then ucast (fp_commands s) OR push_bit 32 (ucast (fp_errors s))
      else if action = 4 then ucast (fp_lifecycle_epoch s) OR bit_at 32 (fp_armed s) OR bit_at 33 (fp_faulted s) OR bit_at 34 (fp_link_busy s)
      else if action = 5 then dg_max_ns1_ticks d
      else if action = 6 then dg_max_ns2_ticks d
      else if action = 7 then ucast (dg_max_sq_backlog d) OR push_bit 32 (ucast (dg_cq_ack_writes d))
      else if action = 8 then push_bit 32 0x53313630 OR ucast (fp_mask s)
      else if action = 10 then bit_at 0 (cm_found (fp_cq_map s))
      else ucast (dg_local_mask_reads d) OR push_bit 32 (ucast (dg_local_mask_writes d)))"

definition nwoas_nvme_fastpath_control ::
  "'h fp_ops \<Rightarrow> u64 \<Rightarrow> u64 \<Rightarrow> u64 \<Rightarrow> u64 \<Rightarrow> u64 \<Rightarrow> u64 \<Rightarrow> 'h nvme_fp \<Rightarrow> u64 \<times> 'h nvme_fp" where
  "nwoas_nvme_fastpath_control ops action sq_base sq_size cq_base cq_size flags s =
     (if action = 0 then
        (1, nwoas_nvme_fastpath_update_irq ops
              (s\<lparr>fp_armed := False, fp_deferred := False, fp_lifecycle_epoch := fp_lifecycle_epoch s + 1\<rparr>))
      else if action = 2 then
        (let s1 = nwoas_nvme_fastpath_update_irq ops (fp_policy flags s)
         in (if fp_faulted s1 then 2 else bit_at 0 (fp_armed s1), s1))
      else if 3 \<le> action \<and> action \<le> 10 then (fp_query action s, s)
      else if action \<noteq> 1 \<or> \<not> fp_arm_args sq_base sq_size cq_base cq_size \<or>
              \<not> fp_arm_memory ops sq_base sq_size cq_base cq_size (fp_hw s) \<or> fp_faulted s then (0, s)
      else (1, nwoas_nvme_fastpath_update_irq ops (fp_arm sq_base sq_size cq_base cq_size flags s)))"

section \<open>Registers\<close>

definition fp_sq_doorbell :: "'h fp_ops \<Rightarrow> u64 \<Rightarrow> 'h nvme_fp \<Rightarrow> 'h nvme_fp" where
  "fp_sq_doorbell ops v s =
     (if v < ucast (fp_sq_size s)
      then let s1 = s\<lparr>fp_sq_tail := ucast v\<rparr>;
               backlog = word_of_nat ((unat (fp_sq_tail s1) + unat (fp_sq_size s1) - unat (fp_sq_head s1)) mod unat (fp_sq_size s1));
               s2 = s1\<lparr>fp_diag := (fp_diag s1)\<lparr>dg_max_sq_backlog := max backlog (dg_max_sq_backlog (fp_diag s1))\<rparr>,
                       fp_deferred := (fp_sq_head s1 \<noteq> fp_sq_tail s1)\<rparr>
           in nwoas_nvme_fastpath_process ops 1 s2
      else s\<lparr>fp_errors := fp_errors s + 1\<rparr>)"

text \<open>How many entries a new head retires, and the cursor update for it.\<close>

definition fp_consumed :: "u16 \<Rightarrow> 'h nvme_fp \<Rightarrow> nat" where
  "fp_consumed v s = (unat v + unat (fp_cq_size s) - unat (fp_cq_head s)) mod unat (fp_cq_size s)"

definition fp_retire_cq :: "u16 \<Rightarrow> 'h nvme_fp \<Rightarrow> 'h nvme_fp" where
  "fp_retire_cq v s = s\<lparr>fp_cq_head := v, fp_cq_pending := fp_cq_pending s - word_of_nat (fp_consumed v s)\<rparr>"

definition fp_cq_doorbell :: "'h fp_ops \<Rightarrow> exc_info \<Rightarrow> u64 \<Rightarrow> 'h nvme_fp \<Rightarrow> 'h nvme_fp" where
  "fp_cq_doorbell ops ctx v s0 =
     (let s1 = nwoas_nvme_probe_cq_map ops ctx s0;
          s = s1\<lparr>fp_diag := (fp_diag s1)\<lparr>dg_cq_ack_writes := dg_cq_ack_writes (fp_diag s1) + 1\<rparr>\<rparr> in
      if v < ucast (fp_cq_size s)
      then if fp_consumed (ucast v) s \<le> unat (fp_cq_pending s)
           then nwoas_nvme_fastpath_update_irq ops
                  ((fp_retire_cq (ucast v) s)\<lparr>fp_deferred := (fp_sq_head s \<noteq> fp_sq_tail s)\<rparr>)
           else s\<lparr>fp_errors := fp_errors s + 1\<rparr>
      else s\<lparr>fp_errors := fp_errors s + 1\<rparr>)"

definition fp_mask_access :: "'h fp_ops \<Rightarrow> u64 \<Rightarrow> u64 \<Rightarrow> bool \<Rightarrow> 'h nvme_fp \<Rightarrow> u64 \<times> 'h nvme_fp" where
  "fp_mask_access ops off v write s =
     (let d = fp_diag s in
      if write
      then (v, nwoas_nvme_fastpath_update_irq ops
                 (s\<lparr>fp_mask := (if off = 0x0c then fp_mask s OR ucast v else fp_mask s AND NOT (ucast v)),
                    fp_diag := d\<lparr>dg_local_mask_writes := dg_local_mask_writes d + 1\<rparr>\<rparr>))
      else (ucast (fp_mask s), s\<lparr>fp_diag := d\<lparr>dg_local_mask_reads := dg_local_mask_reads d + 1\<rparr>\<rparr>))"

text \<open>The result: handled or not, the value for the guest, the state.\<close>

definition nwoas_nvme_fastpath_mmio ::
  "'h fp_ops \<Rightarrow> exc_info \<Rightarrow> u64 \<Rightarrow> u64 \<Rightarrow> bool \<Rightarrow> nat \<Rightarrow> 'h nvme_fp \<Rightarrow> bool \<times> u64 \<times> 'h nvme_fp" where
  "nwoas_nvme_fastpath_mmio ops ctx ipa v write width s =
     (let off = ipa - NWOAS_NVME_BAR in
      if \<not> fp_armed s \<or> ipa < NWOAS_NVME_BAR \<or> ipa \<ge> NWOAS_NVME_BAR + NWOAS_NVME_BAR_SIZE then (False, v, s)
      else if width \<noteq> 2 then (False, v, s)
      else if \<not> fp_faulted s \<and> fp_local_mask_allowed s \<and> (off = 0x0c \<or> off = 0x10) then
        (case fp_mask_access ops off v write s of (v', s') \<Rightarrow> (True, v', s'))
      else if \<not> write then (if fp_faulted s \<and> off = 0x1c then (True, 3, s) else (False, v, s))
      else if off = 0x1008 then (True, v, fp_sq_doorbell ops v s)
      else if off = 0x100c then (True, v, fp_cq_doorbell ops ctx v s)
      else (False, v, s))"

end
