(* ===== verification/Fastpath_Invariant.thy ===== *)
theory Fastpath_Invariant
  imports Nvme_Fastpath
begin

text \<open>
  The invariant of the NVMe fast path: the completion cursor as an instance of the shared cursor
  interface, the host proxy as the interface \<open>link_host\<close> of a host that reaches the fast path only
  through control calls, and the proof that every entry point keeps the queues well formed.
\<close>

section \<open>The completion cursor\<close>

definition fp_cq_ok :: "'h nvme_fp \<Rightarrow> bool" where
  "fp_cq_ok s \<longleftrightarrow> 2 \<le> unat (fp_cq_size s) \<and> unat (fp_cq_size s) \<le> 256 \<and> unat (fp_cq_head s) < unat (fp_cq_size s) \<and>
     unat (fp_cq_pending s) < unat (fp_cq_size s) \<and> fp_cq_phase s \<in> {0, 1} \<and>
     unat (fp_cq_tail s) = (unat (fp_cq_head s) + unat (fp_cq_pending s)) mod unat (fp_cq_size s)"

lemma unat_u16_Suc: "unat (x :: u16) < 256 \<Longrightarrow> unat (x + 1) = unat x + 1"
  by (subst unat_add_small) simp_all

lemma fp_push_cursor:
  assumes "fp_cq_ok s" and "unat (fp_cq_pending s) + 1 < unat (fp_cq_size s)"
  shows "fp_cq_ok (fp_push_cq s)" and "unat (fp_cq_pending (fp_push_cq s)) = unat (fp_cq_pending s) + 1"
    and "unat (fp_cq_tail (fp_push_cq s)) = (unat (fp_cq_tail s) + 1) mod unat (fp_cq_size s)"
    and "(fp_cq_phase (fp_push_cq s) = 1) =
       (if (unat (fp_cq_tail s) + 1) mod unat (fp_cq_size s) = 0 then \<not> fp_cq_phase s = 1 else fp_cq_phase s = 1)"
proof -
  have d: "0 < unat (fp_cq_size s)" "unat (fp_cq_size s) \<le> 256" using assms by (auto simp: fp_cq_ok_def)
  have t: "unat (fp_cq_tail s) < unat (fp_cq_size s)" using assms(1) d by (simp add: fp_cq_ok_def)
  have u: "unat (fp_cq_tail s + 1) = unat (fp_cq_tail s) + 1" "unat (fp_cq_pending s + 1) = unat (fp_cq_pending s) + 1"
    using t d assms(2) by (simp_all add: unat_u16_Suc)
  have wrap: "fp_cq_tail s + 1 = fp_cq_size s \<longleftrightarrow> unat (fp_cq_tail s) + 1 = unat (fp_cq_size s)"
    using u(1) by (simp add: word_unat_eq_iff)
  have m: "(unat (fp_cq_tail s) + 1) mod unat (fp_cq_size s) =
      (if unat (fp_cq_tail s) + 1 = unat (fp_cq_size s) then 0 else unat (fp_cq_tail s) + 1)"
    using t by (auto simp: mod_less)
  have ph: "fp_cq_phase s \<in> {0, 1}" using assms(1) by (simp add: fp_cq_ok_def)
  then have px: "fp_cq_phase s XOR 1 \<in> {0, 1}" "(fp_cq_phase s XOR 1 = 1) = (fp_cq_phase s \<noteq> 1)" by auto
  show p: "unat (fp_cq_pending (fp_push_cq s)) = unat (fp_cq_pending s) + 1"
    using u by (simp add: fp_push_cq_def)
  show tl: "unat (fp_cq_tail (fp_push_cq s)) = (unat (fp_cq_tail s) + 1) mod unat (fp_cq_size s)"
    unfolding m using u wrap by (simp add: fp_push_cq_def)
  show "(fp_cq_phase (fp_push_cq s) = 1) =
       (if (unat (fp_cq_tail s) + 1) mod unat (fp_cq_size s) = 0 then \<not> fp_cq_phase s = 1 else fp_cq_phase s = 1)"
    unfolding m using wrap px by (simp add: fp_push_cq_def)
  have "unat (fp_cq_tail (fp_push_cq s)) = (unat (fp_cq_head s) + (unat (fp_cq_pending s) + 1)) mod unat (fp_cq_size s)"
    using assms(1) unfolding tl by (simp add: fp_cq_ok_def mod_Suc_eq)
  moreover have "fp_cq_phase (fp_push_cq s) \<in> {0, 1}" using ph px by (simp add: fp_push_cq_def)
  moreover have "fp_cq_size (fp_push_cq s) = fp_cq_size s" "fp_cq_head (fp_push_cq s) = fp_cq_head s"
    by (simp_all add: fp_push_cq_def)
  ultimately show "fp_cq_ok (fp_push_cq s)" using assms p by (simp add: fp_cq_ok_def)
qed

lemma fp_retire_cursor:
  assumes "fp_cq_ok s" and "unat v < unat (fp_cq_size s)" and "fp_consumed v s \<le> unat (fp_cq_pending s)"
  shows "fp_cq_ok (fp_retire_cq v s)" and "unat (fp_cq_pending (fp_retire_cq v s)) = unat (fp_cq_pending s) - fp_consumed v s"
proof -
  define n where "n = fp_consumed v s"
  have b: "unat (fp_cq_size s) \<le> 256" "unat (fp_cq_head s) < unat (fp_cq_size s)" "unat (fp_cq_pending s) < unat (fp_cq_size s)"
    using assms(1) by (auto simp: fp_cq_ok_def)
  have un: "unat (word_of_nat n :: u16) = n" using assms(3) b by (intro unat_of_nat_small) (simp add: n_def)
  show p: "unat (fp_cq_pending (fp_retire_cq v s)) = unat (fp_cq_pending s) - fp_consumed v s"
    using assms(3) un by (simp add: fp_retire_cq_def n_def [symmetric] unat_diff_small word_le_nat_alt)
  have "(unat (fp_cq_head s) + n) mod unat (fp_cq_size s) =
      (unat (fp_cq_head s) + (unat v + unat (fp_cq_size s) - unat (fp_cq_head s))) mod unat (fp_cq_size s)"
    unfolding n_def fp_consumed_def by (simp add: mod_add_right_eq)
  then have e: "(unat (fp_cq_head s) + n) mod unat (fp_cq_size s) = unat v" using b assms(2) by simp
  have "(unat v + (unat (fp_cq_pending s) - n)) mod unat (fp_cq_size s) =
      (unat (fp_cq_head s) + n + (unat (fp_cq_pending s) - n)) mod unat (fp_cq_size s)"
    unfolding e [symmetric] by (simp add: mod_add_left_eq)
  then have "unat (fp_cq_tail s) = (unat v + (unat (fp_cq_pending s) - n)) mod unat (fp_cq_size s)"
    using assms(1,3) by (simp add: fp_cq_ok_def n_def)
  moreover have "fp_cq_tail (fp_retire_cq v s) = fp_cq_tail s" "fp_cq_size (fp_retire_cq v s) = fp_cq_size s"
    "fp_cq_phase (fp_retire_cq v s) = fp_cq_phase s" "fp_cq_head (fp_retire_cq v s) = v" by (simp_all add: fp_retire_cq_def)
  ultimately show "fp_cq_ok (fp_retire_cq v s)"
    using assms(1,2) p less_imp_diff_less [OF b(3), of n] by (simp add: fp_cq_ok_def n_def)
qed

interpretation io_cq: completion_cursor
  "\<lambda>s :: 'h nvme_fp. unat (fp_cq_head s)" "\<lambda>s. unat (fp_cq_tail s)" "\<lambda>s. unat (fp_cq_pending s)"
  "\<lambda>s. unat (fp_cq_size s)" "\<lambda>s. fp_cq_phase s = 1" fp_push_cq "\<lambda>h. fp_retire_cq (word_of_nat h)" fp_cq_ok
proof unfold_locales
  fix q :: "'h nvme_fp" assume "fp_cq_ok q"
  then show "2 \<le> unat (fp_cq_size q) \<and> unat (fp_cq_head q) < unat (fp_cq_size q) \<and>
      unat (fp_cq_pending q) < unat (fp_cq_size q) \<and>
      unat (fp_cq_tail q) = (unat (fp_cq_head q) + unat (fp_cq_pending q)) mod unat (fp_cq_size q)"
    by (simp add: fp_cq_ok_def)
next
  fix q :: "'h nvme_fp" assume q: "fp_cq_ok q" "unat (fp_cq_pending q) + 1 < unat (fp_cq_size q)"
  have "fp_cq_head (fp_push_cq q) = fp_cq_head q" "fp_cq_size (fp_push_cq q) = fp_cq_size q" by (simp_all add: fp_push_cq_def)
  then show "fp_cq_ok (fp_push_cq q) \<and> unat (fp_cq_head (fp_push_cq q)) = unat (fp_cq_head q) \<and>
      unat (fp_cq_size (fp_push_cq q)) = unat (fp_cq_size q) \<and>
      unat (fp_cq_pending (fp_push_cq q)) = unat (fp_cq_pending q) + 1 \<and>
      unat (fp_cq_tail (fp_push_cq q)) = (unat (fp_cq_tail q) + 1) mod unat (fp_cq_size q) \<and>
      (fp_cq_phase (fp_push_cq q) = 1) =
       (if (unat (fp_cq_tail q) + 1) mod unat (fp_cq_size q) = 0 then fp_cq_phase q \<noteq> 1 else fp_cq_phase q = 1)"
    using fp_push_cursor [OF q] by simp
next
  fix q :: "'h nvme_fp" and h
  assume q: "fp_cq_ok q" and h: "h < unat (fp_cq_size q)"
    and le: "(h + unat (fp_cq_size q) - unat (fp_cq_head q)) mod unat (fp_cq_size q) \<le> unat (fp_cq_pending q)"
  have "unat (fp_cq_size q) \<le> 256" using q by (simp add: fp_cq_ok_def)
  then have u: "unat (word_of_nat h :: u16) = h" using h by (intro unat_of_nat_small) simp
  have c: "fp_consumed (word_of_nat h) q = (h + unat (fp_cq_size q) - unat (fp_cq_head q)) mod unat (fp_cq_size q)"
    by (simp add: fp_consumed_def u)
  have f: "fp_cq_tail (fp_retire_cq x q) = fp_cq_tail q" "fp_cq_size (fp_retire_cq x q) = fp_cq_size q"
    "fp_cq_phase (fp_retire_cq x q) = fp_cq_phase q" "fp_cq_head (fp_retire_cq x q) = x" for x by (simp_all add: fp_retire_cq_def)
  show "fp_cq_ok (fp_retire_cq (word_of_nat h) q) \<and> unat (fp_cq_head (fp_retire_cq (word_of_nat h) q)) = h \<and>
      unat (fp_cq_size (fp_retire_cq (word_of_nat h) q)) = unat (fp_cq_size q) \<and>
      unat (fp_cq_tail (fp_retire_cq (word_of_nat h) q)) = unat (fp_cq_tail q) \<and>
      (fp_cq_phase (fp_retire_cq (word_of_nat h) q) = 1) = (fp_cq_phase q = 1) \<and>
      unat (fp_cq_pending (fp_retire_cq (word_of_nat h) q)) =
        unat (fp_cq_pending q) - (h + unat (fp_cq_size q) - unat (fp_cq_head q)) mod unat (fp_cq_size q)"
    using fp_retire_cursor [OF q, of "word_of_nat h"] le h unfolding u c f by simp
qed

section \<open>The invariant\<close>

definition fp_valid :: "'h nvme_fp \<Rightarrow> bool" where
  "fp_valid s \<longleftrightarrow> 2 \<le> unat (fp_sq_size s) \<and> unat (fp_sq_size s) \<le> 256 \<and> unat (fp_sq_head s) < unat (fp_sq_size s) \<and>
     unat (fp_sq_tail s) < unat (fp_sq_size s) \<and> fp_cq_ok s"

definition fp_inv :: "'h nvme_fp \<Rightarrow> bool" where
  "fp_inv s \<longleftrightarrow> fp_valid s \<or> (fp_sq_size s = 0 \<and> fp_cq_size s = 0 \<and> \<not> fp_armed s)"

text \<open>The part of the state the invariant speaks of.\<close>

definition fp_queues :: "'h nvme_fp \<Rightarrow> (u16 \<times> u16 \<times> u16 \<times> u16) \<times> (u16 \<times> u16 \<times> u16) \<times> u8" where
  "fp_queues s = ((fp_sq_size s, fp_sq_head s, fp_sq_tail s, fp_cq_size s), (fp_cq_head s, fp_cq_tail s, fp_cq_pending s), fp_cq_phase s)"

lemma fp_queues_valid: "fp_queues s' = fp_queues s \<Longrightarrow> fp_valid s' = fp_valid s"
  by (simp add: fp_queues_def fp_valid_def fp_cq_ok_def)

lemma fp_queues_inv: "fp_queues s' = fp_queues s \<Longrightarrow> fp_armed s' = fp_armed s \<Longrightarrow> fp_inv s' = fp_inv s"
  using fp_queues_valid by (auto simp: fp_inv_def fp_queues_def)

lemma armed_valid: "fp_inv s \<Longrightarrow> fp_armed s \<Longrightarrow> fp_valid s"
  by (simp add: fp_inv_def)

lemma update_irq_frame:
  "fp_queues (nwoas_nvme_fastpath_update_irq ops s) = fp_queues s" "fp_armed (nwoas_nvme_fastpath_update_irq ops s) = fp_armed s"
  "fp_faulted (nwoas_nvme_fastpath_update_irq ops s) = fp_faulted s"
  "fp_lifecycle_epoch (nwoas_nvme_fastpath_update_irq ops s) = fp_lifecycle_epoch s"
  "fp_deferred (nwoas_nvme_fastpath_update_irq ops s) = fp_deferred s"
  by (simp_all add: nwoas_nvme_fastpath_update_irq_def fp_queues_def)

lemma policy_frame:
  "fp_queues (fp_policy fl s) = fp_queues s" "fp_armed (fp_policy fl s) = fp_armed s" "fp_faulted (fp_policy fl s) = fp_faulted s"
  "fp_lifecycle_epoch (fp_policy fl s) = fp_lifecycle_epoch s"
  by (simp_all add: fp_policy_def fp_queues_def)

lemma arm_valid:
  assumes "fp_inv s" and "fp_arm_args sb sn cb cn"
  shows "fp_valid (fp_arm sb sn cb cn flags s)"
proof -
  have sz: "2 \<le> unat sn" "unat sn \<le> 256" "2 \<le> unat cn" "unat cn \<le> 256"
    using assms(2) by (simp_all add: fp_arm_args_def NWOAS_NVME_MAX_IO_DEPTH_def word_le_nat_alt)
  have u: "unat (ucast sn :: u16) = unat sn" "unat (ucast cn :: u16) = unat cn" using sz by (simp_all add: unat_ucast_small)
  have back_u: "unat (x :: u16) = unat n" if "ucast x = n" for x and n :: u64
    using that by (auto simp: unat_ucast_small unsigned_less [THEN less_trans])
  have sq: "unat (fp_sq_head s) < unat sn \<and> unat (fp_sq_tail s) < unat sn" if e: "ucast (fp_sq_size s) = sn"
  proof -
    have "unat (fp_sq_size s) = unat sn" by (rule back_u [OF e])
    then show ?thesis using assms(1) sz by (auto simp: fp_inv_def fp_valid_def)
  qed
  have cq: "fp_cq_ok s \<and> unat (fp_cq_size s) = unat cn" if e: "ucast (fp_cq_size s) = cn"
  proof -
    have "unat (fp_cq_size s) = unat cn" by (rule back_u [OF e])
    then show ?thesis using assms(1) sz by (auto simp: fp_inv_def fp_valid_def)
  qed
  have "flags AND 1 = 0 \<or> flags AND 1 = (1 :: u64)" by (simp add: and_one_eq) (metis not_mod_2_eq_1_eq_0 mod2_eq_if)
  then have ph: "ucast (flags AND 1) \<in> {0, 1 :: u8}" by auto
  show ?thesis
    using sz u sq cq ph unfolding fp_arm_def fp_policy_def Let_def fp_valid_def fp_cq_ok_def by (simp split: if_splits) auto
qed

lemma control_law:
  fixes ops :: "'h fp_ops" and action sb sn cb cn flags :: u64 and s :: "'h nvme_fp"
  defines "r \<equiv> snd (nwoas_nvme_fastpath_control ops action sb sn cb cn flags s)"
  shows "fp_inv s \<Longrightarrow> fp_inv r" and "(fp_lifecycle_epoch r, fp_queues r) = (fp_lifecycle_epoch s, fp_queues s) \<or> fp_lifecycle_epoch r = fp_lifecycle_epoch s + 1"
    and "fp_faulted r = fp_faulted s"
proof -
  have ep: "fp_lifecycle_epoch (fp_arm sb sn cb cn flags s) = fp_lifecycle_epoch s + 1"
    by (simp add: fp_arm_def fp_policy_def Let_def)
  have fa: "fp_faulted (fp_arm sb sn cb cn flags s) = fp_faulted s"
    by (simp add: fp_arm_def fp_policy_def Let_def)
  define off where "off = s\<lparr>fp_armed := False, fp_deferred := False, fp_lifecycle_epoch := fp_lifecycle_epoch s + 1\<rparr>"
  have o: "fp_queues off = fp_queues s" "fp_faulted off = fp_faulted s" "fp_lifecycle_epoch off = fp_lifecycle_epoch s + 1" "\<not> fp_armed off"
    by (simp_all add: off_def fp_queues_def)
  have oi: "fp_inv off" if "fp_inv s"
    using that fp_queues_valid [OF o(1)] o(4) by (auto simp: fp_inv_def off_def)
  have out: "r = nwoas_nvme_fastpath_update_irq ops off \<or> r = nwoas_nvme_fastpath_update_irq ops (fp_policy flags s) \<or> r = s \<or>
      r = nwoas_nvme_fastpath_update_irq ops (fp_arm sb sn cb cn flags s) \<and> fp_arm_args sb sn cb cn"
    unfolding r_def nwoas_nvme_fastpath_control_def off_def [symmetric] Let_def by (simp cong: if_cong)
  then consider (dis) "r = nwoas_nvme_fastpath_update_irq ops off" | (pol) "r = nwoas_nvme_fastpath_update_irq ops (fp_policy flags s)"
    | (same) "r = s" | (arm) "r = nwoas_nvme_fastpath_update_irq ops (fp_arm sb sn cb cn flags s)" "fp_arm_args sb sn cb cn"
    by blast
  then have "(fp_inv s \<longrightarrow> fp_inv r) \<and> ((fp_lifecycle_epoch r, fp_queues r) = (fp_lifecycle_epoch s, fp_queues s) \<or>
      fp_lifecycle_epoch r = fp_lifecycle_epoch s + 1) \<and>
      fp_faulted r = fp_faulted s"
  proof cases
    case dis
    then show ?thesis using o(2,3) oi by (simp add: update_irq_frame fp_queues_inv [OF update_irq_frame(1,2)])
  next
    case pol
    then show ?thesis by (simp add: update_irq_frame policy_frame fp_queues_inv [OF update_irq_frame(1,2)] fp_queues_inv [OF policy_frame(1,2)])
  next
    case same
    then show ?thesis by simp
  next
    case arm
    have "fp_inv r" if "fp_inv s"
      using arm_valid [OF that arm(2), of flags] unfolding arm(1) fp_inv_def fp_queues_valid [OF update_irq_frame(1)] ..
    then show ?thesis using arm(1) ep fa by (simp add: update_irq_frame)
  qed
  then show "fp_inv s \<Longrightarrow> fp_inv r" 
    "(fp_lifecycle_epoch r, fp_queues r) = (fp_lifecycle_epoch s, fp_queues s) \<or> fp_lifecycle_epoch r = fp_lifecycle_epoch s + 1"
    "fp_faulted r = fp_faulted s" by blast+
qed

section \<open>The host\<close>

text \<open>
  While the host proxy answers a request it reaches the fast path only through control calls; the
  rest of the machine may change meanwhile.  The count is the number of control calls.
\<close>

inductive host_run :: "'h fp_ops \<Rightarrow> nat \<Rightarrow> 'h nvme_fp \<Rightarrow> 'h nvme_fp \<Rightarrow> bool" for ops where
  host_idle: "host_run ops 0 s s"
| host_hw: "host_run ops n s t \<Longrightarrow> host_run ops n s (t\<lparr>fp_hw := h\<rparr>)"
| host_control: "host_run ops n s t \<Longrightarrow>
    host_run ops (Suc n) s (snd (nwoas_nvme_fastpath_control ops action sb sn cb cn flags t))"

lemma host_run_inv: "host_run ops n s t \<Longrightarrow> fp_inv s \<Longrightarrow> fp_inv t"
proof (induction rule: host_run.induct)
  case (host_hw n s t h)
  have "fp_queues (t\<lparr>fp_hw := h\<rparr>) = fp_queues t" "fp_armed (t\<lparr>fp_hw := h\<rparr>) = fp_armed t" by (simp_all add: fp_queues_def)
  then show ?case using host_hw fp_queues_inv by blast
qed (simp_all add: control_law(1))

lemma host_run_fault: "host_run ops n s t \<Longrightarrow> fp_faulted t = fp_faulted s"
  by (induction rule: host_run.induct) (simp_all add: control_law(3))

lemma host_run_epoch:
  "host_run ops n s t \<Longrightarrow>
   \<exists>k\<le>n. fp_lifecycle_epoch t = fp_lifecycle_epoch s + word_of_nat k \<and> (k = 0 \<longrightarrow> fp_queues t = fp_queues s)"
proof (induction rule: host_run.induct)
  case (host_hw n s t h)
  then show ?case by (simp add: fp_queues_def)
next
  case (host_control n s t action sb sn cb cn flags)
  then obtain k where k: "k \<le> n" "fp_lifecycle_epoch t = fp_lifecycle_epoch s + word_of_nat k" "k = 0 \<longrightarrow> fp_queues t = fp_queues s"
    by blast
  show ?case using control_law(2) [of ops action sb sn cb cn flags t]
  proof
    assume "fp_lifecycle_epoch (snd (nwoas_nvme_fastpath_control ops action sb sn cb cn flags t)) = fp_lifecycle_epoch t + 1"
    then show ?case using k by (intro exI [of _ "Suc k"]) (simp add: algebra_simps)
  next
    assume "(fp_lifecycle_epoch (snd (nwoas_nvme_fastpath_control ops action sb sn cb cn flags t)),
        fp_queues (snd (nwoas_nvme_fastpath_control ops action sb sn cb cn flags t))) = (fp_lifecycle_epoch t, fp_queues t)"
    then show ?case using k by (intro exI [of _ k]) simp
  qed
qed simp

text \<open>The epoch is a 32-bit counter: it tells runs apart as long as one makes fewer than \<open>2 ^ 32\<close> calls.\<close>

locale link_host =
  fixes ops :: "'h fp_ops"
  assumes proxy_runs: "\<exists>n<2 ^ 32. host_run ops n s (snd (fo_proxy ops req s))"
begin

lemma host_inv: "fp_inv s \<Longrightarrow> fp_inv (snd (fo_proxy ops req s))"
  using proxy_runs host_run_inv by blast

lemma host_fault: "fp_faulted (snd (fo_proxy ops req s)) = fp_faulted s"
  using proxy_runs host_run_fault by blast

lemma host_epoch:
  assumes "fp_lifecycle_epoch (snd (fo_proxy ops req s)) = fp_lifecycle_epoch s"
  shows "fp_queues (snd (fo_proxy ops req s)) = fp_queues s"
proof -
  obtain n where n: "n < 2 ^ 32" "host_run ops n s (snd (fo_proxy ops req s))" using proxy_runs by blast
  obtain k where k: "k \<le> n" "fp_lifecycle_epoch s = fp_lifecycle_epoch s + word_of_nat k"
    "k = 0 \<longrightarrow> fp_queues (snd (fo_proxy ops req s)) = fp_queues s" using host_run_epoch [OF n(2)] assms by auto
  have "unat (word_of_nat k :: u32) = 0" using k(2) by simp
  then have "k = 0" using unat_of_nat_small [of k, where 'a = 32] k(1) n(1) by simp
  then show ?thesis using k(3) by simp
qed

end

text \<open>A host that makes one control call, whichever it is, while it answers the request.\<close>

definition control_host ::
  "'h fp_ops \<Rightarrow> (link_req \<Rightarrow> link_req) \<Rightarrow> u64 \<Rightarrow> u64 \<Rightarrow> u64 \<Rightarrow> u64 \<Rightarrow> u64 \<Rightarrow> u64 \<Rightarrow> 'h fp_ops" where
  "control_host ops answer action sb sn cb cn flags =
     ops\<lparr>fo_proxy := (\<lambda>req s. (answer req, snd (nwoas_nvme_fastpath_control ops action sb sn cb cn flags s)))\<rparr>"

lemma control_ops_cong:
  assumes "fo_tables ops' = fo_tables ops" and "fo_ram_base ops' = fo_ram_base ops" and "fo_mem_size ops' = fo_mem_size ops"
    and "fo_set_irq ops' = fo_set_irq ops"
  shows "nwoas_nvme_fastpath_control ops' = nwoas_nvme_fastpath_control ops"
  using assms by (intro ext) (simp add: nwoas_nvme_fastpath_control_def nwoas_nvme_fastpath_update_irq_def fp_arm_memory_def
      nwoas_nvme_guest_ptr_def fp_translate_def)

interpretation calling: link_host "control_host ops answer action sb sn cb cn flags"
  for ops :: "'h fp_ops" and answer action sb sn cb cn flags
proof
  fix s :: "'h nvme_fp" and req
  let ?o = "control_host ops answer action sb sn cb cn flags"
  have "nwoas_nvme_fastpath_control ?o = nwoas_nvme_fastpath_control ops"
    by (rule control_ops_cong) (simp_all add: control_host_def)
  then show "\<exists>n<2 ^ 32. host_run ?o n s (snd (fo_proxy ?o req s))"
    using host_control [OF host_idle, of ?o s action sb sn cb cn flags] by (intro exI [of _ 1]) (simp add: control_host_def)
qed

text \<open>
  A link request runs the proxy once with the busy flag up; it is cancelled exactly when the fast
  path is no longer the one that sent it.
\<close>

lemma link_cases:
  assumes "nwoas_nvme_link_execute ops raw cmd s = (r, c, s')"
  obtains req s2 where "s2 = snd (fo_proxy ops req (s\<lparr>fp_link_sequence := fp_link_sequence s + 1, fp_link_busy := True\<rparr>))"
    and "s' = s2\<lparr>fp_link_busy := False\<rparr>"
    and "r = EXEC_CANCELLED \<longleftrightarrow> \<not> fp_armed s2 \<or> fp_faulted s2 \<or> fp_lifecycle_epoch s2 \<noteq> fp_lifecycle_epoch s \<or>
      fp_sq_generation s2 \<noteq> fp_sq_generation s \<or> fp_cq_generation s2 \<noteq> fp_cq_generation s \<or> fp_sq_head s2 \<noteq> fp_sq_head s"
proof -
  define req where "req = \<lparr>lr_magic = fo_link_magic ops, lr_version = fo_link_version ops, lr_size = 96,
      lr_sequence = fp_link_sequence s + 1, lr_sq_generation = fp_sq_generation s, lr_cq_generation = fp_cq_generation s,
      lr_response = 0, lr_status = ucast SC_INVALID_FIELD, lr_result = 0, lr_lifecycle_epoch = fp_lifecycle_epoch s, lr_command = raw\<rparr>"
  obtain req' s2 where p: "fo_proxy ops req (s\<lparr>fp_link_sequence := fp_link_sequence s + 1, fp_link_busy := True\<rparr>) = (req', s2)"
    by (rule prod.exhaust)
  define s3 where "s3 = s2\<lparr>fp_link_busy := False\<rparr>"
  have if_law: "(if c1 then (EXEC_CANCELLED, 0, s3) else if c2 then (SC x, 0, s3) else (SC y, z, s3)) = (r, c, s') \<Longrightarrow>
      s' = s3 \<and> (r = EXEC_CANCELLED \<longleftrightarrow> c1)" for c1 c2 x y z by (auto split: if_splits)
  have "s' = s3 \<and> (r = EXEC_CANCELLED \<longleftrightarrow> \<not> fp_armed s3 \<or> fp_faulted s3 \<or> fp_lifecycle_epoch s3 \<noteq> fp_lifecycle_epoch s \<or>
         fp_sq_generation s3 \<noteq> fp_sq_generation s \<or> fp_cq_generation s3 \<noteq> fp_cq_generation s \<or> fp_sq_head s3 \<noteq> fp_sq_head s)"
    using assms unfolding nwoas_nvme_link_execute_def Let_def req_def [symmetric] p prod.case s3_def [symmetric]
    by (rule if_law)
  then show thesis using that [of s2 req] p by (simp add: s3_def)
qed

context link_host
begin

lemma link_law:
  assumes "nwoas_nvme_link_execute ops raw cmd s = (r, c, s')"
  shows "fp_inv s \<Longrightarrow> fp_inv s'" and "r \<noteq> EXEC_CANCELLED \<Longrightarrow> fp_queues s' = fp_queues s \<and> fp_armed s' \<and> \<not> fp_faulted s'"
    and "fp_faulted s \<Longrightarrow> fp_faulted s'" and "\<not> fp_link_busy s'"
proof -
  let ?s1 = "s\<lparr>fp_link_sequence := fp_link_sequence s + 1, fp_link_busy := True\<rparr>"
  obtain req s2 where s2: "s2 = snd (fo_proxy ops req ?s1)" and s': "s' = s2\<lparr>fp_link_busy := False\<rparr>"
    and live: "r = EXEC_CANCELLED \<or> (fp_armed s2 \<and> \<not> fp_faulted s2 \<and> fp_lifecycle_epoch s2 = fp_lifecycle_epoch s)"
    by (rule link_cases [OF assms]) blast
  have q1: "fp_queues ?s1 = fp_queues s" "fp_armed ?s1 = fp_armed s" by (simp_all add: fp_queues_def)
  have q3: "fp_queues s' = fp_queues s2" "fp_armed s' = fp_armed s2" "fp_faulted s' = fp_faulted s2" "\<not> fp_link_busy s'"
    by (simp_all add: s' fp_queues_def)
  show "fp_inv s \<Longrightarrow> fp_inv s'"
    using host_inv [of ?s1 req] unfolding fp_queues_inv [OF q3(1,2)] fp_queues_inv [OF q1] s2 .
  show "r \<noteq> EXEC_CANCELLED \<Longrightarrow> fp_queues s' = fp_queues s \<and> fp_armed s' \<and> \<not> fp_faulted s'"
    using live q1 q3 s2 host_epoch [of req ?s1] by simp
  show "fp_faulted s \<Longrightarrow> fp_faulted s'" using q3(3) s2 host_fault [of req ?s1] by simp
  show "\<not> fp_link_busy s'" by (rule q3(4))
qed

end

lemma flush_frame:
  assumes "fp_flush ops s = (r, c, s')"
  shows "\<exists>h. s' = s\<lparr>fp_hw := h\<rparr>" and "r \<noteq> EXEC_CANCELLED"
  using assms by (auto simp: fp_flush_def split: prod.splits if_splits)

lemma rw_frame:
  assumes "fp_rw ops cmd s = (r, c, s')"
  shows "(\<exists>h. s' = s\<lparr>fp_hw := h\<rparr>) \<and> r \<noteq> EXEC_CANCELLED"
proof -
  have self: "\<exists>h. s = s\<lparr>fp_hw := h\<rparr>" by (rule exI [of _ "fp_hw s"]) simp
  obtain g h where g: "fo_rw_guest ops (gc_opcode cmd = 1) (cmd_lba cmd) (cmd_count cmd) (gc_prp1 cmd) (gc_prp2 cmd) (fp_hw s) = (g, h)"
    by (rule prod.exhaust)
  have fl: "(\<exists>h. s' = s\<lparr>fp_hw := h\<rparr>) \<and> r \<noteq> EXEC_CANCELLED" if "fp_flush ops (s\<lparr>fp_hw := h\<rparr>) = (r, c, s')"
    using flush_frame [OF that] by auto
  show ?thesis
    using assms self fl unfolding fp_rw_def Let_def g prod.case
    by (cases g) (auto split: if_splits)
qed

section \<open>Serving the queue keeps the invariant\<close>

lemma hw_frame:
  "fp_queues (s\<lparr>fp_hw := h\<rparr>) = fp_queues s" "fp_armed (s\<lparr>fp_hw := h\<rparr>) = fp_armed s" "fp_faulted (s\<lparr>fp_hw := h\<rparr>) = fp_faulted s"
  by (simp_all add: fp_queues_def)

lemma diag_frame:
  "fp_queues (s\<lparr>fp_diag := d\<rparr>) = fp_queues s" "fp_armed (s\<lparr>fp_diag := d\<rparr>) = fp_armed s" "fp_faulted (s\<lparr>fp_diag := d\<rparr>) = fp_faulted s"
  by (simp_all add: fp_queues_def)

lemma measure_frame:
  "fp_queues (fp_measure n e s) = fp_queues s" "fp_armed (fp_measure n e s) = fp_armed s" "fp_faulted (fp_measure n e s) = fp_faulted s"
  by (simp_all add: fp_measure_def Let_def diag_frame)

lemma fault_frame:
  "fp_queues (fp_fault s) = fp_queues s" "fp_armed (fp_fault s) = fp_armed s" "fp_faulted (fp_fault s)"
  by (simp_all add: fp_fault_def fp_queues_def)

lemma settle_frame:
  "fp_queues (fp_settle ops s) = fp_queues s" "fp_armed (fp_settle ops s) = fp_armed s" "fp_faulted (fp_settle ops s) = fp_faulted s"
  "fp_deferred (fp_settle ops s) = (fp_armed s \<and> \<not> fp_faulted s \<and> fp_sq_head s \<noteq> fp_sq_tail s)"
  by (simp_all add: fp_settle_def update_irq_frame) (simp add: fp_queues_def)

lemmas frames = hw_frame diag_frame measure_frame fault_frame settle_frame update_irq_frame policy_frame

lemma next_sq_valid:
  assumes "fp_valid s"
  shows "fp_valid (fp_next_sq s)" and "unat (fp_sq_head (fp_next_sq s)) = (unat (fp_sq_head s) + 1) mod unat (fp_sq_size s)"
proof -
  have b: "unat (fp_sq_head s) < unat (fp_sq_size s)" "unat (fp_sq_size s) \<le> 256" using assms by (auto simp: fp_valid_def)
  have u: "unat (fp_sq_head s + 1) = unat (fp_sq_head s) + 1" using b by (simp add: unat_u16_Suc)
  show eq: "unat (fp_sq_head (fp_next_sq s)) = (unat (fp_sq_head s) + 1) mod unat (fp_sq_size s)"
    using b u by (auto simp: fp_next_sq_def word_unat_eq_iff mod_less)
  show "fp_valid (fp_next_sq s)"
    using assms b unfolding fp_valid_def eq by (simp add: fp_next_sq_def fp_cq_ok_def)
qed

lemma fp_ready_nat: "fp_ready s \<longleftrightarrow> fp_sq_head s \<noteq> fp_sq_tail s \<and> unat (fp_cq_pending s) + 1 < unat (fp_cq_size s)"
  unfolding fp_ready_def by linarith

lemma push_frame:
  "fp_sq_size (fp_push_cq s) = fp_sq_size s" "fp_sq_head (fp_push_cq s) = fp_sq_head s" "fp_sq_tail (fp_push_cq s) = fp_sq_tail s"
  "fp_armed (fp_push_cq s) = fp_armed s" "fp_faulted (fp_push_cq s) = fp_faulted s" "fp_cq_size (fp_push_cq s) = fp_cq_size s"
  "fp_hw (fp_push_cq s) = fp_hw s" "fp_cq_head (fp_push_cq s) = fp_cq_head s"
  by (simp_all add: fp_push_cq_def)

text \<open>Publishing a completion is a step of both cursors.\<close>

lemma publish_queues:
  "fp_queues (fp_publish ops dst cid result status s) = fp_queues (fp_push_cq (fp_next_sq s))"
  "fp_armed (fp_publish ops dst cid result status s) = fp_armed s"
  "fp_faulted (fp_publish ops dst cid result status s) = fp_faulted s"
  by (simp_all add: fp_publish_def Let_def fp_queues_def fp_push_cq_def fp_next_sq_def)

lemma push_valid:
  assumes "fp_valid s" and "unat (fp_cq_pending s) + 1 < unat (fp_cq_size s)"
  shows "fp_valid (fp_push_cq s)"
  using assms fp_push_cursor(1) [of s] by (simp add: fp_valid_def push_frame)

lemma publish_valid:
  assumes "fp_valid s" and "unat (fp_cq_pending s) + 1 < unat (fp_cq_size s)"
  shows "fp_valid (fp_publish ops dst cid result status s)"
proof -
  have "fp_cq_pending (fp_next_sq s) = fp_cq_pending s" "fp_cq_size (fp_next_sq s) = fp_cq_size s" by (simp_all add: fp_next_sq_def)
  then show ?thesis
    unfolding fp_queues_valid [OF publish_queues(1)] using push_valid [OF next_sq_valid(1) [OF assms(1)]] assms(2) by simp
qed

lemma ready_queues: "fp_queues s' = fp_queues s \<Longrightarrow> fp_ready s' = fp_ready s"
  by (simp add: fp_queues_def fp_ready_def)

text \<open>A command is refused with the state untouched, flushes, reads or writes, or goes to the host.\<close>

lemma execute_cases:
  obtains (refused) st where "nwoas_nvme_fastpath_execute ops raw cmd s = (SC st, 0, s)"
  | (flush) "nwoas_nvme_fastpath_execute ops raw cmd s = fp_flush ops s"
  | (rw) "nwoas_nvme_fastpath_execute ops raw cmd s = fp_rw ops cmd s"
  | (link) "nwoas_nvme_fastpath_execute ops raw cmd s = nwoas_nvme_link_execute ops raw cmd s"
proof -
  have "(\<exists>st. nwoas_nvme_fastpath_execute ops raw cmd s = (SC st, 0, s)) \<or> nwoas_nvme_fastpath_execute ops raw cmd s = fp_flush ops s \<or>
      nwoas_nvme_fastpath_execute ops raw cmd s = fp_rw ops cmd s \<or>
      nwoas_nvme_fastpath_execute ops raw cmd s = nwoas_nvme_link_execute ops raw cmd s"
    unfolding nwoas_nvme_fastpath_execute_def by (simp cong: if_cong)
  then show thesis using that by blast
qed

text \<open>A round faults on an unreachable entry, or runs the command and acts on its outcome.\<close>

lemma serve_cases:
  obtains (unreachable) "fp_serve ops s = (False, fp_fault s)"
  | (ran) raw dst s1 r c s2 s3 where "fp_queues s1 = fp_queues s" "fp_armed s1 = fp_armed s" "fp_faulted s1 = fp_faulted s"
      "fp_link_busy s1 = fp_link_busy s"
      "nwoas_nvme_fastpath_execute ops raw (guest_cmd raw) s1 = (r, c, s2)"
      "fp_queues s3 = fp_queues s2" "fp_armed s3 = fp_armed s2" "fp_faulted s3 = fp_faulted s2" "fp_link_busy s3 = fp_link_busy s2"
      "fp_serve ops s = (case r of EXEC_CANCELLED \<Rightarrow> (False, s3) | EXEC_FATAL \<Rightarrow> (False, fp_fault s3)
        | SC status \<Rightarrow> (True, fp_publish ops dst (gc_cid (guest_cmd raw)) c status s3))"
proof -
  define src where "src = nwoas_nvme_guest_ptr ops (fp_sq_base s + ucast (fp_sq_head s) * 64) 64 (fp_hw s)"
  define dst where "dst = nwoas_nvme_guest_ptr ops (fp_cq_base s + ucast (fp_cq_tail s) * 16) 16 (fp_hw s)"
  define raw where "raw = fo_read ops src 64 (fp_hw s)"
  define s1 where "s1 = s\<lparr>fp_diag := (fp_diag s)\<lparr>dg_in_flight_since := fo_now ops (fp_hw s), dg_in_flight_nsid := gc_nsid (guest_cmd raw)\<rparr>\<rparr>"
  obtain r c s2 where x: "nwoas_nvme_fastpath_execute ops raw (guest_cmd raw) s1 = (r, c, s2)" by (metis prod_cases3)
  define s3 where "s3 = fp_measure (gc_nsid (guest_cmd raw)) (fo_now ops (fp_hw s2) - fo_now ops (fp_hw s)) s2"
  have "fp_serve ops s = (if src = 0 \<or> dst = 0 then (False, fp_fault s) else
      case r of EXEC_CANCELLED \<Rightarrow> (False, s3) | EXEC_FATAL \<Rightarrow> (False, fp_fault s3)
      | SC status \<Rightarrow> (True, fp_publish ops dst (gc_cid (guest_cmd raw)) c status s3))"
    unfolding fp_serve_def Let_def src_def [symmetric] dst_def [symmetric] raw_def [symmetric] s1_def [symmetric]
      x prod.case s3_def [symmetric] ..
  moreover have "fp_queues s1 = fp_queues s" "fp_armed s1 = fp_armed s" "fp_faulted s1 = fp_faulted s" "fp_link_busy s1 = fp_link_busy s"
    by (simp_all add: s1_def diag_frame)
  moreover have "fp_queues s3 = fp_queues s2" "fp_armed s3 = fp_armed s2" "fp_faulted s3 = fp_faulted s2" "fp_link_busy s3 = fp_link_busy s2"
    by (simp_all add: s3_def measure_frame) (simp add: fp_measure_def Let_def)
  ultimately show thesis using that(1) that(2) [OF _ _ _ _ x, of s3 dst] by (cases "src = 0 \<or> dst = 0") simp_all
qed

context link_host
begin

lemma execute_law:
  assumes "nwoas_nvme_fastpath_execute ops raw cmd s = (r, c, s')"
  shows "fp_inv s \<Longrightarrow> fp_inv s'"
    and "r \<noteq> EXEC_CANCELLED \<Longrightarrow> fp_queues s' = fp_queues s \<and> (fp_armed s \<longrightarrow> fp_armed s') \<and> (\<not> fp_faulted s \<longrightarrow> \<not> fp_faulted s')"
    and "fp_faulted s \<Longrightarrow> fp_faulted s'"
proof -
  have self: "\<exists>h. s = s\<lparr>fp_hw := h\<rparr>" by (rule exI [of _ "fp_hw s"]) simp
  have "nwoas_nvme_link_execute ops raw cmd s = (r, c, s') \<or> (\<exists>h. s' = s\<lparr>fp_hw := h\<rparr>)"
  proof (cases rule: execute_cases [of ops raw cmd s])
    case refused
    then have "s' = s" using assms by simp
    then show ?thesis using self by simp
  next
    case flush
    then show ?thesis using assms flush_frame(1) [of ops s r c s'] by simp
  next
    case rw
    then show ?thesis using assms rw_frame [of ops cmd s r c s'] by simp
  next
    case link
    then show ?thesis using assms by simp
  qed
  then have "(fp_inv s \<longrightarrow> fp_inv s') \<and> (fp_faulted s \<longrightarrow> fp_faulted s') \<and>
      (r = EXEC_CANCELLED \<or> fp_queues s' = fp_queues s \<and> (fp_armed s \<longrightarrow> fp_armed s') \<and> (\<not> fp_faulted s \<longrightarrow> \<not> fp_faulted s'))"
  proof
    assume l: "nwoas_nvme_link_execute ops raw cmd s = (r, c, s')"
    show ?thesis using link_law(1-3) [OF l] by blast
  next
    assume "\<exists>h. s' = s\<lparr>fp_hw := h\<rparr>"
    then obtain h where h: "s' = s\<lparr>fp_hw := h\<rparr>" ..
    show ?thesis unfolding h fp_queues_inv [OF hw_frame(1,2)] by (simp add: hw_frame)
  qed
  then show "fp_inv s \<Longrightarrow> fp_inv s'"
    "r \<noteq> EXEC_CANCELLED \<Longrightarrow> fp_queues s' = fp_queues s \<and> (fp_armed s \<longrightarrow> fp_armed s') \<and> (\<not> fp_faulted s \<longrightarrow> \<not> fp_faulted s')"
    "fp_faulted s \<Longrightarrow> fp_faulted s'" by simp_all
qed

lemma serve_law:
  assumes "fp_serve ops s = (go, s')" and "fp_inv s" and "fp_armed s" and "fp_ready s"
  shows "fp_inv s' \<and> (go \<longrightarrow> fp_armed s')"
  using serve_cases [of ops s]
proof cases
  case unreachable
  then show ?thesis using assms(1,2) fp_queues_inv [OF fault_frame(1,2)] by auto
next
  case (ran raw dst s1 r c s2 s3)
  have i3: "fp_inv s3"
    using execute_law(1) [OF ran(5)] assms(2) fp_queues_inv [OF ran(1,2)] fp_queues_inv [OF ran(6,7)] by simp
  then have fl: "fp_inv (fp_fault s3)" by (simp only: fp_queues_inv [OF fault_frame(1,2)])
  have sc: "fp_valid (fp_publish ops dst (gc_cid (guest_cmd raw)) c st s3) \<and> fp_armed s3" if "r = SC st" for st
  proof -
    have e: "fp_queues s3 = fp_queues s" "fp_armed s3" using execute_law(2) [OF ran(5)] that ran assms(3) by auto
    have "fp_ready s3" using assms(4) ready_queues [OF e(1)] by simp
    then show ?thesis using armed_valid [OF i3 e(2)] e by (simp add: fp_ready_nat publish_valid)
  qed
  show ?thesis using ran(10) assms(1) i3 fl sc by (cases r) (auto simp: publish_queues fp_inv_def)
qed

lemma loop_inv: "fp_inv s \<Longrightarrow> fp_armed s \<Longrightarrow> fp_inv (fp_loop ops n s)"
proof (induction n arbitrary: s)
  case (Suc n)
  obtain go s1 where v: "fp_serve ops s = (go, s1)" by (rule prod.exhaust)
  show ?case using Suc serve_law [OF v Suc.prems] by (auto simp: v)
qed simp

lemma process_inv: "fp_inv s \<Longrightarrow> fp_inv (nwoas_nvme_fastpath_process ops n s)"
  using loop_inv [of s n] by (simp add: nwoas_nvme_fastpath_process_def fp_queues_inv [OF settle_frame(1,2)])

lemma poll_inv: "fp_inv s \<Longrightarrow> fp_inv (nwoas_nvme_fastpath_poll ops s)"
  using process_inv by (simp add: nwoas_nvme_fastpath_poll_def)

end

section \<open>Registers\<close>

lemma probe_frame:
  "fp_queues (nwoas_nvme_probe_cq_map ops ctx s) = fp_queues s"
  "fp_armed (nwoas_nvme_probe_cq_map ops ctx s) = fp_armed s"
  "fp_faulted (nwoas_nvme_probe_cq_map ops ctx s) = fp_faulted s"
  by (simp_all add: nwoas_nvme_probe_cq_map_def Let_def fp_queues_def split: prod.splits)

lemma errors_frame:
  "fp_queues (s\<lparr>fp_errors := e\<rparr>) = fp_queues s" "fp_armed (s\<lparr>fp_errors := e\<rparr>) = fp_armed s" "fp_faulted (s\<lparr>fp_errors := e\<rparr>) = fp_faulted s"
  by (simp_all add: fp_queues_def)

lemma deferred_frame:
  "fp_queues (s\<lparr>fp_deferred := e\<rparr>) = fp_queues s" "fp_armed (s\<lparr>fp_deferred := e\<rparr>) = fp_armed s" "fp_faulted (s\<lparr>fp_deferred := e\<rparr>) = fp_faulted s"
  by (simp_all add: fp_queues_def)

lemma mask_access_frame:
  assumes "fp_mask_access ops off v w s = (v', s')"
  shows "fp_queues s' = fp_queues s" and "fp_armed s' = fp_armed s" and "fp_faulted s' = fp_faulted s"
  using assms by (auto simp: fp_mask_access_def Let_def nwoas_nvme_fastpath_update_irq_def fp_queues_def split: if_splits)

lemma doorbell_value:
  assumes "(v :: u64) < ucast (n :: u16)"
  shows "unat (ucast v :: u16) = unat v" and "unat v < unat n"
proof -
  have b: "unat n < 2 ^ LENGTH(16)" by (rule unsigned_less)
  have n: "unat (ucast n :: u64) = unat n" by (rule unat_ucast_small) (use b in simp)
  show lt: "unat v < unat n" using assms n by (simp add: word_less_nat_alt)
  show "unat (ucast v :: u16) = unat v" using lt b by (intro unat_ucast_small) simp
qed

lemma cq_doorbell_law:
  assumes "fp_inv s" and "fp_armed s"
  shows "fp_inv (fp_cq_doorbell ops ctx v s) \<and> fp_armed (fp_cq_doorbell ops ctx v s) \<and>
      fp_faulted (fp_cq_doorbell ops ctx v s) = fp_faulted s"
proof -
  define p where "p = nwoas_nvme_probe_cq_map ops ctx s"
  define t where "t = p\<lparr>fp_diag := (fp_diag p)\<lparr>dg_cq_ack_writes := dg_cq_ack_writes (fp_diag p) + 1\<rparr>\<rparr>"
  have t: "fp_queues t = fp_queues s" "fp_armed t" "fp_faulted t = fp_faulted s"
    by (simp_all add: t_def p_def diag_frame probe_frame assms)
  have valid: "fp_valid t" using armed_valid [OF assms] fp_queues_valid [OF t(1)] by simp
  define u where "u = fp_retire_cq (ucast v) t"
  define w where "w = u\<lparr>fp_deferred := (fp_sq_head t \<noteq> fp_sq_tail t)\<rparr>"
  have u: "fp_inv u \<and> fp_armed u \<and> fp_faulted u = fp_faulted s" if "v < ucast (fp_cq_size t)" "fp_consumed (ucast v) t \<le> unat (fp_cq_pending t)"
  proof -
    have "fp_cq_ok u" unfolding u_def
      by (rule fp_retire_cursor(1)) (use valid doorbell_value [OF that(1)] that(2) in \<open>simp_all add: fp_valid_def\<close>)
    then show ?thesis using valid t by (simp add: fp_inv_def fp_valid_def) (simp add: u_def fp_retire_cq_def)
  qed
  have "fp_cq_doorbell ops ctx v s = (if v < ucast (fp_cq_size t)
      then if fp_consumed (ucast v) t \<le> unat (fp_cq_pending t) then nwoas_nvme_fastpath_update_irq ops w
        else t\<lparr>fp_errors := fp_errors t + 1\<rparr> else t\<lparr>fp_errors := fp_errors t + 1\<rparr>)"
    unfolding fp_cq_doorbell_def Let_def p_def [symmetric] t_def [symmetric] u_def [symmetric] w_def [symmetric] ..
  moreover have "fp_inv (t\<lparr>fp_errors := e\<rparr>) \<and> fp_armed (t\<lparr>fp_errors := e\<rparr>) \<and> fp_faulted (t\<lparr>fp_errors := e\<rparr>) = fp_faulted s" for e
    unfolding fp_queues_inv [OF errors_frame(1,2)] using valid t by (simp add: fp_inv_def)
  moreover have "fp_inv w \<and> fp_armed w \<and> fp_faulted w = fp_faulted s" if "fp_inv u \<and> fp_armed u \<and> fp_faulted u = fp_faulted s"
    using that unfolding w_def fp_queues_inv [OF deferred_frame(1,2)] by simp
  ultimately show ?thesis using u by (simp add: update_irq_frame fp_queues_inv [OF update_irq_frame(1,2)])
qed

context link_host
begin

lemma sq_doorbell_inv:
  assumes "fp_inv s" and "fp_armed s"
  shows "fp_inv (fp_sq_doorbell ops v s)"
proof (cases "v < ucast (fp_sq_size s)")
  case True
  define t where "t = s\<lparr>fp_sq_tail := ucast v,
      fp_diag := (fp_diag s)\<lparr>dg_max_sq_backlog := max (word_of_nat ((unat (ucast v :: u16) + unat (fp_sq_size s) - unat (fp_sq_head s)) mod unat (fp_sq_size s))) (dg_max_sq_backlog (fp_diag s))\<rparr>,
      fp_deferred := (fp_sq_head s \<noteq> ucast v)\<rparr>"
  have "fp_valid t" using armed_valid [OF assms] doorbell_value [OF True] by (simp add: t_def fp_valid_def fp_cq_ok_def)
  then have "fp_inv t" by (simp add: fp_inv_def)
  moreover have "fp_sq_doorbell ops v s = nwoas_nvme_fastpath_process ops 1 t"
    using True by (simp add: fp_sq_doorbell_def Let_def t_def)
  ultimately show ?thesis using process_inv by simp
next
  case False
  have "fp_inv (s\<lparr>fp_errors := fp_errors s + 1\<rparr>)" using assms fp_queues_inv [OF errors_frame(1,2)] by blast
  then show ?thesis using False by (simp add: fp_sq_doorbell_def)
qed

lemma mmio_inv:
  assumes "nwoas_nvme_fastpath_mmio ops ctx ipa v write width s = (b, v', s')" and "fp_inv s"
  shows "fp_inv s'"
proof -
  obtain mv ms where m: "fp_mask_access ops (ipa - NWOAS_NVME_BAR) v write s = (mv, ms)" by (rule prod.exhaust)
  have "fp_inv ms" using assms(2) fp_queues_inv [OF mask_access_frame(1,2) [OF m]] by simp
  moreover have "s' = s \<or> s' = ms \<or> fp_armed s \<and> (s' = fp_sq_doorbell ops v s \<or> s' = fp_cq_doorbell ops ctx v s)"
    using assms(1) unfolding nwoas_nvme_fastpath_mmio_def Let_def m prod.case by (auto split: if_splits)
  ultimately show ?thesis using assms(2) sq_doorbell_inv cq_doorbell_law by blast
qed

end

section \<open>Reachable states\<close>

text \<open>The static structures at boot, and every entry point of the fast path; the machine changes between them.\<close>

definition fp_boot :: "'h \<Rightarrow> 'h nvme_fp" where
  "fp_boot h =
     \<lparr>fp_armed = False, fp_faulted = False, fp_deferred = False, fp_irq_enabled = False, fp_cache_enabled = False,
      fp_link_busy = False, fp_local_mask_allowed = False, fp_mask = 0, fp_sq_base = 0, fp_cq_base = 0,
      fp_sq_size = 0, fp_cq_size = 0, fp_sq_head = 0, fp_sq_tail = 0, fp_cq_head = 0, fp_cq_tail = 0,
      fp_cq_pending = 0, fp_cq_phase = 0, fp_commands = 0, fp_errors = 0, fp_link_sequence = 0,
      fp_lifecycle_epoch = 0, fp_sq_generation = 0, fp_cq_generation = 0,
      fp_diag = \<lparr>dg_max_ns1_ticks = 0, dg_max_ns2_ticks = 0, dg_in_flight_since = 0, dg_in_flight_nsid = 0,
        dg_ns1_calls = 0, dg_ns2_calls = 0, dg_max_sq_backlog = 0, dg_cq_ack_writes = 0,
        dg_local_mask_reads = 0, dg_local_mask_writes = 0\<rparr>,
      fp_cq_map = \<lparr>cm_va = 0, cm_ipa = 0, cm_par_s1 = 0, cm_par_s12 = 0, cm_s2 = 0, cm_context = 0, cm_pc = 0,
        cm_attempts = 0, cm_found = False\<rparr>,
      fp_hw = h\<rparr>"

inductive fp_reach :: "'h fp_ops \<Rightarrow> 'h nvme_fp \<Rightarrow> bool" for ops where
  fp_start: "fp_reach ops (fp_boot h)"
| fp_env: "fp_reach ops s \<Longrightarrow> fp_reach ops (s\<lparr>fp_hw := h\<rparr>)"
| fp_control: "fp_reach ops s \<Longrightarrow> fp_reach ops (snd (nwoas_nvme_fastpath_control ops action sb sn cb cn flags s))"
| fp_mmio: "fp_reach ops s \<Longrightarrow> fp_reach ops (snd (snd (nwoas_nvme_fastpath_mmio ops ctx ipa v write width s)))"
| fp_poll: "fp_reach ops s \<Longrightarrow> fp_reach ops (nwoas_nvme_fastpath_poll ops s)"

context link_host
begin

lemma reach_inv: "fp_reach ops s \<Longrightarrow> fp_inv s"
proof (induction rule: fp_reach.induct)
  case (fp_start h)
  show ?case by (simp add: fp_boot_def fp_inv_def)
next
  case (fp_env s h)
  then show ?case by (simp only: fp_queues_inv [OF hw_frame(1,2)])
next
  case (fp_mmio s ctx ipa v wr width)
  obtain b v' s' where m: "nwoas_nvme_fastpath_mmio ops ctx ipa v wr width s = (b, v', s')" by (metis prod_cases3)
  show ?case using mmio_inv [OF m fp_mmio.IH] by (simp add: m)
qed (simp_all add: control_law(1) poll_inv)

end

end
