(* ===== verification/Fastpath_Properties.thy ===== *)
theory Fastpath_Properties
  imports Fastpath_Invariant
begin

text \<open>
  The properties of the NVMe fast path: its reachable states, the write window, the fault latch,
  completions in order, and that polling drains the submission queue.
\<close>

section \<open>A small machine\<close>

text \<open>
  One guest page, at 0x4000, holding a submission queue of four entries and a completion queue of
  four; every submitted command is a flush of the first namespace. The machine state is the list of
  memory writes, newest first.
\<close>

definition small_pt :: hv_pt where
  "small_pt = \<lparr>vaddr_bits = 36, hv_Ltop = Top_L2 (\<lambda>i. if i = 0 then L2_Tab (\<lambda>j. if j = 1 then L3_Desc 0x900000000 else L3_Desc 0) else L2_Desc 0)\<rparr>"

definition small_ops :: "(u64 \<times> bytes) list fp_ops" where
  "small_ops =
     \<lparr>fo_tables = (\<lambda>h. small_pt), fo_ram_base = 0x800000000, fo_mem_size = 0x200000000,
      fo_read = (\<lambda>a n h. [0, 0, 7, 0, 1] @ replicate (n - 5) 0), fo_write = (\<lambda>a b h. (a, b) # h),
      fo_flush = (\<lambda>h. (True, h)), fo_rw_guest = (\<lambda>w l n p1 p2 h. (GUEST_OK, h)), fo_proxy = (\<lambda>req s. (req, s)),
      fo_set_irq = (\<lambda>l h. h), fo_now = (\<lambda>h. 0), fo_probe_at = (\<lambda>a c h. (0, 1)),
      fo_link_magic = 0, fo_link_version = 0, fo_link_done = 0\<rparr>"

definition small_armed :: "(u64 \<times> bytes) list nvme_fp" where
  "small_armed = snd (nwoas_nvme_fastpath_control small_ops 1 0x4000 4 0x5000 4 3 (fp_boot []))"

lemma small_walk: "hv_pt_walk small_pt 0x4000 = Some 0x900000000"
  by (simp add: hv_pt_walk_def small_pt_def l1_index_def l2_index_def l3_index_def walk_l2_def walk_l3_def as_l3_def as_l4_def
      mask_eq_exp_minus_1 L3_IS_TABLE_def IS_SW_def IS_HW_def PTE_TYPE_def PTE_VALID_def l3_result_def L3_IS_SW_BLOCK_def
      L3_IS_HW_BLOCK_def spte_type_def GENMASK_def SPTE_MAP_def VADDR_L3_ALIGN_MASK_def)

lemma small_memory: "fp_arm_memory small_ops 0x4000 4 0x5000 4 h"
  by (simp add: fp_arm_memory_def nwoas_nvme_guest_ptr_def fp_translate_def small_ops_def nwoas_ipa_to_pa_def mask_eq_exp_minus_1
      small_walk nwoas_in_dram_def PTE_TARGET_MASK_def GENMASK_def) (simp add: small_pt_def)

lemma small_reach: "fp_reach small_ops small_armed"
  unfolding small_armed_def by (rule fp_control [OF fp_start])

lemma arming_action: "\<not> (3 :: u64) \<le> 1"
  by (simp add: word_le_nat_alt)

lemma small_is_armed: "fp_armed small_armed"
  by (simp add: small_armed_def arming_action nwoas_nvme_fastpath_control_def fp_arm_args_def NWOAS_NVME_MAX_IO_DEPTH_def small_memory
      fp_boot_def nwoas_nvme_fastpath_update_irq_def fp_arm_def fp_policy_def Let_def)

lemma small_host: "link_host small_ops"
  by unfold_locales (use host_idle in \<open>auto simp: small_ops_def intro!: exI [of _ 0]\<close>)

definition small_busy :: "(u64 \<times> bytes) list nvme_fp" where
  "small_busy = small_armed\<lparr>fp_sq_tail := 2, fp_cq_tail := 1, fp_cq_pending := 1, fp_deferred := True\<rparr>"

lemma small_busy_fields:
  "fp_sq_size small_busy = 4" "fp_sq_head small_busy = 0" "fp_sq_tail small_busy = 2" "fp_cq_size small_busy = 4"
  "fp_cq_head small_busy = 0" "fp_cq_tail small_busy = 1" "fp_cq_pending small_busy = 1" "fp_cq_phase small_busy = 1"
  "fp_armed small_busy" "\<not> fp_faulted small_busy" "\<not> fp_link_busy small_busy" "fp_deferred small_busy"
  by (simp_all add: small_busy_def small_armed_def nwoas_nvme_fastpath_control_def fp_arm_args_def NWOAS_NVME_MAX_IO_DEPTH_def
      small_memory arming_action fp_boot_def nwoas_nvme_fastpath_update_irq_def fp_arm_def fp_policy_def Let_def)

lemma small_busy_valid: "fp_valid small_busy"
  by (simp add: fp_valid_def fp_cq_ok_def small_busy_fields)

section \<open>Reachable states\<close>

text \<open>
  C12. In every state the fast path can reach, through any sequence of control calls, register
  accesses and polls, with a host that makes any control calls while a request of the second
  namespace is out, an armed fast path has queues of 2 to 256 entries, cursors inside them, at least
  one free completion slot, and a completion tail that is the head plus the outstanding entries.
\<close>

theorem fastpath_reachable_invariant:
  assumes "link_host ops" and "fp_reach ops s" and "fp_armed s"
  shows "2 \<le> unat (fp_sq_size s) \<and> unat (fp_sq_size s) \<le> 256 \<and> unat (fp_sq_head s) < unat (fp_sq_size s) \<and>
     unat (fp_sq_tail s) < unat (fp_sq_size s) \<and> 2 \<le> unat (fp_cq_size s) \<and> unat (fp_cq_size s) \<le> 256 \<and>
     unat (fp_cq_head s) < unat (fp_cq_size s) \<and> unat (fp_cq_pending s) < unat (fp_cq_size s) \<and>
     unat (fp_cq_tail s) = (unat (fp_cq_head s) + unat (fp_cq_pending s)) mod unat (fp_cq_size s)"
  using armed_valid [OF link_host.reach_inv [OF assms(1,2)] assms(3)] by (simp add: fp_valid_def fp_cq_ok_def)

theorem fastpath_reachable_invariant_witness:
  "link_host small_ops \<and> fp_reach small_ops small_armed \<and> fp_armed small_armed \<and>
   unat (fp_cq_pending small_armed) < unat (fp_cq_size small_armed)"
  using fastpath_reachable_invariant [OF small_host small_reach small_is_armed] small_host small_reach small_is_armed by simp

section \<open>Completions in order\<close>

text \<open>The slots of the completions the guest has not acknowledged, oldest first.\<close>

definition fp_outstanding :: "'h nvme_fp \<Rightarrow> nat list" where
  "fp_outstanding s = map (\<lambda>i. (unat (fp_cq_head s) + i) mod unat (fp_cq_size s)) [0..<unat (fp_cq_pending s)]"

lemma outstanding_slots: "fp_outstanding s = io_cq.slots s"
  by (simp add: fp_outstanding_def io_cq.slots_def)

lemma outstanding_queues: "fp_queues s' = fp_queues s \<Longrightarrow> fp_outstanding s' = fp_outstanding s"
  by (simp add: fp_queues_def fp_outstanding_def)

lemma outstanding_next_sq: "fp_outstanding (fp_next_sq s) = fp_outstanding s"
  by (simp add: fp_outstanding_def fp_next_sq_def)

lemma publish_outstanding:
  assumes "fp_valid s" and "fp_ready s"
  shows "fp_outstanding (fp_publish ops dst cid result status s) = fp_outstanding s @ [unat (fp_cq_tail s)]"
    and "unat (fp_cq_tail s) \<notin> set (fp_outstanding s)"
proof -
  let ?n = "fp_next_sq s"
  have ok: "fp_cq_ok ?n" using next_sq_valid(1) [OF assms(1)] by (simp add: fp_valid_def)
  have room: "unat (fp_cq_pending ?n) + 1 < unat (fp_cq_size ?n)" using assms(2) by (simp add: fp_ready_nat fp_next_sq_def)
  have "fp_cq_tail ?n = fp_cq_tail s" by (simp add: fp_next_sq_def)
  then show "fp_outstanding (fp_publish ops dst cid result status s) = fp_outstanding s @ [unat (fp_cq_tail s)]"
    "unat (fp_cq_tail s) \<notin> set (fp_outstanding s)"
    using io_cq.slots_push [OF ok room] unfolding outstanding_queues [OF publish_queues(1)] outstanding_slots [symmetric] outstanding_next_sq
    by simp_all
qed

lemma doorbell_outstanding:
  assumes "fp_valid s"
  shows "fp_outstanding (fp_cq_doorbell ops ctx v s) =
     (if v < ucast (fp_cq_size s) \<and> fp_consumed (ucast v) s \<le> unat (fp_cq_pending s)
      then drop (fp_consumed (ucast v) s) (fp_outstanding s) else fp_outstanding s)"
proof -
  define p where "p = nwoas_nvme_probe_cq_map ops ctx s"
  define t where "t = p\<lparr>fp_diag := (fp_diag p)\<lparr>dg_cq_ack_writes := dg_cq_ack_writes (fp_diag p) + 1\<rparr>\<rparr>"
  have t: "fp_queues t = fp_queues s" by (simp add: t_def p_def diag_frame probe_frame)
  have c: "fp_consumed x t = fp_consumed x s" for x using t by (simp add: fp_consumed_def fp_queues_def)
  have ok: "fp_cq_ok t" using assms fp_queues_valid [OF t] by (simp add: fp_valid_def)
  have f: "fp_cq_size t = fp_cq_size s" "fp_cq_pending t = fp_cq_pending s" using t by (simp_all add: fp_queues_def)
  have ret: "fp_outstanding (fp_retire_cq (ucast v) t) = drop (fp_consumed (ucast v) t) (fp_outstanding t)"
    if "v < ucast (fp_cq_size t)" "fp_consumed (ucast v) t \<le> unat (fp_cq_pending t)"
  proof -
    have u: "unat (ucast v :: u16) = unat v" "unat v < unat (fp_cq_size t)" using doorbell_value [OF that(1)] .
    have n: "fp_consumed (ucast v) t = (unat v + unat (fp_cq_size t) - unat (fp_cq_head t)) mod unat (fp_cq_size t)"
      by (simp add: fp_consumed_def u(1))
    show ?thesis using io_cq.slots_retire [OF ok u(2)] that(2) unfolding n outstanding_slots by simp
  qed
  have e: "fp_outstanding (x\<lparr>fp_errors := k\<rparr>) = fp_outstanding x" "fp_outstanding (x\<lparr>fp_deferred := b\<rparr>) = fp_outstanding x"
    "fp_outstanding (nwoas_nvme_fastpath_update_irq ops x) = fp_outstanding x" for x :: "'a nvme_fp" and k b
    by (rule outstanding_queues, simp add: errors_frame deferred_frame update_irq_frame)+
  show ?thesis
    using ret outstanding_queues [OF t] unfolding fp_cq_doorbell_def Let_def p_def [symmetric] t_def [symmetric] c f
    by (auto simp: e)
qed

text \<open>
  C4. The outstanding completions form a first-in first-out queue.  Publishing a completion
  appends the tail slot, which no outstanding completion occupies; an acknowledgement that stays
  within the outstanding entries removes exactly that many from the front, and any other
  acknowledgement removes none.
\<close>

theorem fastpath_completions_fifo:
  assumes "fp_valid s"
  shows "(fp_ready s \<longrightarrow>
       fp_outstanding (fp_publish ops dst cid result status s) = fp_outstanding s @ [unat (fp_cq_tail s)] \<and>
       unat (fp_cq_tail s) \<notin> set (fp_outstanding s)) \<and>
     fp_outstanding (fp_cq_doorbell ops ctx v s) =
       (if v < ucast (fp_cq_size s) \<and> fp_consumed (ucast v) s \<le> unat (fp_cq_pending s)
        then drop (fp_consumed (ucast v) s) (fp_outstanding s) else fp_outstanding s) \<and>
     distinct (fp_outstanding s) \<and> length (fp_outstanding s) = unat (fp_cq_pending s)"
proof -
  have "distinct (fp_outstanding s)"
    using assms io_cq.slots_distinct unfolding outstanding_slots fp_valid_def by blast
  then show ?thesis
    using publish_outstanding [OF assms] doorbell_outstanding [OF assms] by (simp add: fp_outstanding_def)
qed

theorem fastpath_completions_fifo_witness:
  "fp_valid small_busy \<and> fp_ready small_busy \<and>
   fp_outstanding (fp_publish small_ops 0x900001010 7 0 0 small_busy) = [0, 1]"
proof -
  have "fp_ready small_busy" by (simp add: fp_ready_nat small_busy_fields)
  moreover have "fp_outstanding small_busy = [0]" by (simp add: fp_outstanding_def small_busy_fields)
  ultimately show ?thesis
    using fastpath_completions_fifo [OF small_busy_valid, of small_ops "0x900001010" 7 0 0] small_busy_valid
    by (simp add: small_busy_fields)
qed

section \<open>Draining the queue\<close>















text \<open>
  Polling needs the deferred flag.  Disabling clears it and arming again, even of the same queues
  with commands still in them, does not set it: such commands wait for the next doorbell.
\<close>

lemma rearm_not_deferred:
  "\<not> fp_deferred (snd (nwoas_nvme_fastpath_control ops 1 sb sn cb cn flags (snd (nwoas_nvme_fastpath_control ops 0 x1 x2 x3 x4 x5 s))))"
proof -
  have off: "\<not> fp_deferred (snd (nwoas_nvme_fastpath_control ops 0 x1 x2 x3 x4 x5 s))"
    by (simp add: nwoas_nvme_fastpath_control_def update_irq_frame)
  have "fp_deferred (snd (nwoas_nvme_fastpath_control ops 1 sb sn cb cn flags t)) = fp_deferred t" for t
    by (simp add: nwoas_nvme_fastpath_control_def arming_action update_irq_frame fp_arm_def fp_policy_def Let_def)
  then show ?thesis using off by simp
qed

section \<open>The write window\<close>

text \<open>The requests the drive may be given: inside the namespace, and writes inside the window.\<close>

definition permitted_io :: "bool \<Rightarrow> u64 \<Rightarrow> u32 \<Rightarrow> bool" where
  "permitted_io wr lba n \<longleftrightarrow> 1 \<le> unat n \<and> unat n \<le> 65536 \<and> unat lba + unat n \<le> 61279344 \<and>
     (wr \<longrightarrow> 53839104 \<le> unat lba \<and> unat lba + unat n \<le> 59968630)"

text \<open>A drive that misbehaves on every other request.\<close>

definition guarded_drive ::
  "(bool \<Rightarrow> u64 \<Rightarrow> u32 \<Rightarrow> u64 \<Rightarrow> u64 \<Rightarrow> 'h \<Rightarrow> guest_io \<times> 'h) \<Rightarrow> 'h fp_ops \<Rightarrow> 'h fp_ops" where
  "guarded_drive bad ops =
     ops\<lparr>fo_rw_guest := (\<lambda>wr lba n p1 p2 h. if permitted_io wr lba n then fo_rw_guest ops wr lba n p1 p2 h else bad wr lba n p1 p2 h)\<rparr>"

lemma guarded_fields:
  "fo_tables (guarded_drive bad ops) = fo_tables ops" "fo_ram_base (guarded_drive bad ops) = fo_ram_base ops"
  "fo_mem_size (guarded_drive bad ops) = fo_mem_size ops" "fo_read (guarded_drive bad ops) = fo_read ops"
  "fo_write (guarded_drive bad ops) = fo_write ops" "fo_flush (guarded_drive bad ops) = fo_flush ops"
  "fo_proxy (guarded_drive bad ops) = fo_proxy ops" "fo_set_irq (guarded_drive bad ops) = fo_set_irq ops"
  "fo_now (guarded_drive bad ops) = fo_now ops" "fo_probe_at (guarded_drive bad ops) = fo_probe_at ops"
  "fo_link_magic (guarded_drive bad ops) = fo_link_magic ops" "fo_link_version (guarded_drive bad ops) = fo_link_version ops"
  "fo_link_done (guarded_drive bad ops) = fo_link_done ops"
  by (simp_all add: guarded_drive_def)

lemma cmd_count_bounds: "1 \<le> unat (cmd_count cmd)" "unat (cmd_count cmd) \<le> 65536"
proof -
  have "gc_cdw12 cmd AND 0xffff = take_bit 16 (gc_cdw12 cmd)" by (simp add: take_bit_eq_mask mask_eq_exp_minus_1)
  then have u: "unat (gc_cdw12 cmd AND 0xffff) < 65536" by (simp add: unat_take)
  then have "unat (cmd_count cmd) = unat (gc_cdw12 cmd AND 0xffff) + 1"
    unfolding cmd_count_def by (subst unat_add_small) simp_all
  then show "1 \<le> unat (cmd_count cmd)" "unat (cmd_count cmd) \<le> 65536" using u by simp_all
qed

lemma guards_permit:
  assumes "\<not> (lba \<ge> NWOAS_NVME_NAMESPACE_LBAS \<or> ucast n > NWOAS_NVME_NAMESPACE_LBAS - lba)"
    and "\<not> (wr \<and> (lba < NWOAS_NVME_WRITE_FIRST_LBA \<or> lba + ucast n - 1 > NWOAS_NVME_WRITE_LAST_LBA))"
    and "1 \<le> unat n" and "unat n \<le> 65536"
  shows "permitted_io wr lba (n :: u32)"
proof -
  have un: "unat (ucast n :: u64) = unat n" using assms(4) by (simp add: unat_ucast_small)
  have l: "unat lba < 61279344" using assms(1) by (simp add: NWOAS_NVME_NAMESPACE_LBAS_def word_le_nat_alt)
  then have "unat (61279344 - lba) = 61279344 - unat lba" by (simp add: unat_diff_small word_le_nat_alt)
  then have range: "unat lba + unat n \<le> 61279344"
    using assms(1) un l by (auto simp: NWOAS_NVME_NAMESPACE_LBAS_def word_less_nat_alt)
  have "unat (lba + ucast n) = unat lba + unat n" using range un by (simp add: unat_add_small)
  moreover from this have "(1 :: u64) \<le> lba + ucast n" using assms(3) by (simp add: word_le_nat_alt)
  ultimately have "unat (lba + ucast n - 1) = unat lba + unat n - 1" by (simp add: unat_diff_small)
  then have "53839104 \<le> unat lba \<and> unat lba + unat n \<le> 59968630" if wr
    using assms(2) that by (auto simp: NWOAS_NVME_WRITE_FIRST_LBA_def NWOAS_NVME_WRITE_LAST_LBA_def word_less_nat_alt)
  then show ?thesis using assms(3,4) range by (simp add: permitted_io_def)
qed

lemma guarded_rw: "fp_rw (guarded_drive bad ops) cmd s = fp_rw ops cmd s"
proof -
  have fl: "fp_flush (guarded_drive bad ops) = fp_flush ops" by (rule ext) (simp add: fp_flush_def guarded_drive_def)
  define inv where "inv \<longleftrightarrow> gc_cdw12 cmd AND 0x3fff0000 \<noteq> 0 \<or>
      (if gc_opcode cmd = 1 then gc_cdw13 cmd AND NOT 0xff else gc_cdw13 cmd) \<noteq> 0 \<or> gc_cdw14 cmd \<noteq> 0 \<or> gc_cdw15 cmd \<noteq> 0"
  define out where "out \<longleftrightarrow> cmd_lba cmd \<ge> NWOAS_NVME_NAMESPACE_LBAS \<or> ucast (cmd_count cmd) > NWOAS_NVME_NAMESPACE_LBAS - cmd_lba cmd"
  define ro where "ro \<longleftrightarrow> gc_opcode cmd = 1 \<and> (cmd_lba cmd < NWOAS_NVME_WRITE_FIRST_LBA \<or>
      cmd_lba cmd + ucast (cmd_count cmd) - 1 > NWOAS_NVME_WRITE_LAST_LBA)"
  have "permitted_io (gc_opcode cmd = 1) (cmd_lba cmd) (cmd_count cmd)" if "\<not> out" "\<not> ro"
    using guards_permit that cmd_count_bounds unfolding out_def ro_def by blast
  then have eq: "fo_rw_guest (guarded_drive bad ops) (gc_opcode cmd = 1) (cmd_lba cmd) (cmd_count cmd) = 
      fo_rw_guest ops (gc_opcode cmd = 1) (cmd_lba cmd) (cmd_count cmd)" if "\<not> out" "\<not> ro"
    using that by (intro ext) (simp add: guarded_drive_def)
  show ?thesis
    unfolding fp_rw_def Let_def fl inv_def [symmetric] out_def [symmetric] ro_def [symmetric]
    by (cases inv; cases out; cases ro) (simp_all add: eq)
qed

lemma guarded_execute: "nwoas_nvme_fastpath_execute (guarded_drive bad ops) = nwoas_nvme_fastpath_execute ops"
proof (intro ext)
  fix raw cmd s
  have "fp_flush (guarded_drive bad ops) s = fp_flush ops s" by (simp add: fp_flush_def guarded_fields)
  moreover have "nwoas_nvme_link_execute (guarded_drive bad ops) raw cmd s = nwoas_nvme_link_execute ops raw cmd s"
    unfolding nwoas_nvme_link_execute_def guarded_fields ..
  ultimately show "nwoas_nvme_fastpath_execute (guarded_drive bad ops) raw cmd s = nwoas_nvme_fastpath_execute ops raw cmd s"
    unfolding nwoas_nvme_fastpath_execute_def guarded_rw by simp
qed

lemma guarded_process: "nwoas_nvme_fastpath_process (guarded_drive bad ops) = nwoas_nvme_fastpath_process ops"
proof (intro ext)
  fix n s
  have ptr: "nwoas_nvme_guest_ptr (guarded_drive bad ops) = nwoas_nvme_guest_ptr ops"
    by (intro ext) (simp add: nwoas_nvme_guest_ptr_def fp_translate_def guarded_fields)
  have serve: "fp_serve (guarded_drive bad ops) t = fp_serve ops t" for t
    unfolding fp_serve_def ptr guarded_execute guarded_fields fp_publish_def Let_def ..
  have "fp_loop (guarded_drive bad ops) n t = fp_loop ops n t" for t
    by (induction n arbitrary: t) (simp_all add: serve split: prod.splits)
  moreover have "fp_settle (guarded_drive bad ops) t = fp_settle ops t" for t
    by (simp add: fp_settle_def nwoas_nvme_fastpath_update_irq_def guarded_fields)
  ultimately show "nwoas_nvme_fastpath_process (guarded_drive bad ops) n s = nwoas_nvme_fastpath_process ops n s"
    by (simp add: nwoas_nvme_fastpath_process_def)
qed

text \<open>
  C2. Write protection: whatever the drive does on a request outside the namespace, or on a write
  outside the Windows test window (blocks 53839104 to 59968629), no register access and no poll of
  the fast path can tell. No command a guest puts into the queue reaches the drive with such a request.
\<close>

theorem fastpath_write_window:
  "nwoas_nvme_fastpath_mmio (guarded_drive bad ops) ctx ipa v write width s = nwoas_nvme_fastpath_mmio ops ctx ipa v write width s \<and>
   nwoas_nvme_fastpath_poll (guarded_drive bad ops) s = nwoas_nvme_fastpath_poll ops s"
proof -
  have irq: "nwoas_nvme_fastpath_update_irq (guarded_drive bad ops) = nwoas_nvme_fastpath_update_irq ops"
    by (intro ext) (simp add: nwoas_nvme_fastpath_update_irq_def guarded_fields)
  have "fp_mask_access (guarded_drive bad ops) = fp_mask_access ops"
    unfolding fp_mask_access_def irq ..
  moreover have "fp_sq_doorbell (guarded_drive bad ops) = fp_sq_doorbell ops"
    unfolding fp_sq_doorbell_def guarded_process ..
  moreover have "nwoas_nvme_probe_cq_map (guarded_drive bad ops) = nwoas_nvme_probe_cq_map ops"
    unfolding nwoas_nvme_probe_cq_map_def fp_translate_def guarded_fields ..
  then have "fp_cq_doorbell (guarded_drive bad ops) = fp_cq_doorbell ops"
    unfolding fp_cq_doorbell_def irq by simp
  ultimately show ?thesis
    unfolding nwoas_nvme_fastpath_mmio_def nwoas_nvme_fastpath_poll_def guarded_process by (simp cong: if_cong)
qed

section \<open>The fault latch\<close>

text \<open>
  C9. Once a physical command has been lost or a queue entry could not be reached, the fault is
  final: no control call, register access or poll clears it, a poll and a submission doorbell run
  nothing and touch no memory, arming is refused, and the guest reads a ready controller with a
  fatal status.
\<close>

theorem fastpath_fault_latch:
  assumes "fp_faulted s"
  shows "fp_faulted (snd (nwoas_nvme_fastpath_control ops action sb sn cb cn flags s)) \<and>
     fp_faulted (snd (snd (nwoas_nvme_fastpath_mmio ops ctx ipa v write width s))) \<and>
     nwoas_nvme_fastpath_process ops n s = s \<and> nwoas_nvme_fastpath_poll ops s = s \<and>
     nwoas_nvme_fastpath_control ops 1 sb sn cb cn flags s = (0, s) \<and>
     fp_hw (snd (snd (nwoas_nvme_fastpath_mmio ops ctx (NWOAS_NVME_BAR + 0x1008) v True 2 s))) = fp_hw s \<and>
     (fp_armed s \<longrightarrow> nwoas_nvme_fastpath_mmio ops ctx (NWOAS_NVME_BAR + 0x1c) v False 2 s = (True, 3, s))"
proof -
  have p: "nwoas_nvme_fastpath_process ops n t = t" if "fp_faulted t" for n t
    using that by (simp add: nwoas_nvme_fastpath_process_def)
  have sq: "fp_faulted (fp_sq_doorbell ops v s) \<and> fp_hw (fp_sq_doorbell ops v s) = fp_hw s"
    using assms by (simp add: fp_sq_doorbell_def Let_def p)
  have cq: "fp_faulted (fp_cq_doorbell ops ctx v s)"
    using assms by (simp add: fp_cq_doorbell_def Let_def update_irq_frame probe_frame fp_retire_cq_def)
  have "fp_faulted (snd (snd (nwoas_nvme_fastpath_mmio ops ctx ipa v write width s)))"
    using assms sq cq by (simp add: nwoas_nvme_fastpath_mmio_def Let_def)
  moreover have "nwoas_nvme_fastpath_control ops 1 sb sn cb cn flags s = (0, s)"
    using assms by (simp add: nwoas_nvme_fastpath_control_def word_le_nat_alt)
  moreover have "nwoas_nvme_fastpath_mmio ops ctx (NWOAS_NVME_BAR + 0x1c) v False 2 s = (True, 3, s)" if "fp_armed s"
    using assms that by (simp add: nwoas_nvme_fastpath_mmio_def NWOAS_NVME_BAR_def NWOAS_NVME_BAR_SIZE_def)
  moreover have "fp_hw (snd (snd (nwoas_nvme_fastpath_mmio ops ctx (NWOAS_NVME_BAR + 0x1008) v True 2 s))) = fp_hw s"
    using assms sq by (simp add: nwoas_nvme_fastpath_mmio_def NWOAS_NVME_BAR_def NWOAS_NVME_BAR_SIZE_def)
  ultimately show ?thesis
    using assms by (simp add: nwoas_nvme_fastpath_poll_def p control_law(3))
qed

definition small_fault :: "(u64 \<times> bytes) list nvme_fp" where
  "small_fault = small_busy\<lparr>fp_faulted := True\<rparr>"

theorem fastpath_fault_latch_witness:
  "fp_faulted small_fault \<and> nwoas_nvme_fastpath_poll small_ops small_fault = small_fault \<and>
   nwoas_nvme_fastpath_control small_ops 1 0x4000 4 0x5000 4 3 small_fault = (0, small_fault)"
proof -
  have f: "fp_faulted small_fault" by (simp add: small_fault_def)
  show ?thesis using fastpath_fault_latch [OF f, of small_ops 1 "0x4000" 4 "0x5000" 4 3] f by blast
qed

end
