(* ===== verification/Cpu_Pstate.thy ===== *)
theory Cpu_Pstate
  imports Mmio_Bus "HOL-Library.Sublist"
begin

text \<open>
  The operating-point helper of the firmware, \<^verbatim>\<open>NwoasCpuPstate.h\<close>: it asks the performance cluster
  for operating point 12 from the validated baseline 7, verifies the outcome from one status read,
  and restores the baseline when the request failed, never claiming more than it has read back.

  The cluster controller is a parameter (two register callbacks and a delay), so the results hold
  for every behaviour of the hardware.  A result pointer that is null only drops the snapshot, which
  is part of the value here.
\<close>

section \<open>Registers\<close>

definition NWOAS_T8103_CHIP_ID :: u32 where "NWOAS_T8103_CHIP_ID = 0x8103"
definition NWOAS_P_CMD_ADDR :: u64 where "NWOAS_P_CMD_ADDR = 0x211e20020"
definition NWOAS_P_STATUS_OFFSET :: u64 where "NWOAS_P_STATUS_OFFSET = 0x30"
definition NWOAS_P_STATUS_ADDR :: u64 where "NWOAS_P_STATUS_ADDR = NWOAS_P_CMD_ADDR + NWOAS_P_STATUS_OFFSET"
definition NWOAS_PS_FIELDS :: u64 where "NWOAS_PS_FIELDS = 0xf01f"
definition NWOAS_PSTATE_SET :: u64 where "NWOAS_PSTATE_SET = push_bit 25 1"
definition NWOAS_PSTATE_BUSY :: u64 where "NWOAS_PSTATE_BUSY = push_bit 31 1"
definition NWOAS_PSTATE_APSC_BUSY :: u64 where "NWOAS_PSTATE_APSC_BUSY = push_bit 7 1"
definition NWOAS_M1_APSC_DIS :: u64 where "NWOAS_M1_APSC_DIS = push_bit 22 1"
definition NWOAS_FIXED_FREQ_PLL_RECLOCK :: u64 where "NWOAS_FIXED_FREQ_PLL_RECLOCK = push_bit 42 1"
definition NWOAS_PROTECTED_BITS :: u64 where "NWOAS_PROTECTED_BITS = NWOAS_M1_APSC_DIS OR NWOAS_FIXED_FREQ_PLL_RECLOCK"
definition NWOAS_PSTATE_P7 :: u32 where "NWOAS_PSTATE_P7 = 7"
definition NWOAS_PSTATE_P12 :: u32 where "NWOAS_PSTATE_P12 = 12"
definition NWOAS_IDLE_ATTEMPTS :: nat where "NWOAS_IDLE_ATTEMPTS = 250"
definition NWOAS_IDLE_DELAY_US :: u32 where "NWOAS_IDLE_DELAY_US = 1"

definition nwoas_cpu_pstate_desired :: "u32 \<Rightarrow> u64" where
  "nwoas_cpu_pstate_desired p = ucast p OR push_bit 12 (ucast p)"

definition nwoas_cpu_pstate_status_current :: "u64 \<Rightarrow> u32" where
  "nwoas_cpu_pstate_status_current st = ucast (drop_bit 4 st AND 0xf)"

definition nwoas_cpu_pstate_status_target :: "u64 \<Rightarrow> u32" where
  "nwoas_cpu_pstate_status_target st = ucast (st AND 0xf)"

section \<open>Interface, status and snapshot\<close>

record 'e nwoas_cpu_pstate_io =
  pio_read64 :: "('e, u64) reg_read option"
  pio_write64 :: "('e, u64) reg_write option"
  pio_delay_us :: "('e \<Rightarrow> u32 \<Rightarrow> 'e) option"
  pio_chip_id :: u32

datatype nwoas_pstate_status = NwoasPstateOk | NwoasPstateInvalidIo | NwoasPstateUnsupportedChip
  | NwoasPstateBaselineBusy | NwoasPstateBaselineNotP7 | NwoasPstateStuckBusy | NwoasPstateReadbackMismatch
  | NwoasPstateProtectedChanged | NwoasPstateStatusMismatch | NwoasPstateRolledBack | NwoasPstateRollbackBusy
  | NwoasPstateRollbackUnverified | NwoasPstateRollbackFailed

record nwoas_cpu_pstate_result =
  psr_status :: nwoas_pstate_status
  psr_initial_status :: nwoas_pstate_status
  psr_rollback_status :: nwoas_pstate_status
  psr_baseline_cmd :: u64
  psr_requested_cmd :: u64
  psr_final_cmd :: u64
  psr_final_status :: u64
  psr_final_current :: u32
  psr_final_target :: u32
  psr_apsc_busy :: bool
  psr_protected_preserved :: bool
  psr_rollback_attempted :: bool
  psr_rollback_write_issued :: bool

fun nwoas_cpu_pstate_status_name :: "nwoas_pstate_status \<Rightarrow> string" where
  "nwoas_cpu_pstate_status_name NwoasPstateOk = ''ok''"
| "nwoas_cpu_pstate_status_name NwoasPstateInvalidIo = ''invalid-io''"
| "nwoas_cpu_pstate_status_name NwoasPstateUnsupportedChip = ''unsupported-chip''"
| "nwoas_cpu_pstate_status_name NwoasPstateBaselineBusy = ''baseline-busy''"
| "nwoas_cpu_pstate_status_name NwoasPstateBaselineNotP7 = ''baseline-not-p7''"
| "nwoas_cpu_pstate_status_name NwoasPstateStuckBusy = ''stuck-busy''"
| "nwoas_cpu_pstate_status_name NwoasPstateReadbackMismatch = ''readback-mismatch''"
| "nwoas_cpu_pstate_status_name NwoasPstateProtectedChanged = ''protected-changed''"
| "nwoas_cpu_pstate_status_name NwoasPstateStatusMismatch = ''status-mismatch''"
| "nwoas_cpu_pstate_status_name NwoasPstateRolledBack = ''rolled-back''"
| "nwoas_cpu_pstate_status_name NwoasPstateRollbackBusy = ''rollback-busy-skipped''"
| "nwoas_cpu_pstate_status_name NwoasPstateRollbackUnverified = ''rollback-unverified''"
| "nwoas_cpu_pstate_status_name NwoasPstateRollbackFailed = ''rollback-failed''"

section \<open>Operations\<close>

definition pstate_delay :: "('e \<Rightarrow> u32 \<Rightarrow> 'e) option \<Rightarrow> ('e, u64) io_state \<Rightarrow> ('e, u64) io_state" where
  "pstate_delay dl s = (case dl of None \<Rightarrow> s | Some d \<Rightarrow> s\<lparr>io_env := d (io_env s) NWOAS_IDLE_DELAY_US\<rparr>)"

primrec wait_idle_loop ::
  "('e, u64) reg_read \<Rightarrow> ('e \<Rightarrow> u32 \<Rightarrow> 'e) option \<Rightarrow> nat \<Rightarrow> u64 \<Rightarrow> ('e, u64) io_state \<Rightarrow> bool \<times> u64 \<times> ('e, u64) io_state" where
  "wait_idle_loop rd dl 0 value s = (False, value, s)"
| "wait_idle_loop rd dl (Suc n) value s =
     (let (v, s1) = io_read rd NWOAS_P_CMD_ADDR s in
      if v AND NWOAS_PSTATE_BUSY = 0 then (True, v, s1) else wait_idle_loop rd dl n v (pstate_delay dl s1))"

definition nwoas_cpu_pstate_wait_idle ::
  "('e, u64) reg_read \<Rightarrow> ('e \<Rightarrow> u32 \<Rightarrow> 'e) option \<Rightarrow> ('e, u64) io_state \<Rightarrow> bool \<times> u64 \<times> ('e, u64) io_state" where
  "nwoas_cpu_pstate_wait_idle rd dl s = wait_idle_loop rd dl NWOAS_IDLE_ATTEMPTS 0 s"

text \<open>The result is the status, the last command value, whether the write was issued, and the state.\<close>

definition nwoas_cpu_pstate_request ::
  "('e, u64) reg_read \<Rightarrow> ('e, u64) reg_write \<Rightarrow> ('e \<Rightarrow> u32 \<Rightarrow> 'e) option \<Rightarrow> u32 \<Rightarrow> u64 \<Rightarrow> ('e, u64) io_state
     \<Rightarrow> nwoas_pstate_status \<times> u64 \<times> bool \<times> ('e, u64) io_state" where
  "nwoas_cpu_pstate_request rd wr dl pstate reference s =
     (case nwoas_cpu_pstate_wait_idle rd dl s of (idle, v, s1) \<Rightarrow>
        if \<not> idle then (NwoasPstateStuckBusy, v, False, s1)
        else let desired = nwoas_cpu_pstate_desired pstate;
                 request = ((v AND NOT NWOAS_PS_FIELDS) OR NWOAS_PSTATE_SET) OR desired;
                 s2 = io_write wr NWOAS_P_CMD_ADDR request s1 in
          (case nwoas_cpu_pstate_wait_idle rd dl s2 of (idle', v', s3) \<Rightarrow>
             if \<not> idle' then (NwoasPstateStuckBusy, v', True, s3)
             else if v' AND NWOAS_PS_FIELDS \<noteq> desired then (NwoasPstateReadbackMismatch, v', True, s3)
             else if (v' XOR reference) AND NWOAS_PROTECTED_BITS \<noteq> 0 then (NwoasPstateProtectedChanged, v', True, s3)
             else (NwoasPstateOk, v', True, s3)))"

definition nwoas_cpu_pstate_fill :: "u64 \<Rightarrow> u64 \<Rightarrow> nwoas_cpu_pstate_result \<Rightarrow> nwoas_cpu_pstate_result" where
  "nwoas_cpu_pstate_fill cmd st r =
     r\<lparr>psr_final_cmd := cmd, psr_final_status := st, psr_final_current := nwoas_cpu_pstate_status_current st,
       psr_final_target := nwoas_cpu_pstate_status_target st, psr_apsc_busy := (cmd AND NWOAS_PSTATE_APSC_BUSY \<noteq> 0),
       psr_protected_preserved := ((cmd XOR psr_baseline_cmd r) AND NWOAS_PROTECTED_BITS = 0)\<rparr>"

definition psr_zero :: nwoas_cpu_pstate_result where
  "psr_zero = \<lparr>psr_status = NwoasPstateOk, psr_initial_status = NwoasPstateOk, psr_rollback_status = NwoasPstateOk,
     psr_baseline_cmd = 0, psr_requested_cmd = 0, psr_final_cmd = 0, psr_final_status = 0, psr_final_current = 0,
     psr_final_target = 0, psr_apsc_busy = False, psr_protected_preserved = False, psr_rollback_attempted = False,
     psr_rollback_write_issued = False\<rparr>"

text \<open>A refused baseline: one status read for the snapshot.\<close>

definition pstate_refuse ::
  "('e, u64) reg_read \<Rightarrow> nwoas_pstate_status \<Rightarrow> nwoas_cpu_pstate_result \<Rightarrow> ('e, u64) io_state
     \<Rightarrow> nwoas_cpu_pstate_result \<times> ('e, u64) io_state" where
  "pstate_refuse rd st r s =
     (let (sr, s1) = io_read rd NWOAS_P_STATUS_ADDR s
      in (nwoas_cpu_pstate_fill (psr_baseline_cmd r) sr (r\<lparr>psr_status := st\<rparr>), s1))"

definition pstate_at :: "u32 \<Rightarrow> nwoas_cpu_pstate_result \<Rightarrow> bool" where
  "pstate_at p r \<longleftrightarrow> psr_final_current r = p \<and> psr_final_target r = p \<and> psr_protected_preserved r"

definition pstate_rollback ::
  "('e, u64) reg_read \<Rightarrow> ('e, u64) reg_write \<Rightarrow> ('e \<Rightarrow> u32 \<Rightarrow> 'e) option \<Rightarrow> nwoas_cpu_pstate_result \<Rightarrow> ('e, u64) io_state
     \<Rightarrow> nwoas_cpu_pstate_result \<times> ('e, u64) io_state" where
  "pstate_rollback rd wr dl r s =
     (case nwoas_cpu_pstate_request rd wr dl NWOAS_PSTATE_P7 (psr_baseline_cmd r) s of (st, cmd, wrote, s1) \<Rightarrow>
        let (sr, s2) = io_read rd NWOAS_P_STATUS_ADDR s1;
            r1 = nwoas_cpu_pstate_fill cmd sr
                   (r\<lparr>psr_rollback_attempted := True, psr_rollback_status := st, psr_rollback_write_issued := wrote\<rparr>) in
        (r1\<lparr>psr_status :=
            (if st = NwoasPstateStuckBusy then (if wrote then NwoasPstateRollbackUnverified else NwoasPstateRollbackBusy)
             else if st = NwoasPstateOk \<and> pstate_at NWOAS_PSTATE_P7 r1 then NwoasPstateRolledBack
             else NwoasPstateRollbackFailed)\<rparr>, s2))"

definition pstate_run ::
  "('e, u64) reg_read \<Rightarrow> ('e, u64) reg_write \<Rightarrow> ('e \<Rightarrow> u32 \<Rightarrow> 'e) option \<Rightarrow> ('e, u64) io_state
     \<Rightarrow> nwoas_cpu_pstate_result \<times> ('e, u64) io_state" where
  "pstate_run rd wr dl s =
     (let (baseline, s1) = io_read rd NWOAS_P_CMD_ADDR s;
          r = psr_zero\<lparr>psr_baseline_cmd := baseline, psr_requested_cmd := baseline\<rparr> in
      if baseline AND NWOAS_PSTATE_BUSY \<noteq> 0 then pstate_refuse rd NwoasPstateBaselineBusy r s1
      else if baseline AND NWOAS_PS_FIELDS \<noteq> nwoas_cpu_pstate_desired NWOAS_PSTATE_P7
      then pstate_refuse rd NwoasPstateBaselineNotP7 r s1
      else (case nwoas_cpu_pstate_request rd wr dl NWOAS_PSTATE_P12 baseline s1 of (st, cmd, wrote, s2) \<Rightarrow>
        let r1 = r\<lparr>psr_requested_cmd := cmd, psr_initial_status := st\<rparr> in
        if st = NwoasPstateOk
        then let (sr, s3) = io_read rd NWOAS_P_STATUS_ADDR s2; r2 = nwoas_cpu_pstate_fill cmd sr r1 in
          if pstate_at NWOAS_PSTATE_P12 r2 then (r2\<lparr>psr_status := NwoasPstateOk\<rparr>, s3)
          else pstate_rollback rd wr dl (r2\<lparr>psr_initial_status := NwoasPstateStatusMismatch\<rparr>) s3
        else pstate_rollback rd wr dl r1 s2))"

definition nwoas_cpu_pstate_enable_p12 ::
  "'e nwoas_cpu_pstate_io option \<Rightarrow> ('e, u64) io_state \<Rightarrow> nwoas_cpu_pstate_result \<times> ('e, u64) io_state" where
  "nwoas_cpu_pstate_enable_p12 io s =
     (case io of
        None \<Rightarrow> (psr_zero\<lparr>psr_status := NwoasPstateInvalidIo\<rparr>, s)
      | Some i \<Rightarrow>
          (case (pio_read64 i, pio_write64 i) of
             (Some rd, Some wr) \<Rightarrow>
               if pio_chip_id i \<noteq> NWOAS_T8103_CHIP_ID then (psr_zero\<lparr>psr_status := NwoasPstateUnsupportedChip\<rparr>, s)
               else pstate_run rd wr (pio_delay_us i) s
           | _ \<Rightarrow> (psr_zero\<lparr>psr_status := NwoasPstateInvalidIo\<rparr>, s)))"

section \<open>What the helper promises\<close>

text \<open>The value of a request: an idle command value with only the desired fields and the set bit changed.\<close>

definition pstate_request_value :: "u32 \<Rightarrow> u64 \<Rightarrow> u64" where
  "pstate_request_value p u = ((u AND NOT NWOAS_PS_FIELDS) OR NWOAS_PSTATE_SET) OR nwoas_cpu_pstate_desired p"

definition pstate_write :: "u32 \<Rightarrow> u64 \<times> u64 \<Rightarrow> bool" where
  "pstate_write p w \<longleftrightarrow> fst w = NWOAS_P_CMD_ADDR \<and> (\<exists>u. u AND NWOAS_PSTATE_BUSY = 0 \<and> snd w = pstate_request_value p u)"

definition pstate_settled :: "u32 \<Rightarrow> nwoas_cpu_pstate_result \<Rightarrow> bool" where
  "pstate_settled p r \<longleftrightarrow> psr_final_cmd r AND NWOAS_PSTATE_BUSY = 0 \<and> psr_final_cmd r AND NWOAS_PS_FIELDS = nwoas_cpu_pstate_desired p \<and>
     (psr_final_cmd r XOR psr_baseline_cmd r) AND NWOAS_PROTECTED_BITS = 0 \<and>
     nwoas_cpu_pstate_status_current (psr_final_status r) = p \<and> nwoas_cpu_pstate_status_target (psr_final_status r) = p"

text \<open>The writes a status stands for, and what it says of the registers.\<close>

definition pstate_promise :: "nwoas_cpu_pstate_result \<Rightarrow> (u64 \<times> u64) list \<Rightarrow> bool" where
  "pstate_promise r ws \<longleftrightarrow>
     (case psr_status r of
        NwoasPstateOk \<Rightarrow> list_all2 pstate_write [NWOAS_PSTATE_P12] ws \<and> pstate_settled NWOAS_PSTATE_P12 r
      | NwoasPstateInvalidIo \<Rightarrow> ws = []
      | NwoasPstateUnsupportedChip \<Rightarrow> ws = []
      | NwoasPstateBaselineBusy \<Rightarrow> ws = []
      | NwoasPstateBaselineNotP7 \<Rightarrow> ws = []
      | NwoasPstateRolledBack \<Rightarrow> (\<exists>ps. prefix ps [NWOAS_PSTATE_P12] \<and> list_all2 pstate_write (ps @ [NWOAS_PSTATE_P7]) ws) \<and>
          pstate_settled NWOAS_PSTATE_P7 r
      | NwoasPstateRollbackBusy \<Rightarrow> (\<exists>ps. prefix ps [NWOAS_PSTATE_P12] \<and> list_all2 pstate_write ps ws)
      | NwoasPstateRollbackUnverified \<Rightarrow> (\<exists>ps. prefix ps [NWOAS_PSTATE_P12] \<and> list_all2 pstate_write (ps @ [NWOAS_PSTATE_P7]) ws)
      | NwoasPstateRollbackFailed \<Rightarrow> (\<exists>ps. prefix ps [NWOAS_PSTATE_P12] \<and> list_all2 pstate_write (ps @ [NWOAS_PSTATE_P7]) ws)
      | _ \<Rightarrow> False)"

lemma delay_writes [simp]: "io_writes (pstate_delay dl s) = io_writes s"
  by (simp add: pstate_delay_def split: option.splits)

lemma wait_idle_law:
  assumes "nwoas_cpu_pstate_wait_idle rd dl s = (idle, v, s')"
  shows "io_writes s' = io_writes s" and "idle \<Longrightarrow> v AND NWOAS_PSTATE_BUSY = 0"
proof -
  have "wait_idle_loop rd dl n x s = (idle, v, s') \<Longrightarrow> io_writes s' = io_writes s \<and> (idle \<longrightarrow> v AND NWOAS_PSTATE_BUSY = 0)" for n x
  proof (induction n arbitrary: x s)
    case (Suc n)
    obtain y s1 where r: "io_read rd NWOAS_P_CMD_ADDR s = (y, s1)" by (rule prod.exhaust)
    show ?case using Suc.prems Suc.IH io_readE [OF r] by (auto simp: r split: if_splits)
  qed auto
  then show "io_writes s' = io_writes s" "idle \<Longrightarrow> v AND NWOAS_PSTATE_BUSY = 0"
    using assms by (auto simp: nwoas_cpu_pstate_wait_idle_def)
qed

lemma request_law:
  assumes "nwoas_cpu_pstate_request rd wr dl p b s = (st, v, wrote, s')"
  shows "\<exists>ws. io_writes s' = io_writes s @ ws \<and> list_all2 pstate_write (if wrote then [p] else []) ws"
    and "st = NwoasPstateOk \<Longrightarrow> wrote \<and> v AND NWOAS_PSTATE_BUSY = 0 \<and> v AND NWOAS_PS_FIELDS = nwoas_cpu_pstate_desired p \<and>
      (v XOR b) AND NWOAS_PROTECTED_BITS = 0"
    and "\<not> wrote \<Longrightarrow> st = NwoasPstateStuckBusy"
proof -
  obtain i1 u s1 where w1: "nwoas_cpu_pstate_wait_idle rd dl s = (i1, u, s1)" by (metis prod_cases3)
  define s2 where "s2 = io_write wr NWOAS_P_CMD_ADDR (pstate_request_value p u) s1"
  obtain i2 u2 s3 where w2: "nwoas_cpu_pstate_wait_idle rd dl s2 = (i2, u2, s3)" by (metis prod_cases3)
  have r: "(st, v, wrote, s') = (if \<not> i1 then (NwoasPstateStuckBusy, u, False, s1)
      else if \<not> i2 then (NwoasPstateStuckBusy, u2, True, s3)
      else if u2 AND NWOAS_PS_FIELDS \<noteq> nwoas_cpu_pstate_desired p then (NwoasPstateReadbackMismatch, u2, True, s3)
      else if (u2 XOR b) AND NWOAS_PROTECTED_BITS \<noteq> 0 then (NwoasPstateProtectedChanged, u2, True, s3)
      else (NwoasPstateOk, u2, True, s3))"
    using assms unfolding nwoas_cpu_pstate_request_def w1 prod.case Let_def pstate_request_value_def [symmetric] s2_def [symmetric] w2
    by (rule sym)
  have ws: "io_writes s1 = io_writes s" "i1 \<Longrightarrow> io_writes s3 = io_writes s @ [(NWOAS_P_CMD_ADDR, pstate_request_value p u)]"
    using wait_idle_law(1) [OF w1] wait_idle_law(1) [OF w2] by (simp_all add: s2_def)
  have ok: "pstate_write p (NWOAS_P_CMD_ADDR, pstate_request_value p u)" if i1
    using wait_idle_law(2) [OF w1 that] by (auto simp: pstate_write_def)
  show "\<exists>ws. io_writes s' = io_writes s @ ws \<and> list_all2 pstate_write (if wrote then [p] else []) ws"
    using r ws ok by (cases i1) (auto split: if_splits)
  show "st = NwoasPstateOk \<Longrightarrow> wrote \<and> v AND NWOAS_PSTATE_BUSY = 0 \<and> v AND NWOAS_PS_FIELDS = nwoas_cpu_pstate_desired p \<and>
      (v XOR b) AND NWOAS_PROTECTED_BITS = 0"
    using r wait_idle_law(2) [OF w2] by (auto split: if_splits)
  show "\<not> wrote \<Longrightarrow> st = NwoasPstateStuckBusy" using r by (auto split: if_splits)
qed

lemma fill_fields [simp]:
  "psr_final_cmd (nwoas_cpu_pstate_fill c st r) = c" "psr_final_status (nwoas_cpu_pstate_fill c st r) = st"
  "psr_baseline_cmd (nwoas_cpu_pstate_fill c st r) = psr_baseline_cmd r" "psr_status (nwoas_cpu_pstate_fill c st r) = psr_status r"
  by (simp_all add: nwoas_cpu_pstate_fill_def)

lemma pstate_at_fill:
  "pstate_at p (nwoas_cpu_pstate_fill c st r) \<longleftrightarrow> nwoas_cpu_pstate_status_current st = p \<and> nwoas_cpu_pstate_status_target st = p \<and>
     (c XOR psr_baseline_cmd r) AND NWOAS_PROTECTED_BITS = 0"
  by (simp add: pstate_at_def nwoas_cpu_pstate_fill_def)

lemma rollback_law:
  assumes "pstate_rollback rd wr dl r s = (r', s')" and "io_writes s = ws0 @ ws" and "list_all2 pstate_write ps ws"
    and "prefix ps [NWOAS_PSTATE_P12]"
  shows "\<exists>ws'. io_writes s' = ws0 @ ws' \<and> pstate_promise r' ws'"
proof -
  obtain st cmd wrote s1 where q: "nwoas_cpu_pstate_request rd wr dl NWOAS_PSTATE_P7 (psr_baseline_cmd r) s = (st, cmd, wrote, s1)"
    by (metis prod_cases4)
  obtain sr s2 where m: "io_read rd NWOAS_P_STATUS_ADDR s1 = (sr, s2)" by (rule prod.exhaust)
  define r1 where "r1 = nwoas_cpu_pstate_fill cmd sr
      (r\<lparr>psr_rollback_attempted := True, psr_rollback_status := st, psr_rollback_write_issued := wrote\<rparr>)"
  have out: "s' = s2" "r' = r1\<lparr>psr_status :=
            (if st = NwoasPstateStuckBusy then (if wrote then NwoasPstateRollbackUnverified else NwoasPstateRollbackBusy)
             else if st = NwoasPstateOk \<and> pstate_at NWOAS_PSTATE_P7 r1 then NwoasPstateRolledBack
             else NwoasPstateRollbackFailed)\<rparr>"
    using assms(1) unfolding pstate_rollback_def q prod.case m Let_def r1_def [symmetric] by simp_all
  obtain vs where vs: "io_writes s1 = io_writes s @ vs" "list_all2 pstate_write (if wrote then [NWOAS_PSTATE_P7] else []) vs"
    using request_law(1) [OF q] by blast
  have w: "io_writes s' = ws0 @ (ws @ vs)" using vs(1) assms(2) io_readE [OF m] out(1) by simp
  have l: "list_all2 pstate_write (ps @ (if wrote then [NWOAS_PSTATE_P7] else [])) (ws @ vs)"
    using list_all2_appendI [OF assms(3) vs(2)] .
  have "pstate_promise r' (ws @ vs)"
  proof (cases wrote)
    case True
    have "pstate_settled NWOAS_PSTATE_P7 r'" if "st = NwoasPstateOk" "pstate_at NWOAS_PSTATE_P7 r1"
      using that request_law(2) [OF q] unfolding r1_def pstate_at_fill by (simp add: out(2) pstate_settled_def r1_def)
    then show ?thesis using l assms(4) True unfolding pstate_promise_def out(2) by (auto simp: r1_def)
  next
    case False
    then have "st = NwoasPstateStuckBusy" by (rule request_law(3) [OF q])
    then show ?thesis using l assms(4) False unfolding pstate_promise_def out(2) by auto
  qed
  then show ?thesis using w by blast
qed

lemma run_law: "\<exists>ws. io_writes (snd (pstate_run rd wr dl s)) = io_writes s @ ws \<and> pstate_promise (fst (pstate_run rd wr dl s)) ws"
proof -
  obtain b s1 where m: "io_read rd NWOAS_P_CMD_ADDR s = (b, s1)" by (rule prod.exhaust)
  have w1: "io_writes s1 = io_writes s" by (rule io_readE [OF m])
  define r where "r = psr_zero\<lparr>psr_baseline_cmd := b, psr_requested_cmd := b\<rparr>"
  obtain st cmd wrote s2 where q: "nwoas_cpu_pstate_request rd wr dl NWOAS_PSTATE_P12 b s1 = (st, cmd, wrote, s2)"
    by (metis prod_cases4)
  define r1 where "r1 = r\<lparr>psr_requested_cmd := cmd, psr_initial_status := st\<rparr>"
  obtain sr s3 where n: "io_read rd NWOAS_P_STATUS_ADDR s2 = (sr, s3)" by (rule prod.exhaust)
  define r2 where "r2 = nwoas_cpu_pstate_fill cmd sr r1"
  have run: "pstate_run rd wr dl s =
     (if b AND NWOAS_PSTATE_BUSY \<noteq> 0 then pstate_refuse rd NwoasPstateBaselineBusy r s1
      else if b AND NWOAS_PS_FIELDS \<noteq> nwoas_cpu_pstate_desired NWOAS_PSTATE_P7 then pstate_refuse rd NwoasPstateBaselineNotP7 r s1
      else if st = NwoasPstateOk
        then if pstate_at NWOAS_PSTATE_P12 r2 then (r2\<lparr>psr_status := NwoasPstateOk\<rparr>, s3)
          else pstate_rollback rd wr dl (r2\<lparr>psr_initial_status := NwoasPstateStatusMismatch\<rparr>) s3
        else pstate_rollback rd wr dl r1 s2)"
    unfolding pstate_run_def m prod.case Let_def r_def [symmetric] q r1_def [symmetric] n r2_def [symmetric] ..
  obtain ws where ws: "io_writes s2 = io_writes s @ ws" "list_all2 pstate_write (if wrote then [NWOAS_PSTATE_P12] else []) ws"
    using request_law(1) [OF q] w1 by auto
  have pre: "prefix (if wrote then [NWOAS_PSTATE_P12] else []) [NWOAS_PSTATE_P12]" by simp
  have w3: "io_writes s3 = io_writes s @ ws" using io_readE [OF n] ws(1) by simp
  have refuse: "\<exists>ws. io_writes (snd (pstate_refuse rd x r s1)) = io_writes s @ ws \<and> pstate_promise (fst (pstate_refuse rd x r s1)) ws"
    if "x = NwoasPstateBaselineBusy \<or> x = NwoasPstateBaselineNotP7" for x
    using that w1 by (auto simp: pstate_refuse_def pstate_promise_def io_readE split: prod.splits)
  have ok: "pstate_promise (r2\<lparr>psr_status := NwoasPstateOk\<rparr>) ws" if "st = NwoasPstateOk" "pstate_at NWOAS_PSTATE_P12 r2"
    using that request_law(2) [OF q] ws(2) unfolding r2_def pstate_at_fill
    by (simp add: pstate_promise_def pstate_settled_def r1_def r_def)
  have restore: "\<exists>vs. io_writes (snd (pstate_rollback rd wr dl x t)) = io_writes s @ vs \<and> pstate_promise (fst (pstate_rollback rd wr dl x t)) vs"
    if "io_writes t = io_writes s @ ws" for x t
    using rollback_law [OF surjective_pairing that ws(2) pre] .
  show ?thesis unfolding run using refuse ok restore ws(1) w3 by (auto simp: fst_def snd_def)
qed

lemma enable_law:
  "\<exists>ws. io_writes (snd (nwoas_cpu_pstate_enable_p12 io s)) = io_writes s @ ws \<and>
     pstate_promise (fst (nwoas_cpu_pstate_enable_p12 io s)) ws"
proof (cases io)
  case None
  then show ?thesis by (simp add: nwoas_cpu_pstate_enable_p12_def pstate_promise_def)
next
  case (Some i)
  show ?thesis
  proof (cases "pio_read64 i = None \<or> pio_write64 i = None \<or> pio_chip_id i \<noteq> NWOAS_T8103_CHIP_ID")
    case True
    then show ?thesis by (auto simp: Some nwoas_cpu_pstate_enable_p12_def pstate_promise_def split: option.splits)
  next
    case False
    then show ?thesis using run_law by (auto simp: Some nwoas_cpu_pstate_enable_p12_def)
  qed
qed

lemma promise_writes:
  assumes "pstate_promise r ws"
  shows "length ws \<le> 2" and "\<forall>w\<in>set ws. pstate_write NWOAS_PSTATE_P12 w \<or> pstate_write NWOAS_PSTATE_P7 w"
proof -
  have "ws = [] \<or> (\<exists>ps \<in> {[], [NWOAS_PSTATE_P12], [NWOAS_PSTATE_P7], [NWOAS_PSTATE_P12, NWOAS_PSTATE_P7]}. list_all2 pstate_write ps ws)"
    using assms by (auto simp: pstate_promise_def prefix_Cons split: nwoas_pstate_status.splits)
  then show "length ws \<le> 2" "\<forall>w\<in>set ws. pstate_write NWOAS_PSTATE_P12 w \<or> pstate_write NWOAS_PSTATE_P7 w"
    by (auto simp: list_all2_Cons1)
qed

text \<open>The helper is a register driver in the sense of the shared interface, so repeated calls stay confined too.\<close>

interpretation cluster: mmio_driver "nwoas_cpu_pstate_enable_p12 io"
  "\<lambda>a v. pstate_write NWOAS_PSTATE_P12 (a, v) \<or> pstate_write NWOAS_PSTATE_P7 (a, v)" 2 for io
proof
  fix s :: "('a, u64) io_state"
  obtain ws where "io_writes (snd (nwoas_cpu_pstate_enable_p12 io s)) = io_writes s @ ws"
    "pstate_promise (fst (nwoas_cpu_pstate_enable_p12 io s)) ws" using enable_law by blast
  then show "\<exists>ws. io_writes (snd (nwoas_cpu_pstate_enable_p12 io s)) = io_writes s @ ws \<and> length ws \<le> 2 \<and>
      (\<forall>(a, v)\<in>set ws. pstate_write NWOAS_PSTATE_P12 (a, v) \<or> pstate_write NWOAS_PSTATE_P7 (a, v))"
    using promise_writes by blast
qed


text \<open>A controller that follows its command register reaches point 12; one that ignores it is left alone.\<close>

definition following_cluster :: "(u64, u64) reg_write \<Rightarrow> u64 nwoas_cpu_pstate_io" where
  "following_cluster wr =
     \<lparr>pio_read64 = Some (\<lambda>c a. (if a = NWOAS_P_CMD_ADDR then c else (c AND 0xf) OR push_bit 4 (c AND 0xf), c)),
      pio_write64 = Some wr, pio_delay_us = None, pio_chip_id = NWOAS_T8103_CHIP_ID\<rparr>"

lemma pstate_examples:
  "psr_status (fst (nwoas_cpu_pstate_enable_p12 (Some (following_cluster (\<lambda>c a v. v AND NOT NWOAS_PSTATE_SET))) \<lparr>io_env = 0x40000407007, io_log = []\<rparr>)) = NwoasPstateOk"
  "psr_status (fst (nwoas_cpu_pstate_enable_p12 (Some (following_cluster (\<lambda>c a v. c))) \<lparr>io_env = 0x40000407007, io_log = []\<rparr>)) = NwoasPstateRolledBack"
  by code_simp+

end
