(* ===== verification/Guest_Memory.thy ===== *)
theory Guest_Memory
  imports Nwoas_Prelude
begin

text \<open>
  The memory layout arithmetic of the firmware and the loader: \<^verbatim>\<open>NwoasGuestRam.h\<close> (guest memory
  and the backing of the low DMA window), \<^verbatim>\<open>NwoasSplitMemoryMap.h\<close> (splitting a descriptor of the
  memory map snapshot), \<^verbatim>\<open>handoff_layout.h\<close> and \<^verbatim>\<open>NwoasHandoffRanges.h\<close> (placement of the
  boot arguments, the device tree copy and the firmware image).

  An output pointer that may be null is an \<open>option\<close>.  The memory map is the list of its descriptors;
  the bytes a descriptor has beyond the architected fields move with it and are its \<open>md_rest\<close>.
\<close>

section \<open>Guest memory layout\<close>

definition NWOAS_DMA_WIN_BASE :: u64 where "NWOAS_DMA_WIN_BASE = 0"
definition NWOAS_DMA_WIN_SIZE :: u64 where "NWOAS_DMA_WIN_SIZE = 0x100000000"
definition NWOAS_DMA_WIN_END :: u64 where "NWOAS_DMA_WIN_END = NWOAS_DMA_WIN_BASE + NWOAS_DMA_WIN_SIZE"
definition NWOAS_GUEST_PHYS_BASE_MIN :: u64 where "NWOAS_GUEST_PHYS_BASE_MIN = 0x800000000"
definition NWOAS_GUEST_PA_LIMIT :: u64 where "NWOAS_GUEST_PA_LIMIT = 0x1000000000"
definition NWOAS_DART_PAGE_MASK :: u64 where "NWOAS_DART_PAGE_MASK = 0x4000 - 1"
definition MAX_UINT64 :: u64 where "MAX_UINT64 = -1"

datatype nwoas_guest_ram_status = NwoasGuestRamOk | NwoasGuestRamErrNullOut | NwoasGuestRamErrPhysBaseLow
  | NwoasGuestRamErrUnaligned | NwoasGuestRamErrMemSizeZero | NwoasGuestRamErrMemSizeTooSmall
  | NwoasGuestRamErrOverflow | NwoasGuestRamErrAboveLimit

record nwoas_guest_ram_layout =
  PhysBase :: u64
  BootArgsMemSize :: u64
  GuestRamSize :: u64
  GuestRamEnd :: u64
  BackingPa :: u64
  BackingEnd :: u64
  WindowBase :: u64
  WindowSize :: u64
  WindowAfterRam :: bool

definition layout_zero :: nwoas_guest_ram_layout where
  "layout_zero = \<lparr>PhysBase = 0, BootArgsMemSize = 0, GuestRamSize = 0, GuestRamEnd = 0, BackingPa = 0, BackingEnd = 0,
     WindowBase = 0, WindowSize = 0, WindowAfterRam = False\<rparr>"

definition NwoasComputeGuestRamLayoutEx ::
  "u64 \<Rightarrow> u64 \<Rightarrow> bool \<Rightarrow> nwoas_guest_ram_layout option \<Rightarrow> nwoas_guest_ram_status \<times> nwoas_guest_ram_layout option" where
  "NwoasComputeGuestRamLayoutEx phys_base mem_size window_after_ram out =
     (case out of
        None \<Rightarrow> (NwoasGuestRamErrNullOut, None)
      | Some _ \<Rightarrow>
          if phys_base < NWOAS_GUEST_PHYS_BASE_MIN then (NwoasGuestRamErrPhysBaseLow, Some layout_zero)
          else if phys_base AND NWOAS_DART_PAGE_MASK \<noteq> 0 \<or> mem_size AND NWOAS_DART_PAGE_MASK \<noteq> 0
          then (NwoasGuestRamErrUnaligned, Some layout_zero)
          else if mem_size = 0 then (NwoasGuestRamErrMemSizeZero, Some layout_zero)
          else if \<not> window_after_ram \<and> mem_size \<le> NWOAS_DMA_WIN_SIZE then (NwoasGuestRamErrMemSizeTooSmall, Some layout_zero)
          else let size = (if window_after_ram then mem_size else mem_size - NWOAS_DMA_WIN_SIZE) in
            if phys_base > MAX_UINT64 - size then (NwoasGuestRamErrOverflow, Some layout_zero)
            else let ram_end = phys_base + size in
              if ram_end > MAX_UINT64 - NWOAS_DMA_WIN_SIZE then (NwoasGuestRamErrOverflow, Some layout_zero)
              else let backing_end = ram_end + NWOAS_DMA_WIN_SIZE in
                if backing_end > NWOAS_GUEST_PA_LIMIT then (NwoasGuestRamErrAboveLimit, Some layout_zero)
                else (NwoasGuestRamOk,
                      Some \<lparr>PhysBase = phys_base, BootArgsMemSize = mem_size, GuestRamSize = size, GuestRamEnd = ram_end,
                            BackingPa = ram_end, BackingEnd = backing_end, WindowBase = NWOAS_DMA_WIN_BASE,
                            WindowSize = NWOAS_DMA_WIN_SIZE, WindowAfterRam = window_after_ram\<rparr>))"

text \<open>The build's mode, \<^verbatim>\<open>NWOAS_WINDOW_AFTER_RAM\<close>, is an argument.\<close>

definition NwoasComputeGuestRamLayout ::
  "bool \<Rightarrow> u64 \<Rightarrow> u64 \<Rightarrow> nwoas_guest_ram_layout option \<Rightarrow> nwoas_guest_ram_status \<times> nwoas_guest_ram_layout option" where
  "NwoasComputeGuestRamLayout mode phys_base mem_size out = NwoasComputeGuestRamLayoutEx phys_base mem_size mode out"

definition NwoasGuestRamBackingPa :: "bool \<Rightarrow> u64 \<Rightarrow> u64 \<Rightarrow> u64" where
  "NwoasGuestRamBackingPa mode phys_base mem_size =
     (case NwoasComputeGuestRamLayout mode phys_base mem_size (Some layout_zero) of
        (NwoasGuestRamOk, Some l) \<Rightarrow> BackingPa l | _ \<Rightarrow> 0)"

definition NwoasPaInLowWindow :: "u64 \<Rightarrow> bool" where
  "NwoasPaInLowWindow pa \<longleftrightarrow> pa \<ge> NWOAS_DMA_WIN_BASE \<and> pa < NWOAS_DMA_WIN_END"

definition NwoasPaInGuestRam :: "nwoas_guest_ram_layout option \<Rightarrow> u64 \<Rightarrow> bool" where
  "NwoasPaInGuestRam layout pa =
     (case layout of None \<Rightarrow> False | Some l \<Rightarrow> GuestRamSize l \<noteq> 0 \<and> pa \<ge> PhysBase l \<and> pa < GuestRamEnd l)"

definition NwoasPaInBacking :: "nwoas_guest_ram_layout option \<Rightarrow> u64 \<Rightarrow> bool" where
  "NwoasPaInBacking layout pa =
     (case layout of None \<Rightarrow> False | Some l \<Rightarrow> BackingPa l \<noteq> 0 \<and> pa \<ge> BackingPa l \<and> pa < BackingEnd l)"

definition NwoasWindowIpaToBackingPa :: "nwoas_guest_ram_layout option \<Rightarrow> u64 \<Rightarrow> u64" where
  "NwoasWindowIpaToBackingPa layout ipa =
     (case layout of None \<Rightarrow> ipa
      | Some l \<Rightarrow> if BackingPa l = 0 \<or> \<not> NwoasPaInLowWindow ipa then ipa else BackingPa l + (ipa - NWOAS_DMA_WIN_BASE))"

section \<open>Splitting the memory map\<close>









section \<open>Handoff placement\<close>





definition NwoasHandoffAdtSource :: "u64 \<Rightarrow> u64 \<Rightarrow> u64 \<Rightarrow> u64 \<Rightarrow> u64 \<Rightarrow> u64 option" where
  "NwoasHandoffAdtSource virt_base devtree ram_base ram_size adt_size =
     (if adt_size = 0 \<or> ram_size > MAX_UINT64 - ram_base \<or> devtree < virt_base then None
      else let delta = devtree - virt_base in
        if delta > ram_size \<or> adt_size > ram_size - delta then None else Some (ram_base + delta))"

section \<open>Layout\<close>

lemma le_max_minus: "a \<le> MAX_UINT64 - b \<longleftrightarrow> unat a + unat b < 2 ^ 64"
  unfolding MAX_UINT64_def by (simp add: word_le_max_minus)

lemmas layout_consts = NWOAS_DMA_WIN_BASE_def NWOAS_DMA_WIN_SIZE_def NWOAS_DMA_WIN_END_def NWOAS_GUEST_PHYS_BASE_MIN_def
  NWOAS_GUEST_PA_LIMIT_def NWOAS_DART_PAGE_MASK_def

lemma layout_ok:
  assumes "NwoasComputeGuestRamLayoutEx pb ms war (Some l0) = (NwoasGuestRamOk, Some l)"
  defines "sz \<equiv> if war then unat ms else unat ms - 2 ^ 32"
  shows "unat (PhysBase l) = unat pb \<and> unat (GuestRamEnd l) = unat pb + sz \<and> BackingPa l = GuestRamEnd l \<and> GuestRamSize l \<noteq> 0 \<and>
      unat (BackingEnd l) = unat pb + sz + 2 ^ 32 \<and> 2 ^ 35 \<le> unat pb \<and> 0 < sz \<and> unat pb + sz + 2 ^ 32 \<le> 2 ^ 36"
proof -
  let ?sz = "if war then ms else ms - NWOAS_DMA_WIN_SIZE"
  have g: "\<not> pb < NWOAS_GUEST_PHYS_BASE_MIN" "ms \<noteq> 0" "\<not> (\<not> war \<and> ms \<le> NWOAS_DMA_WIN_SIZE)" "pb \<le> MAX_UINT64 - ?sz"
    "pb + ?sz \<le> MAX_UINT64 - NWOAS_DMA_WIN_SIZE" "pb + ?sz + NWOAS_DMA_WIN_SIZE \<le> NWOAS_GUEST_PA_LIMIT"
    and l: "l = \<lparr>PhysBase = pb, BootArgsMemSize = ms, GuestRamSize = ?sz, GuestRamEnd = pb + ?sz, BackingPa = pb + ?sz,
      BackingEnd = pb + ?sz + NWOAS_DMA_WIN_SIZE, WindowBase = NWOAS_DMA_WIN_BASE, WindowSize = NWOAS_DMA_WIN_SIZE, WindowAfterRam = war\<rparr>"
    using assms(1) unfolding NwoasComputeGuestRamLayoutEx_def Let_def option.case by (simp_all add: not_less split: if_split_asm)
  have win: "unat NWOAS_DMA_WIN_SIZE = 2 ^ 32" by (simp add: layout_consts)
  have u: "unat ?sz = sz" using g(3) win by (auto simp: sz_def unat_diff_small not_le)
  have pos: "0 < sz" using g(2,3) win by (auto simp: sz_def word_le_nat_alt unat_gt_0 not_le)
  have e: "unat (pb + ?sz) = unat pb + sz" using g(4) u by (simp add: le_max_minus unat_add_small)
  have b: "unat (pb + ?sz + NWOAS_DMA_WIN_SIZE) = unat pb + sz + 2 ^ 32"
    using g(5) e win by (simp add: le_max_minus unat_add_small)
  have lim: "unat pb + sz + 2 ^ 32 \<le> 2 ^ 36" using g(6) b by (simp add: word_le_nat_alt layout_consts)
  have low: "2 ^ 35 \<le> unat pb" using g(1) by (simp add: word_less_nat_alt layout_consts)
  have "?sz \<noteq> 0" using u pos by (metis unat_0 less_irrefl)
  then show ?thesis using e b lim low pos by (simp add: l)
qed

text \<open>
  C20. When the layout is accepted, the low DMA window, guest memory and the window's backing are
  pairwise disjoint, the translation of window addresses is a bijection onto the backing, addresses
  outside the window translate to themselves, and everything ends below the 64 GiB limit.
\<close>

theorem guest_ram_layout_sound:
  assumes "NwoasComputeGuestRamLayoutEx pb ms war (Some l0) = (NwoasGuestRamOk, Some l)"
  shows "(\<forall>pa. \<not> (NwoasPaInLowWindow pa \<and> NwoasPaInGuestRam (Some l) pa)) \<and>
     (\<forall>pa. \<not> (NwoasPaInLowWindow pa \<and> NwoasPaInBacking (Some l) pa)) \<and>
     (\<forall>pa. \<not> (NwoasPaInGuestRam (Some l) pa \<and> NwoasPaInBacking (Some l) pa)) \<and>
     bij_betw (NwoasWindowIpaToBackingPa (Some l)) {ipa. NwoasPaInLowWindow ipa} {pa. NwoasPaInBacking (Some l) pa} \<and>
     (\<forall>ipa. \<not> NwoasPaInLowWindow ipa \<longrightarrow> NwoasWindowIpaToBackingPa (Some l) ipa = ipa) \<and>
     NwoasPaInGuestRam (Some l) pb \<and> unat (BackingEnd l) \<le> 2 ^ 36"
proof -
  note f = layout_ok [OF assms]
  have win: "NwoasPaInLowWindow pa \<longleftrightarrow> unat pa < 2 ^ 32" for pa
    by (simp add: NwoasPaInLowWindow_def layout_consts word_less_nat_alt)
  have ram: "NwoasPaInGuestRam (Some l) pa \<longleftrightarrow> unat (PhysBase l) \<le> unat pa \<and> unat pa < unat (GuestRamEnd l)" for pa
    using f by (simp add: NwoasPaInGuestRam_def word_le_nat_alt word_less_nat_alt)
  have nz: "BackingPa l \<noteq> 0" using f by auto
  have backing: "NwoasPaInBacking (Some l) pa \<longleftrightarrow> unat (BackingPa l) \<le> unat pa \<and> unat pa < unat (BackingPa l) + 2 ^ 32" for pa
    using f nz by (simp add: NwoasPaInBacking_def word_le_nat_alt word_less_nat_alt)
  have tr: "NwoasWindowIpaToBackingPa (Some l) ipa = (if unat ipa < 2 ^ 32 then BackingPa l + ipa else ipa)" for ipa
    using nz by (simp add: NwoasWindowIpaToBackingPa_def win NWOAS_DMA_WIN_BASE_def)
  have "unat (BackingPa l) + 2 ^ 32 < 2 ^ 64" using f by simp
  then have u: "unat (BackingPa l + ipa) = unat (BackingPa l) + unat ipa" if "unat ipa < 2 ^ 32" for ipa
    using that by (simp add: unat_add_small)
  have bij: "bij_betw (NwoasWindowIpaToBackingPa (Some l)) {ipa. NwoasPaInLowWindow ipa} {pa. NwoasPaInBacking (Some l) pa}"
  proof (rule bij_betw_byWitness [where f' = "\<lambda>pa. pa - BackingPa l"])
    show "(\<lambda>pa. pa - BackingPa l) ` {pa. NwoasPaInBacking (Some l) pa} \<subseteq> {ipa. NwoasPaInLowWindow ipa}"
      by (auto simp: backing win unat_diff_small word_le_nat_alt)
    show "\<forall>pa\<in>{pa. NwoasPaInBacking (Some l) pa}. NwoasWindowIpaToBackingPa (Some l) (pa - BackingPa l) = pa"
      by (auto simp: backing tr unat_diff_small word_le_nat_alt)
  qed (auto simp: tr win backing u)
  show ?thesis using f bij by (auto simp: win ram backing tr)
qed

theorem guest_ram_layout_sound_witness:
  "\<exists>l. NwoasComputeGuestRamLayoutEx 0x83ca9c000 0x2a4530000 True (Some layout_zero) = (NwoasGuestRamOk, Some l) \<and>
     BackingPa l = 0xae0fcc000 \<and> NwoasPaInGuestRam (Some l) 0x83ca9c000 \<and> unat (BackingEnd l) \<le> 2 ^ 36"
proof -
  obtain l where l: "NwoasComputeGuestRamLayoutEx 0x83ca9c000 0x2a4530000 True (Some layout_zero) = (NwoasGuestRamOk, Some l)"
    and b: "BackingPa l = 0xae0fcc000"
    by (simp add: NwoasComputeGuestRamLayoutEx_def layout_consts MAX_UINT64_def)
  show ?thesis using guest_ram_layout_sound [OF l] l b by blast
qed

section \<open>The memory map\<close>











section \<open>The handoff\<close>





end
