(* ===== verification/Dart_Translate.thy ===== *)
theory Dart_Translate
  imports Mmio_Bus
begin

text \<open>
  The USB DART helper \<^verbatim>\<open>s175_dart1_translate.c\<close>: it puts one stream of one translation unit into
  translate mode with page tables the caller supplies, only while the host controller is halted, and
  restores the saved registers when a flush or the readback fails.

  The register callbacks, the barrier, the delay and the caller's range predicate are parameters.
  The barrier and the delay may change the environment; they are not register accesses.
\<close>

section \<open>Registers\<close>

definition S175_XHCI_BASE :: u64 where "S175_XHCI_BASE = 0x502280000"
definition S175_DART1_BASE :: u64 where "S175_DART1_BASE = 0x502f80000"
definition S175_SID :: nat where "S175_SID = 1"
definition S175_DART_STREAM_COMMAND :: u64 where "S175_DART_STREAM_COMMAND = 0x20"
definition S175_DART_STREAM_COMMAND_BUSY :: u32 where "S175_DART_STREAM_COMMAND_BUSY = push_bit 2 1"
definition S175_DART_STREAM_COMMAND_INVAL :: u32 where "S175_DART_STREAM_COMMAND_INVAL = push_bit 20 1"
definition S175_DART_STREAM_SELECT :: u64 where "S175_DART_STREAM_SELECT = 0x34"
definition S175_DART_ERROR :: u64 where "S175_DART_ERROR = 0x40"
definition S175_DART_ERROR_ADDR_LO :: u64 where "S175_DART_ERROR_ADDR_LO = 0x50"
definition S175_DART_ERROR_ADDR_HI :: u64 where "S175_DART_ERROR_ADDR_HI = 0x54"
definition S175_DART_CONFIG :: u64 where "S175_DART_CONFIG = 0x60"
definition S175_DART_CONFIG_LOCK :: u32 where "S175_DART_CONFIG_LOCK = push_bit 15 1"
definition S175_DART_ENABLED_STREAMS :: u64 where "S175_DART_ENABLED_STREAMS = 0xfc"
definition S175_DART_TCR :: "nat \<Rightarrow> u64" where "S175_DART_TCR sid = 0x100 + 4 * word_of_nat sid"
definition S175_DART_TCR_TRANSLATE :: u32 where "S175_DART_TCR_TRANSLATE = push_bit 7 1"
definition S175_DART_TCR_BYPASS_DART :: u32 where "S175_DART_TCR_BYPASS_DART = push_bit 8 1"
definition S175_DART_TTBR :: "nat \<Rightarrow> nat \<Rightarrow> u64" where "S175_DART_TTBR sid n = 0x200 + 16 * word_of_nat sid + 4 * word_of_nat n"
definition S175_DART_TTBR_VALID :: u32 where "S175_DART_TTBR_VALID = push_bit 31 1"
definition S175_DART_TTBR_ADDR_MASK :: u32 where "S175_DART_TTBR_ADDR_MASK = 0x7fffffff"
definition S175_DART_TTBR_SHIFT :: nat where "S175_DART_TTBR_SHIFT = 12"
definition S175_DART_L1_TABLE_BYTES :: u64 where "S175_DART_L1_TABLE_BYTES = 0x4000"
definition S175_FLUSH_TIMEOUT_US :: nat where "S175_FLUSH_TIMEOUT_US = 100"

definition D_reg :: "u64 \<Rightarrow> u64" where "D_reg off = S175_DART1_BASE + off"
definition ENABLED_BIT :: u32 where "ENABLED_BIT = push_bit S175_SID 1"

abbreviation TTBR_reg :: "nat \<Rightarrow> u64" where "TTBR_reg n \<equiv> D_reg (S175_DART_TTBR S175_SID n)"
abbreviation TCR_reg :: u64 where "TCR_reg \<equiv> D_reg (S175_DART_TCR S175_SID)"
abbreviation ENABLED_reg :: u64 where "ENABLED_reg \<equiv> D_reg S175_DART_ENABLED_STREAMS"

definition s175_translate_tcr :: "u32 \<Rightarrow> u32" where
  "s175_translate_tcr baseline = (baseline AND NOT S175_DART_TCR_BYPASS_DART) OR S175_DART_TCR_TRANSLATE"

section \<open>Interface and result\<close>

record 'e s175_ops =
  s_read32 :: "('e, u32) reg_read option"
  s_write32 :: "('e, u32) reg_write option"
  s_dsb :: "('e \<Rightarrow> 'e) option"
  s_delay_us :: "('e \<Rightarrow> u32 \<Rightarrow> 'e) option"
  s_table_in_range :: "('e \<Rightarrow> u64 \<Rightarrow> u64 \<Rightarrow> bool) option"

text \<open>The callbacks once they are known to be present.\<close>

record 'e s175_calls =
  c_rd :: "('e, u32) reg_read"
  c_wr :: "('e, u32) reg_write"
  c_dsb :: "'e \<Rightarrow> 'e"
  c_delay :: "'e \<Rightarrow> u32 \<Rightarrow> 'e"
  c_in_range :: "'e \<Rightarrow> u64 \<Rightarrow> u64 \<Rightarrow> bool"

definition ops_valid :: "'e s175_ops option \<Rightarrow> 'e s175_calls option" where
  "ops_valid ops =
     (case ops of None \<Rightarrow> None | Some o1 \<Rightarrow>
       (case (s_read32 o1, s_write32 o1, s_dsb o1, s_delay_us o1, s_table_in_range o1) of
          (Some rd, Some wr, Some db, Some dl, Some tr) \<Rightarrow>
            Some \<lparr>c_rd = rd, c_wr = wr, c_dsb = db, c_delay = dl, c_in_range = tr\<rparr>
        | _ \<Rightarrow> None))"

datatype s175_status = S175_OK | S175_ERR_BAD_ARGS | S175_ERR_XHC_CAPLEN | S175_ERR_XHC_NOT_HALTED
  | S175_ERR_SOURCE_INVALID | S175_ERR_LOCKED | S175_ERR_FLUSH_BUSY | S175_ERR_READBACK

datatype s175_restore = S175_RESTORE_NOT_ATTEMPTED | S175_RESTORE_OK | S175_RESTORE_SKIPPED_XHC_RUNNING
  | S175_RESTORE_FAILED_READBACK | S175_RESTORE_FLUSH_BUSY

record s175_snapshot =
  sn_config :: u32
  sn_enabled_streams :: u32
  sn_tcr :: u32
  sn_ttbr :: "u32 list"
  sn_error :: u32
  sn_error_lo :: u32
  sn_error_hi :: u32
  sn_usbcmd :: u32
  sn_usbsts :: u32

definition snapshot_zero :: s175_snapshot where
  "snapshot_zero = \<lparr>sn_config = 0, sn_enabled_streams = 0, sn_tcr = 0, sn_ttbr = [0, 0, 0, 0], sn_error = 0, sn_error_lo = 0,
     sn_error_hi = 0, sn_usbcmd = 0, sn_usbsts = 0\<rparr>"

record s175_result =
  sr_status :: s175_status
  sr_restore :: s175_restore
  sr_wrote_anything :: bool
  sr_before :: s175_snapshot
  sr_after :: s175_snapshot
  sr_tcr_programmed :: u32
  sr_flush_wait_us :: nat
  sr_restore_flush_wait_us :: nat
  sr_mismatch_reg :: int
  sr_mismatch_expected :: u32
  sr_mismatch_observed :: u32

definition result_zero :: s175_result where
  "result_zero = \<lparr>sr_status = S175_OK, sr_restore = S175_RESTORE_NOT_ATTEMPTED, sr_wrote_anything = False, sr_before = snapshot_zero,
     sr_after = snapshot_zero, sr_tcr_programmed = 0, sr_flush_wait_us = 0, sr_restore_flush_wait_us = 0, sr_mismatch_reg = -1,
     sr_mismatch_expected = 0, sr_mismatch_observed = 0\<rparr>"

type_synonym 'e dart = "('e, u32) io_state"

section \<open>Operations\<close>

definition d_dsb :: "'e s175_calls \<Rightarrow> 'e dart \<Rightarrow> 'e dart" where
  "d_dsb o1 s = s\<lparr>io_env := c_dsb o1 (io_env s)\<rparr>"

definition d_delay :: "'e s175_calls \<Rightarrow> 'e dart \<Rightarrow> 'e dart" where
  "d_delay o1 s = s\<lparr>io_env := c_delay o1 (io_env s) 1\<rparr>"

fun io_reads :: "('e, 'v) reg_read \<Rightarrow> u64 list \<Rightarrow> ('e, 'v) io_state \<Rightarrow> 'v list \<times> ('e, 'v) io_state" where
  "io_reads rd [] s = ([], s)"
| "io_reads rd (a # as) s = (let (v, s1) = io_read rd a s; (vs, s2) = io_reads rd as s1 in (v # vs, s2))"

definition snap :: "'e s175_calls \<Rightarrow> u64 \<Rightarrow> 'e dart \<Rightarrow> s175_snapshot \<times> 'e dart" where
  "snap o1 opb s =
     (let (v, s1) = io_reads (c_rd o1) [D_reg S175_DART_CONFIG, ENABLED_reg, TCR_reg, TTBR_reg 0, TTBR_reg 1, TTBR_reg 2, TTBR_reg 3,
            D_reg S175_DART_ERROR, D_reg S175_DART_ERROR_ADDR_LO, D_reg S175_DART_ERROR_ADDR_HI, opb, opb + 4] s
      in (\<lparr>sn_config = v ! 0, sn_enabled_streams = v ! 1, sn_tcr = v ! 2, sn_ttbr = take 4 (drop 3 v), sn_error = v ! 7,
           sn_error_lo = v ! 8, sn_error_hi = v ! 9, sn_usbcmd = v ! 10, sn_usbsts = v ! 11\<rparr>, s1))"

definition xhci_op_base :: "'e s175_calls \<Rightarrow> 'e dart \<Rightarrow> u64 \<times> 'e dart" where
  "xhci_op_base o1 s =
     (let (v, s1) = io_read (c_rd o1) S175_XHCI_BASE s; caplen = v AND 0xff
      in (if caplen = 0 \<or> caplen = 0xff then 0 else S175_XHCI_BASE + ucast caplen, s1))"

definition xhc_halted :: "'e s175_calls \<Rightarrow> u64 \<Rightarrow> 'e dart \<Rightarrow> bool \<times> 'e dart" where
  "xhc_halted o1 opb s =
     (let (usbcmd, s1) = io_read (c_rd o1) opb s; (usbsts, s2) = io_read (c_rd o1) (opb + 4) s1
      in (usbcmd AND 1 = 0 \<and> usbsts AND 1 \<noteq> 0, s2))"

text \<open>The wait of a flush, by the microseconds left; the result tells how many are left.\<close>

primrec flush_loop :: "'e s175_calls \<Rightarrow> nat \<Rightarrow> 'e dart \<Rightarrow> bool \<times> nat \<times> 'e dart" where
  "flush_loop o1 0 s =
     (let (v, s1) = io_read (c_rd o1) (D_reg S175_DART_STREAM_COMMAND) s in (v AND S175_DART_STREAM_COMMAND_BUSY = 0, 0, s1))"
| "flush_loop o1 (Suc n) s =
     (let (v, s1) = io_read (c_rd o1) (D_reg S175_DART_STREAM_COMMAND) s in
      if v AND S175_DART_STREAM_COMMAND_BUSY = 0 then (True, Suc n, s1) else flush_loop o1 n (d_delay o1 s1))"

definition flush_sid :: "'e s175_calls \<Rightarrow> 'e dart \<Rightarrow> bool \<times> nat \<times> 'e dart" where
  "flush_sid o1 s =
     (let s1 = io_write (c_wr o1) (D_reg S175_DART_STREAM_SELECT) ENABLED_BIT s;
          s2 = d_dsb o1 (io_write (c_wr o1) (D_reg S175_DART_STREAM_COMMAND) S175_DART_STREAM_COMMAND_INVAL s1);
          (done, left, s3) = flush_loop o1 S175_FLUSH_TIMEOUT_US s2
      in (done, S175_FLUSH_TIMEOUT_US - left, s3))"

definition mismatch :: "int \<Rightarrow> u32 \<Rightarrow> u32 \<Rightarrow> s175_result \<Rightarrow> s175_result" where
  "mismatch reg expected observed r =
     r\<lparr>sr_mismatch_reg := reg, sr_mismatch_expected := expected, sr_mismatch_observed := observed\<rparr>"

primrec verify_ttbr :: "'e s175_calls \<Rightarrow> nat \<Rightarrow> u32 list \<Rightarrow> s175_result \<Rightarrow> 'e dart \<Rightarrow> bool \<times> s175_result \<times> 'e dart" where
  "verify_ttbr o1 n [] r s = (True, r, s)"
| "verify_ttbr o1 n (t # ts) r s =
     (let (v, s1) = io_read (c_rd o1) (TTBR_reg n) s in
      if v \<noteq> t then (False, mismatch (int n) t v r, s1) else verify_ttbr o1 (Suc n) ts r s1)"

definition verify :: "'e s175_calls \<Rightarrow> u32 list \<Rightarrow> u32 \<Rightarrow> bool \<Rightarrow> s175_result \<Rightarrow> 'e dart \<Rightarrow> bool \<times> s175_result \<times> 'e dart" where
  "verify o1 ttbr tcr want_enabled r s =
     (case verify_ttbr o1 0 ttbr r s of (ok, r1, s1) \<Rightarrow>
        if \<not> ok then (False, r1, s1)
        else let (t, s2) = io_read (c_rd o1) TCR_reg s1 in
          if t \<noteq> tcr then (False, mismatch 4 tcr t r1, s2)
          else let (v, s3) = io_read (c_rd o1) ENABLED_reg s2;
                   en = v AND ENABLED_BIT; want = (if want_enabled then ENABLED_BIT else 0) in
            if en \<noteq> want then (False, mismatch 5 want en r1, s3) else (True, r1, s3))"

primrec write_ttbr :: "'e s175_calls \<Rightarrow> nat \<Rightarrow> u32 list \<Rightarrow> 'e dart \<Rightarrow> 'e dart" where
  "write_ttbr o1 n [] s = s"
| "write_ttbr o1 n (t # ts) s = write_ttbr o1 (Suc n) ts (io_write (c_wr o1) (TTBR_reg n) t s)"

definition restore_sid1 :: "'e s175_calls \<Rightarrow> u64 \<Rightarrow> s175_result \<Rightarrow> 'e dart \<Rightarrow> s175_restore \<times> s175_result \<times> 'e dart" where
  "restore_sid1 o1 opb r s =
     (let b = sr_before r; (halted, s1) = xhc_halted o1 opb s in
      if \<not> halted then (S175_RESTORE_SKIPPED_XHC_RUNNING, r, s1)
      else let s2 = io_write (c_wr o1) TCR_reg (sn_tcr b) (write_ttbr o1 0 (sn_ttbr b) s1);
               (en, s3) = io_read (c_rd o1) ENABLED_reg s2;
               want = (en AND NOT ENABLED_BIT) OR (sn_enabled_streams b AND ENABLED_BIT);
               s4 = d_dsb o1 (if want \<noteq> en then io_write (c_wr o1) ENABLED_reg want s3 else s3);
               (done, waited, s5) = flush_sid o1 s4;
               r1 = r\<lparr>sr_restore_flush_wait_us := waited\<rparr> in
        if \<not> done then (S175_RESTORE_FLUSH_BUSY, r1, s5)
        else (case verify o1 (sn_ttbr b) (sn_tcr b) (sn_enabled_streams b AND ENABLED_BIT \<noteq> 0) r1 s5 of (ok, r2, s6) \<Rightarrow>
          (if ok then S175_RESTORE_OK else S175_RESTORE_FAILED_READBACK, r2, s6)))"

definition finish :: "'e s175_calls \<Rightarrow> u64 \<Rightarrow> s175_status \<Rightarrow> s175_result \<Rightarrow> 'e dart \<Rightarrow> s175_result \<times> 'e dart" where
  "finish o1 opb st r s =
     (if sr_wrote_anything r
      then case snap o1 opb s of (sn, s1) \<Rightarrow> (r\<lparr>sr_status := st, sr_after := sn\<rparr>, s1)
      else (r\<lparr>sr_status := st\<rparr>, s))"

text \<open>The caller's tables: the first must be there, the others may be absent.\<close>

fun sources_ok :: "(u64 \<Rightarrow> u64 \<Rightarrow> bool) \<Rightarrow> nat \<Rightarrow> u32 list \<Rightarrow> bool" where
  "sources_ok in_range n [] = True"
| "sources_ok in_range n (t # ts) =
     (if t = 0 then n \<noteq> 0 \<and> sources_ok in_range (Suc n) ts
      else if t AND S175_DART_TTBR_VALID = 0 then False
      else if \<not> in_range (push_bit S175_DART_TTBR_SHIFT (ucast (t AND S175_DART_TTBR_ADDR_MASK))) S175_DART_L1_TABLE_BYTES then False
      else sources_ok in_range (Suc n) ts)"

definition failed :: "'e s175_calls \<Rightarrow> u64 \<Rightarrow> s175_status \<Rightarrow> s175_result \<Rightarrow> 'e dart \<Rightarrow> s175_result \<times> 'e dart" where
  "failed o1 opb st r s = (case restore_sid1 o1 opb r s of (rs, r1, s1) \<Rightarrow> finish o1 opb st (r1\<lparr>sr_restore := rs\<rparr>) s1)"

definition program_sid1 :: "'e s175_calls \<Rightarrow> u64 \<Rightarrow> u32 list \<Rightarrow> s175_result \<Rightarrow> 'e dart \<Rightarrow> s175_result \<times> 'e dart" where
  "program_sid1 o1 opb src r0 s0 =
     (let b = sr_before r0; tcr_new = s175_translate_tcr (sn_tcr b);
          r = r0\<lparr>sr_tcr_programmed := tcr_new, sr_wrote_anything := True\<rparr>;
          s1 = write_ttbr o1 0 src s0;
          s2 = (if sn_enabled_streams b AND ENABLED_BIT = 0
                then io_write (c_wr o1) ENABLED_reg (sn_enabled_streams b OR ENABLED_BIT) s1 else s1);
          s3 = d_dsb o1 (io_write (c_wr o1) TCR_reg tcr_new (d_dsb o1 s2));
          (done, waited, s4) = flush_sid o1 s3;
          r1 = r\<lparr>sr_flush_wait_us := waited\<rparr> in
      if \<not> done then failed o1 opb S175_ERR_FLUSH_BUSY r1 s4
      else (case verify o1 src tcr_new True r1 s4 of (ok, r2, s5) \<Rightarrow>
        if ok then finish o1 opb S175_OK r2 s5 else failed o1 opb S175_ERR_READBACK r2 s5))"

text \<open>The four source registers are a list of length four; the caller owns the result structure.\<close>

definition s175_dart1_sid1_translate ::
  "'e s175_ops option \<Rightarrow> u32 list option \<Rightarrow> 'e dart \<Rightarrow> s175_result \<times> 'e dart" where
  "s175_dart1_sid1_translate ops src_ttbr s =
     (case (ops_valid ops, src_ttbr) of
        (Some o1, Some src) \<Rightarrow>
          (case xhci_op_base o1 s of (opb, s1) \<Rightarrow>
             if opb = 0 then (result_zero\<lparr>sr_status := S175_ERR_XHC_CAPLEN\<rparr>, s1)
             else (case xhc_halted o1 opb s1 of (halted, s2) \<Rightarrow>
               if \<not> halted then (result_zero\<lparr>sr_status := S175_ERR_XHC_NOT_HALTED\<rparr>, s2)
               else if \<not> sources_ok (c_in_range o1 (io_env s2)) 0 src then (result_zero\<lparr>sr_status := S175_ERR_SOURCE_INVALID\<rparr>, s2)
               else (case snap o1 opb s2 of (b, s3) \<Rightarrow>
                 let r = result_zero\<lparr>sr_before := b\<rparr> in
                 if sn_config b AND S175_DART_CONFIG_LOCK \<noteq> 0 then (r\<lparr>sr_status := S175_ERR_LOCKED\<rparr>, s3)
                 else program_sid1 o1 opb src r s3)))
      | _ \<Rightarrow> (result_zero\<lparr>sr_status := S175_ERR_BAD_ARGS\<rparr>, s))"

section \<open>What the helper may write\<close>

text \<open>
  The registers of stream 1 and the two command registers may be written with any value; the shared
  register of enabled streams only with a value read from it before, changed in the bit of stream 1.
\<close>

definition stream_regs :: "u64 set" where
  "stream_regs = {TTBR_reg 0, TTBR_reg 1, TTBR_reg 2, TTBR_reg 3, TCR_reg, D_reg S175_DART_STREAM_SELECT, D_reg S175_DART_STREAM_COMMAND}"

inductive safe_log :: "u32 mmio_event list \<Rightarrow> bool" where
  log_empty: "safe_log []"
| log_read: "safe_log es \<Longrightarrow> safe_log (es @ [MRead a v])"
| log_stream: "safe_log es \<Longrightarrow> a \<in> stream_regs \<Longrightarrow> safe_log (es @ [MWrite a v])"
| log_enabled: "safe_log es \<Longrightarrow> MRead ENABLED_reg x \<in> set es \<Longrightarrow> v AND NOT ENABLED_BIT = x AND NOT ENABLED_BIT \<Longrightarrow>
    safe_log (es @ [MWrite ENABLED_reg v])"

text \<open>Every step extends the log, and keeps it safe.\<close>

definition extends :: "'e dart \<Rightarrow> 'e dart \<Rightarrow> bool" where
  "extends s s' \<longleftrightarrow> (\<exists>es. io_log s' = io_log s @ es) \<and> (safe_log (io_log s) \<longrightarrow> safe_log (io_log s'))"

lemma extends_refl [simp]: "extends s s"
  by (simp add: extends_def)

lemma extends_trans [trans]: "extends s t \<Longrightarrow> extends t u \<Longrightarrow> extends s u"
  by (auto simp: extends_def)

lemma extends_env: "extends s (s\<lparr>io_env := e\<rparr>)"
  by (simp add: extends_def)

lemma extends_dsb: "extends s t \<Longrightarrow> extends s (d_dsb o1 t)" and extends_delay: "extends s t \<Longrightarrow> extends s (d_delay o1 t)"
  by (auto simp: d_dsb_def d_delay_def intro: extends_trans extends_env)

lemma read_log: "io_read rd a s = (v, s') \<Longrightarrow> io_log s' = io_log s @ [MRead a v]"
  by (auto simp: io_read_def split: prod.splits)

lemma extends_read: "io_read rd a s = (v, s') \<Longrightarrow> extends s s'"
  by (auto simp: extends_def read_log intro: log_read)

lemma extends_stream: "a \<in> stream_regs \<Longrightarrow> extends s (io_write wr a v s)"
  by (auto simp: extends_def io_write_def intro: log_stream)

lemma extends_enabled:
  "MRead ENABLED_reg x \<in> set (io_log s) \<Longrightarrow> v AND NOT ENABLED_BIT = x AND NOT ENABLED_BIT \<Longrightarrow> extends s (io_write wr ENABLED_reg v s)"
  by (auto simp: extends_def io_write_def intro: log_enabled)

lemma extends_mem: "extends s s' \<Longrightarrow> e \<in> set (io_log s) \<Longrightarrow> e \<in> set (io_log s')"
  by (auto simp: extends_def)

lemma reads_log: "io_reads rd as s = (vs, s') \<Longrightarrow> length vs = length as \<and> io_log s' = io_log s @ map2 MRead as vs"
proof (induction "as" arbitrary: s vs)
  case (Cons a "as")
  obtain v s1 where r: "io_read rd a s = (v, s1)" by (rule prod.exhaust)
  obtain ws s2 where q: "io_reads rd as s1 = (ws, s2)" by (rule prod.exhaust)
  show ?case using Cons.prems Cons.IH [of s1 ws] read_log [OF r] by (auto simp: r q)
qed auto

lemma extends_reads: "io_reads rd as s = (vs, s') \<Longrightarrow> extends s s'"
proof (induction "as" arbitrary: s vs)
  case (Cons a "as")
  obtain v s1 where r: "io_read rd a s = (v, s1)" by (rule prod.exhaust)
  obtain ws s2 where q: "io_reads rd as s1 = (ws, s2)" by (rule prod.exhaust)
  show ?case using Cons.prems Cons.IH [of s1 ws] extends_read [OF r] by (auto simp: r q intro: extends_trans)
qed auto

lemma snap_law:
  assumes "snap o1 opb s = (b, s')"
  shows "extends s s'" and "MRead ENABLED_reg (sn_enabled_streams b) \<in> set (io_log s')" and "length (sn_ttbr b) = 4"
    and "io_writes s' = io_writes s"
proof -
  define regs where "regs = [D_reg S175_DART_CONFIG, ENABLED_reg, TCR_reg, TTBR_reg 0, TTBR_reg 1, TTBR_reg 2, TTBR_reg 3,
            D_reg S175_DART_ERROR, D_reg S175_DART_ERROR_ADDR_LO, D_reg S175_DART_ERROR_ADDR_HI, opb, opb + 4]"
  obtain v s1 where r: "io_reads (c_rd o1) regs s = (v, s1)" by (rule prod.exhaust)
  have b: "s' = s1" "sn_enabled_streams b = v ! 1" "sn_ttbr b = take 4 (drop 3 v)"
    using assms r unfolding snap_def regs_def [symmetric] by auto
  show "extends s s'" using extends_reads [OF r] b(1) by simp
  have l: "length v = length regs" "io_log s1 = io_log s @ map2 MRead regs v" using reads_log [OF r] by auto
  then show "length (sn_ttbr b) = 4" by (simp add: b(3) regs_def)
  have "map2 MRead regs v ! 1 = MRead ENABLED_reg (v ! 1)" using l(1) by (simp add: regs_def)
  moreover have "1 < length (map2 MRead regs v)" using l(1) by (simp add: regs_def)
  ultimately have "MRead ENABLED_reg (v ! 1) \<in> set (map2 MRead regs v)" by (metis nth_mem)
  then show "MRead ENABLED_reg (sn_enabled_streams b) \<in> set (io_log s')" using l(2) b by simp
  have "writes_of (map2 MRead as w) = []" for "as" and w :: "u32 list" by (induction "as" w rule: list_induct2') simp_all
  then show "io_writes s' = io_writes s" using l(2) b(1) by simp
qed

lemma halted_law:
  assumes "xhc_halted o1 opb s = (h, s')"
  shows "extends s s'" and "io_writes s' = io_writes s"
proof -
  obtain v s1 where r: "io_read (c_rd o1) opb s = (v, s1)" by (rule prod.exhaust)
  obtain w s2 where q: "io_read (c_rd o1) (opb + 4) s1 = (w, s2)" by (rule prod.exhaust)
  have "s' = s2" using assms by (simp add: xhc_halted_def r q)
  then show "extends s s'" "io_writes s' = io_writes s"
    using extends_trans [OF extends_read [OF r] extends_read [OF q]] io_readE [OF r] io_readE [OF q] by simp_all
qed

lemma flush_loop_law: "flush_loop o1 n s = (d, k, s') \<Longrightarrow> extends s s'"
proof (induction n arbitrary: s)
  case 0
  then show ?case by (auto split: prod.splits intro: extends_read)
next
  case (Suc n)
  obtain v s1 where r: "io_read (c_rd o1) (D_reg S175_DART_STREAM_COMMAND) s = (v, s1)" by (rule prod.exhaust)
  have "extends s (d_delay o1 s1)" using extends_delay [OF extends_read [OF r]] .
  then show ?case using Suc.prems Suc.IH [of "d_delay o1 s1"] extends_read [OF r] by (auto simp: r intro: extends_trans split: if_splits)
qed

lemma flush_law: "flush_sid o1 s = (d, w, s') \<Longrightarrow> extends s s'"
proof -
  assume a: "flush_sid o1 s = (d, w, s')"
  let ?t = "d_dsb o1 (io_write (c_wr o1) (D_reg S175_DART_STREAM_COMMAND) S175_DART_STREAM_COMMAND_INVAL
      (io_write (c_wr o1) (D_reg S175_DART_STREAM_SELECT) ENABLED_BIT s))"
  have "extends s ?t" by (intro extends_dsb extends_trans [OF extends_stream extends_stream]) (simp_all add: stream_regs_def)
  moreover obtain d' k s3 where f: "flush_loop o1 S175_FLUSH_TIMEOUT_US ?t = (d', k, s3)" by (metis prod_cases3)
  ultimately show ?thesis using a flush_loop_law [OF f] by (auto simp: flush_sid_def Let_def f intro: extends_trans)
qed

text \<open>The reads of a verification that found every register as expected.\<close>

definition readback :: "u32 list \<Rightarrow> u32 \<Rightarrow> u32 \<Rightarrow> u32 mmio_event list" where
  "readback ttbr tcr en = map (\<lambda>(n, t). MRead (TTBR_reg n) t) (enumerate 0 ttbr) @ [MRead TCR_reg tcr, MRead ENABLED_reg en]"

lemma verify_ttbr_law:
  "verify_ttbr o1 n ts r s = (ok, r', s') \<Longrightarrow>
   extends s s' \<and> sr_before r' = sr_before r \<and> sr_wrote_anything r' = sr_wrote_anything r \<and> sr_restore r' = sr_restore r \<and>
   (ok \<longrightarrow> io_log s' = io_log s @ map (\<lambda>(n, t). MRead (TTBR_reg n) t) (enumerate n ts))"
proof (induction ts arbitrary: n s)
  case (Cons t ts)
  obtain v s1 where r: "io_read (c_rd o1) (TTBR_reg n) s = (v, s1)" by (rule prod.exhaust)
  show ?case
  proof (cases "v = t")
    case True
    then have "verify_ttbr o1 (Suc n) ts r s1 = (ok, r', s')" using Cons.prems by (simp add: r)
    from Cons.IH [OF this] show ?thesis using read_log [OF r] True extends_trans [OF extends_read [OF r]] by auto
  next
    case False
    then show ?thesis using Cons.prems extends_read [OF r] by (auto simp: r mismatch_def)
  qed
qed simp

lemma verify_law:
  assumes "verify o1 ttbr tcr want r s = (ok, r', s')"
  shows "extends s s'" and "sr_before r' = sr_before r" and "sr_wrote_anything r' = sr_wrote_anything r" and "sr_restore r' = sr_restore r"
    and "ok \<Longrightarrow> \<exists>en. io_log s' = io_log s @ readback ttbr tcr en \<and> en AND ENABLED_BIT = (if want then ENABLED_BIT else 0)"
proof -
  obtain k r1 s1 where v: "verify_ttbr o1 0 ttbr r s = (k, r1, s1)" by (metis prod_cases3)
  obtain t s2 where t: "io_read (c_rd o1) TCR_reg s1 = (t, s2)" by (rule prod.exhaust)
  obtain e s3 where e: "io_read (c_rd o1) ENABLED_reg s2 = (e, s3)" by (rule prod.exhaust)
  note l = verify_ttbr_law [OF v]
  have x: "extends s s1" "extends s s2" "extends s s3"
    using l extends_read [OF t] extends_read [OF e] by (auto intro: extends_trans)
  have out: "(ok, r', s') = (if \<not> k then (False, r1, s1) else if t \<noteq> tcr then (False, mismatch 4 tcr t r1, s2)
      else if e AND ENABLED_BIT \<noteq> (if want then ENABLED_BIT else 0)
      then (False, mismatch 5 (if want then ENABLED_BIT else 0) (e AND ENABLED_BIT) r1, s3) else (True, r1, s3))"
    using assms unfolding verify_def v prod.case Let_def t e by (rule sym)
  show "extends s s'" using out x by (auto split: if_splits)
  show "sr_before r' = sr_before r" "sr_wrote_anything r' = sr_wrote_anything r" "sr_restore r' = sr_restore r"
    using out l by (auto simp: mismatch_def split: if_splits)
  show "\<exists>en. io_log s' = io_log s @ readback ttbr tcr en \<and> en AND ENABLED_BIT = (if want then ENABLED_BIT else 0)" if ok
  proof -
    have "k" "t = tcr" "e AND ENABLED_BIT = (if want then ENABLED_BIT else 0)" "s' = s3"
      using out that by (auto split: if_splits)
    then show ?thesis using l read_log [OF t] read_log [OF e] by (auto simp: readback_def)
  qed
qed

lemma ttbr_stream: "n < 4 \<Longrightarrow> TTBR_reg n \<in> stream_regs"
proof -
  assume "n < 4"
  then have "n = 0 \<or> n = 1 \<or> n = 2 \<or> n = 3" by auto
  then show ?thesis by (auto simp: stream_regs_def)
qed

lemma write_ttbr_law: "n + length ts \<le> 4 \<Longrightarrow> extends s (write_ttbr o1 n ts s)"
proof (induction ts arbitrary: n s)
  case (Cons t ts)
  have "extends s (io_write (c_wr o1) (TTBR_reg n) t s)" using Cons.prems by (intro extends_stream ttbr_stream) simp
  then show ?case using Cons.IH [of "Suc n"] Cons.prems by (auto intro: extends_trans)
qed simp

text \<open>The readback at the end of a log, with nothing written after it.\<close>

definition ends_read_back :: "u32 list \<Rightarrow> u32 \<Rightarrow> u32 \<Rightarrow> u32 mmio_event list \<Rightarrow> bool" where
  "ends_read_back ttbr tcr want es \<longleftrightarrow>
     (\<exists>pre en post. es = pre @ readback ttbr tcr en @ post \<and> en AND ENABLED_BIT = want \<and> writes_of post = [])"

lemma enabled_bit_values: "x AND ENABLED_BIT = (if x AND ENABLED_BIT \<noteq> 0 then ENABLED_BIT else 0)"
proof -
  have b: "bit ENABLED_BIT n \<longleftrightarrow> n = S175_SID" for n by (auto simp: ENABLED_BIT_def S175_SID_def bit_simps)
  have "x AND ENABLED_BIT = (if bit x S175_SID then ENABLED_BIT else 0)"
    by (rule bit_word_eqI) (auto simp: bit_simps b)
  moreover have "ENABLED_BIT \<noteq> 0" by (simp add: ENABLED_BIT_def S175_SID_def)
  ultimately show ?thesis by (simp split: if_splits)
qed

lemma restore_law:
  assumes "restore_sid1 o1 opb r s = (rs, r', s')" and "length (sn_ttbr (sr_before r)) = 4"
  defines "b \<equiv> sr_before r"
  shows "extends s s'" and "sr_before r' = b" and "sr_wrote_anything r' = sr_wrote_anything r"
    and "rs = S175_RESTORE_OK \<Longrightarrow> ends_read_back (sn_ttbr b) (sn_tcr b) (sn_enabled_streams b AND ENABLED_BIT) (io_log s')"
    and "rs \<noteq> S175_RESTORE_NOT_ATTEMPTED"
proof -
  obtain h s1 where h: "xhc_halted o1 opb s = (h, s1)" by (rule prod.exhaust)
  define s2 where "s2 = io_write (c_wr o1) TCR_reg (sn_tcr b) (write_ttbr o1 0 (sn_ttbr b) s1)"
  obtain en s3 where e: "io_read (c_rd o1) ENABLED_reg s2 = (en, s3)" by (rule prod.exhaust)
  define want where "want = (en AND NOT ENABLED_BIT) OR (sn_enabled_streams b AND ENABLED_BIT)"
  define s4 where "s4 = d_dsb o1 (if want \<noteq> en then io_write (c_wr o1) ENABLED_reg want s3 else s3)"
  obtain d w s5 where f: "flush_sid o1 s4 = (d, w, s5)" by (metis prod_cases3)
  define r1 where "r1 = r\<lparr>sr_restore_flush_wait_us := w\<rparr>"
  obtain ok r2 s6 where v: "verify o1 (sn_ttbr b) (sn_tcr b) (sn_enabled_streams b AND ENABLED_BIT \<noteq> 0) r1 s5 = (ok, r2, s6)"
    by (metis prod_cases3)
  have out: "(rs, r', s') = (if \<not> h then (S175_RESTORE_SKIPPED_XHC_RUNNING, r, s1) else if \<not> d then (S175_RESTORE_FLUSH_BUSY, r1, s5)
      else (if ok then S175_RESTORE_OK else S175_RESTORE_FAILED_READBACK, r2, s6))"
    using assms(1) unfolding restore_sid1_def Let_def b_def [symmetric] h prod.case s2_def [symmetric] e want_def [symmetric]
      s4_def [symmetric] f r1_def [symmetric] v by (rule sym)
  have x1: "extends s s1" by (rule halted_law(1) [OF h])
  have "extends s1 (write_ttbr o1 0 (sn_ttbr b) s1)" using assms(2) by (intro write_ttbr_law) (simp add: b_def)
  moreover have "extends (write_ttbr o1 0 (sn_ttbr b) s1) s2" unfolding s2_def by (rule extends_stream) (simp add: stream_regs_def)
  ultimately have x2: "extends s1 s2" by (rule extends_trans)
  have w: "want AND NOT ENABLED_BIT = en AND NOT ENABLED_BIT"
    unfolding want_def by (rule bit_word_eqI) (auto simp: bit_simps)
  have "extends s3 (if want \<noteq> en then io_write (c_wr o1) ENABLED_reg want s3 else s3)"
    using extends_enabled [OF _ w, of s3 "c_wr o1"] read_log [OF e] by simp
  then have x4: "extends s2 s4" unfolding s4_def by (intro extends_dsb extends_trans [OF extends_read [OF e]])
  have x5: "extends s s5" using x1 x2 x4 flush_law [OF f] by (blast intro: extends_trans)
  have x6: "extends s s6" using x5 verify_law(1) [OF v] by (blast intro: extends_trans)
  show "extends s s'" using out x1 x5 x6 by (auto split: if_splits)
  show "sr_before r' = b" "sr_wrote_anything r' = sr_wrote_anything r"
    using out verify_law(2,3) [OF v] by (auto simp: r1_def b_def split: if_splits)
  show "rs \<noteq> S175_RESTORE_NOT_ATTEMPTED" using out by (auto split: if_splits)
  show "ends_read_back (sn_ttbr b) (sn_tcr b) (sn_enabled_streams b AND ENABLED_BIT) (io_log s')" if "rs = S175_RESTORE_OK"
  proof -
    have ok "s' = s6" using out that by (auto split: if_splits)
    then obtain x where "io_log s' = io_log s5 @ readback (sn_ttbr b) (sn_tcr b) x"
      "x AND ENABLED_BIT = (if sn_enabled_streams b AND ENABLED_BIT \<noteq> 0 then ENABLED_BIT else 0)"
      using verify_law(5) [OF v] by blast
    then show ?thesis
      unfolding ends_read_back_def using enabled_bit_values [of "sn_enabled_streams b"]
      by (intro exI [of _ "io_log s5"] exI [of _ x] exI [of _ "[]"]) simp
  qed
qed

lemma finish_law:
  assumes "finish o1 opb st r s = (r', s')"
  shows "extends s s'" and "sr_before r' = sr_before r" and "sr_status r' = st" and "sr_restore r' = sr_restore r"
    and "ends_read_back ttbr tcr want (io_log s) \<Longrightarrow> ends_read_back ttbr tcr want (io_log s')"
proof -
  obtain sn s1 where n: "snap o1 opb s = (sn, s1)" by (rule prod.exhaust)
  have s': "s' = s \<or> s' = s1" and r': "sr_before r' = sr_before r \<and> sr_status r' = st \<and> sr_restore r' = sr_restore r"
    using assms by (auto simp: finish_def n split: if_splits)
  show "extends s s'" using s' snap_law(1) [OF n] by auto
  show "sr_before r' = sr_before r" "sr_status r' = st" "sr_restore r' = sr_restore r" using r' by simp_all
  assume "ends_read_back ttbr tcr want (io_log s)"
  then obtain pre en post where l: "io_log s = pre @ readback ttbr tcr en @ post" "en AND ENABLED_BIT = want" "writes_of post = []"
    by (auto simp: ends_read_back_def)
  obtain es where es: "io_log s' = io_log s @ es" "writes_of es = []"
    using s' snap_law(1,4) [OF n] by (auto simp: extends_def)
  show "ends_read_back ttbr tcr want (io_log s')"
    unfolding ends_read_back_def using l es by (intro exI [of _ pre] exI [of _ en] exI [of _ "post @ es"]) simp
qed

lemma failed_law:
  assumes "failed o1 opb st r s = (r', s')" and "length (sn_ttbr (sr_before r)) = 4"
  defines "b \<equiv> sr_before r"
  shows "extends s s'" and "sr_before r' = b" and "sr_status r' = st"
    and "sr_restore r' = S175_RESTORE_OK \<Longrightarrow> ends_read_back (sn_ttbr b) (sn_tcr b) (sn_enabled_streams b AND ENABLED_BIT) (io_log s')"
proof -
  obtain rs r1 s1 where v: "restore_sid1 o1 opb r s = (rs, r1, s1)" by (metis prod_cases3)
  have f: "finish o1 opb st (r1\<lparr>sr_restore := rs\<rparr>) s1 = (r', s')" using assms(1) by (simp add: failed_def v)
  note l = restore_law [OF v assms(2)] and m = finish_law [OF f]
  show "extends s s'" using l(1) m(1) by (rule extends_trans)
  show "sr_before r' = b" "sr_status r' = st" using l(2) m(2,3) by (simp_all add: b_def)
  show "ends_read_back (sn_ttbr b) (sn_tcr b) (sn_enabled_streams b AND ENABLED_BIT) (io_log s')" if "sr_restore r' = S175_RESTORE_OK"
    using m(5) l(4) m(4) that by (simp add: b_def)
qed

lemma program_law:
  assumes "program_sid1 o1 opb src r0 s0 = (r', s')" and "length src = 4"
    and "MRead ENABLED_reg (sn_enabled_streams (sr_before r0)) \<in> set (io_log s0)" and "length (sn_ttbr (sr_before r0)) = 4"
    and "sr_restore r0 = S175_RESTORE_NOT_ATTEMPTED"
  defines "b \<equiv> sr_before r0"
  shows "extends s0 s'" and "sr_before r' = b" and "sr_status r' \<in> {S175_OK, S175_ERR_FLUSH_BUSY, S175_ERR_READBACK}"
    and "sr_status r' = S175_OK \<Longrightarrow> ends_read_back src (s175_translate_tcr (sn_tcr b)) ENABLED_BIT (io_log s')"
    and "sr_restore r' = S175_RESTORE_OK \<Longrightarrow> ends_read_back (sn_ttbr b) (sn_tcr b) (sn_enabled_streams b AND ENABLED_BIT) (io_log s')"
proof -
  define tcr where "tcr = s175_translate_tcr (sn_tcr b)"
  define r where "r = r0\<lparr>sr_tcr_programmed := tcr, sr_wrote_anything := True\<rparr>"
  define s1 where "s1 = write_ttbr o1 0 src s0"
  define s2 where "s2 = (if sn_enabled_streams b AND ENABLED_BIT = 0
      then io_write (c_wr o1) ENABLED_reg (sn_enabled_streams b OR ENABLED_BIT) s1 else s1)"
  define s3 where "s3 = d_dsb o1 (io_write (c_wr o1) TCR_reg tcr (d_dsb o1 s2))"
  obtain d w s4 where f: "flush_sid o1 s3 = (d, w, s4)" by (metis prod_cases3)
  define r1 where "r1 = r\<lparr>sr_flush_wait_us := w\<rparr>"
  obtain ok r2 s5 where v: "verify o1 src tcr True r1 s4 = (ok, r2, s5)" by (metis prod_cases3)
  have out: "(r', s') = (if \<not> d then failed o1 opb S175_ERR_FLUSH_BUSY r1 s4
      else if ok then finish o1 opb S175_OK r2 s5 else failed o1 opb S175_ERR_READBACK r2 s5)"
    using assms(1) unfolding program_sid1_def Let_def b_def [symmetric] tcr_def [symmetric] r_def [symmetric] s1_def [symmetric]
      s2_def [symmetric] s3_def [symmetric] f prod.case r1_def [symmetric] v by (rule sym)
  have x1: "extends s0 s1" unfolding s1_def by (rule write_ttbr_law) (simp add: assms(2))
  have m: "MRead ENABLED_reg (sn_enabled_streams b) \<in> set (io_log s1)" using extends_mem [OF x1 assms(3)] by (simp add: b_def)
  have k: "(sn_enabled_streams b OR ENABLED_BIT) AND NOT ENABLED_BIT = sn_enabled_streams b AND NOT ENABLED_BIT"
    by (rule bit_word_eqI) (auto simp: bit_simps)
  have x2: "extends s1 s2" unfolding s2_def using extends_enabled [OF m k, of "c_wr o1"] by simp
  have "extends (d_dsb o1 s2) (io_write (c_wr o1) TCR_reg tcr (d_dsb o1 s2))" by (rule extends_stream) (simp add: stream_regs_def)
  then have x3: "extends s2 s3" unfolding s3_def by (rule extends_dsb [OF extends_trans [OF extends_dsb [OF extends_refl]]])
  have x4: "extends s0 s4" using x1 x2 x3 flush_law [OF f] by (blast intro: extends_trans)
  have x5: "extends s0 s5" using x4 verify_law(1) [OF v] by (blast intro: extends_trans)
  have b1: "sr_before r1 = b" "sr_restore r1 = S175_RESTORE_NOT_ATTEMPTED" by (simp_all add: r1_def r_def b_def assms(5))
  have b2: "sr_before r2 = b" "sr_restore r2 = S175_RESTORE_NOT_ATTEMPTED" using verify_law(2,4) [OF v] b1 by simp_all
  have n1: "length (sn_ttbr (sr_before r1)) = 4" "length (sn_ttbr (sr_before r2)) = 4" using assms(4) b1(1) b2(1) by (simp_all add: b_def)
  have good: "ends_read_back src tcr ENABLED_BIT (io_log s5)" if o: ok
  proof -
    obtain en where "io_log s5 = io_log s4 @ readback src tcr en" "en AND ENABLED_BIT = ENABLED_BIT" using verify_law(5) [OF v o] by auto
    then show ?thesis unfolding ends_read_back_def by (intro exI [of _ "io_log s4"] exI [of _ en] exI [of _ "[]"]) simp
  qed
  consider (busy) "failed o1 opb S175_ERR_FLUSH_BUSY r1 s4 = (r', s')" | (ok) ok "finish o1 opb S175_OK r2 s5 = (r', s')"
    | (bad) "failed o1 opb S175_ERR_READBACK r2 s5 = (r', s')" using out by (auto split: if_splits)
  then have "extends s0 s' \<and> sr_before r' = b \<and> sr_status r' \<in> {S175_OK, S175_ERR_FLUSH_BUSY, S175_ERR_READBACK} \<and>
      (sr_status r' = S175_OK \<longrightarrow> ends_read_back src tcr ENABLED_BIT (io_log s')) \<and>
      (sr_restore r' = S175_RESTORE_OK \<longrightarrow> ends_read_back (sn_ttbr b) (sn_tcr b) (sn_enabled_streams b AND ENABLED_BIT) (io_log s'))"
  proof cases
    case busy
    then show ?thesis using failed_law [OF busy n1(1)] b1 extends_trans [OF x4] by simp
  next
    case ok
    then show ?thesis using finish_law [OF ok(2)] b2 extends_trans [OF x5] good by simp
  next
    case bad
    then show ?thesis using failed_law [OF bad n1(2)] b2 extends_trans [OF x5] by simp
  qed
  then show "extends s0 s'" "sr_before r' = b" "sr_status r' \<in> {S175_OK, S175_ERR_FLUSH_BUSY, S175_ERR_READBACK}"
    "sr_status r' = S175_OK \<Longrightarrow> ends_read_back src (s175_translate_tcr (sn_tcr b)) ENABLED_BIT (io_log s')"
    "sr_restore r' = S175_RESTORE_OK \<Longrightarrow> ends_read_back (sn_ttbr b) (sn_tcr b) (sn_enabled_streams b AND ENABLED_BIT) (io_log s')"
    unfolding tcr_def by blast+
qed

text \<open>
  C17. Whatever the hardware answers, the helper writes only the registers of stream 1, the stream
  selection and the stream command of its one translation unit, and the enabled streams only with a
  value read before and changed in the bit of stream 1.  A refusal writes nothing.  Success, and a
  restore reported as done, each follow a complete readback of the page table registers, the control
  register and the enable bit, with no write after it.
\<close>

theorem dart_translate_confined:
  assumes "length src = 4" and "s175_dart1_sid1_translate ops (Some src) \<lparr>io_env = e, io_log = []\<rparr> = (r, s')"
  shows "safe_log (io_log s') \<and>
     (sr_status r \<notin> {S175_OK, S175_ERR_FLUSH_BUSY, S175_ERR_READBACK} \<longrightarrow> io_writes s' = []) \<and>
     (sr_status r = S175_OK \<longrightarrow> ends_read_back src (s175_translate_tcr (sn_tcr (sr_before r))) ENABLED_BIT (io_log s')) \<and>
     (sr_restore r = S175_RESTORE_OK \<longrightarrow>
        ends_read_back (sn_ttbr (sr_before r)) (sn_tcr (sr_before r)) (sn_enabled_streams (sr_before r) AND ENABLED_BIT) (io_log s'))"
proof (cases "ops_valid ops")
  case None
  then show ?thesis using assms(2) by (auto simp: s175_dart1_sid1_translate_def result_zero_def intro: log_empty)
next
  case (Some o1)
  let ?s = "\<lparr>io_env = e, io_log = []\<rparr>"
  obtain v s1 where v: "io_read (c_rd o1) S175_XHCI_BASE ?s = (v, s1)" by (rule prod.exhaust)
  obtain opb where x: "xhci_op_base o1 ?s = (opb, s1)" by (simp add: xhci_op_base_def v Let_def)
  obtain h s2 where h: "xhc_halted o1 opb s1 = (h, s2)" by (rule prod.exhaust)
  obtain b s3 where n: "snap o1 opb s2 = (b, s3)" by (rule prod.exhaust)
  have w: "io_writes s1 = []" "io_writes s2 = []" "io_writes s3 = []"
    using io_readE [OF v] halted_law(2) [OF h] snap_law(4) [OF n] by simp_all
  have ex: "extends ?s s1" "extends ?s s2" "extends ?s s3"
    using extends_read [OF v] halted_law(1) [OF h] snap_law(1) [OF n] by (auto intro: extends_trans)
  have safe: "safe_log (io_log t)" if "extends ?s t" for t using that log_empty by (simp add: extends_def)
  have "(r, s') = (if opb = 0 then (result_zero\<lparr>sr_status := S175_ERR_XHC_CAPLEN\<rparr>, s1)
      else if \<not> h then (result_zero\<lparr>sr_status := S175_ERR_XHC_NOT_HALTED\<rparr>, s2)
      else if \<not> sources_ok (c_in_range o1 (io_env s2)) 0 src then (result_zero\<lparr>sr_status := S175_ERR_SOURCE_INVALID\<rparr>, s2)
      else if sn_config b AND S175_DART_CONFIG_LOCK \<noteq> 0 then (result_zero\<lparr>sr_before := b, sr_status := S175_ERR_LOCKED\<rparr>, s3)
      else program_sid1 o1 opb src (result_zero\<lparr>sr_before := b\<rparr>) s3)"
    using assms(2) by (simp add: s175_dart1_sid1_translate_def Some x h n Let_def split: if_splits)
  then consider (early) "extends ?s s'" "io_writes s' = []" "sr_restore r = S175_RESTORE_NOT_ATTEMPTED" "sr_status r \<noteq> S175_OK"
    | (prog) "program_sid1 o1 opb src (result_zero\<lparr>sr_before := b\<rparr>) s3 = (r, s')"
    using ex w by (simp add: result_zero_def split: if_splits)
  then show ?thesis
  proof cases
    case early
    then show ?thesis using safe by simp
  next
    case prog
    note l = program_law [OF prog assms(1)]
    show ?thesis using l snap_law(2,3) [OF n] ex(3) safe by (auto simp: result_zero_def intro: extends_trans)
  qed
qed

text \<open>A unit whose registers keep what is written, with the controller halted.\<close>

definition plain_dart :: "(u64 \<Rightarrow> u32) s175_ops" where
  "plain_dart = \<lparr>s_read32 = Some (\<lambda>m a. (if a = S175_XHCI_BASE then 0x20 else if a = S175_XHCI_BASE + 0x24 then 1
       else if a = D_reg S175_DART_STREAM_COMMAND then 0 else m a, m)),
     s_write32 = Some (\<lambda>m a v. m(a := v)), s_dsb = Some (\<lambda>m. m), s_delay_us = Some (\<lambda>m n. m), s_table_in_range = Some (\<lambda>m a n. True)\<rparr>"

lemma plain_dart_translates:
  "sr_status (fst (s175_dart1_sid1_translate (Some plain_dart) (Some [0x80900000, 0, 0, 0]) \<lparr>io_env = (\<lambda>a. 0), io_log = []\<rparr>)) = S175_OK"
  by code_simp

theorem dart_translate_confined_witness:
  "sr_status (fst (s175_dart1_sid1_translate (Some plain_dart) (Some [0x80900000, 0, 0, 0]) \<lparr>io_env = (\<lambda>a. 0), io_log = []\<rparr>)) = S175_OK \<and>
   safe_log (io_log (snd (s175_dart1_sid1_translate (Some plain_dart) (Some [0x80900000, 0, 0, 0]) \<lparr>io_env = (\<lambda>a. 0), io_log = []\<rparr>)))"
  using dart_translate_confined [OF _ surjective_pairing, of "[0x80900000, 0, 0, 0]" "Some plain_dart" "\<lambda>a. 0"] plain_dart_translates by simp

end
