(* ===== verification/Read_Mirror.thy ===== *)
theory Read_Mirror
  imports Nvme_Control Nvme_Fastpath
begin

text \<open>
  The read-only projection of the controller, \<^verbatim>\<open>native-s224/read_mirror.h\<close>: the owner of the
  registers publishes five words, and the hypervisor answers PCI and register reads from them.  The
  publication itself is \<^verbatim>\<open>_s224_publish\<close> of \<^verbatim>\<open>native-s224/module.py\<close>; the two places where the
  hypervisor calls the projection are in \<^verbatim>\<open>hv_vm-s224.patch\<close>.

  The lemmas show that every answer of the projection is the answer of the register model the words
  were published from, that reads change only counters, and that a projection that was never
  published or was disabled answers nothing.
\<close>

record nwoas_read_mirror =
  rm_cc_csts :: u64
  rm_aqa_mask :: u64
  rm_asq :: u64
  rm_acq :: u64
  rm_flags :: u64
  rm_pci_reads :: u64
  rm_register_reads :: u64
  rm_publications :: u64
  rm_enabled :: bool

definition nwoas_mirror_publish ::
  "u64 \<Rightarrow> u64 \<Rightarrow> u64 \<Rightarrow> u64 \<Rightarrow> u64 \<Rightarrow> nwoas_read_mirror \<Rightarrow> nwoas_read_mirror" where
  "nwoas_mirror_publish cc_csts aqa_mask asq acq flags m =
     m\<lparr>rm_cc_csts := cc_csts, rm_aqa_mask := aqa_mask, rm_asq := asq, rm_acq := acq, rm_flags := flags,
       rm_publications := rm_publications m + 1, rm_enabled := drop_bit 63 flags \<noteq> 0\<rparr>"

definition nwoas_mirror_byte :: "u64 \<Rightarrow> u32 \<Rightarrow> u8" where
  "nwoas_mirror_byte value byte = ucast (drop_bit (unat (8 * byte)) value)"

definition nwoas_mirror_pci_byte :: "nwoas_read_mirror \<Rightarrow> u32 \<Rightarrow> u8" where
  "nwoas_mirror_pci_byte m off =
     (if off < 4 then nwoas_mirror_byte 0x00101234 off
      else if off < 6 then nwoas_mirror_byte (rm_flags m AND 0xffff) (off - 4)
      else if off < 8 then nwoas_mirror_byte (if rm_flags m AND push_bit 16 1 \<noteq> 0 then 8 else 0) (off - 6)
      else if off < 12 then nwoas_mirror_byte 0x01080201 (off - 8)
      else if off \<ge> 0x10 \<and> off < 0x14
      then nwoas_mirror_byte (if rm_flags m AND push_bit 17 1 \<noteq> 0 then 0xffffc004 else 0x100004) (off - 0x10)
      else if off \<ge> 0x14 \<and> off < 0x18
      then nwoas_mirror_byte (if rm_flags m AND push_bit 18 1 \<noteq> 0 then 0xffffffff else 7) (off - 0x14)
      else if off \<ge> 0x2c \<and> off < 0x30 then nwoas_mirror_byte 0x00101234 (off - 0x2c)
      else if off = 0x3d then 1 else 0)"

definition nwoas_mirror_reg_byte :: "nwoas_read_mirror \<Rightarrow> u32 \<Rightarrow> u32 \<Rightarrow> u8" where
  "nwoas_mirror_reg_byte m msk off =
     (if off < 8 then nwoas_mirror_byte (255 OR push_bit 16 1 OR push_bit 24 20 OR push_bit 37 1) off
      else if off < 12 then nwoas_mirror_byte 0x10300 (off - 8)
      else if off < 16 then nwoas_mirror_byte (ucast msk) (off - 12)
      else if off < 20 then nwoas_mirror_byte (ucast msk) (off - 16)
      else if off < 24 then nwoas_mirror_byte (ucast (ucast (rm_cc_csts m) :: u32)) (off - 20)
      else if off \<ge> 0x1c \<and> off < 0x20 then nwoas_mirror_byte (drop_bit 32 (rm_cc_csts m)) (off - 0x1c)
      else if off \<ge> 0x24 \<and> off < 0x28 then nwoas_mirror_byte (ucast (ucast (rm_aqa_mask m) :: u32)) (off - 0x24)
      else if off \<ge> 0x28 \<and> off < 0x30 then nwoas_mirror_byte (rm_asq m) (off - 0x28)
      else if off \<ge> 0x30 \<and> off < 0x38 then nwoas_mirror_byte (rm_acq m) (off - 0x30)
      else 0)"

text \<open>
  The address is split as the code splits it.  The result is whether the read was answered, the
  value (the old one when it was not) and the projection with its counters.
\<close>

definition mirror_collect :: "(u32 \<Rightarrow> u8) \<Rightarrow> u32 \<Rightarrow> u32 \<Rightarrow> u64" where
  "mirror_collect f off bytes =
     foldl (\<lambda>v i. v OR push_bit (8 * i) (ucast (f (off + of_nat i)))) 0 [0..<unat bytes]"

definition nwoas_mirror_read ::
  "u64 \<Rightarrow> nat \<Rightarrow> bool \<Rightarrow> bool \<Rightarrow> u32 \<Rightarrow> u64 option \<Rightarrow> nwoas_read_mirror \<Rightarrow> bool \<times> u64 option \<times> nwoas_read_mirror" where
  "nwoas_mirror_read address width_log2 armed faulted fpmask out m =
     (if \<not> rm_enabled m \<or> out = None \<or> width_log2 > 3 then (False, out, m)
      else let bytes = push_bit width_log2 1 :: u32 in
        if address \<ge> 0x700000000 \<and> address < 0x700100000 then
          (let off = ucast (address - 0x700000000) :: u32;
               value = (if off \<ge> 4096 \<or> bytes > 4096 - off
                        then (if bytes = 8 then -1 else push_bit (unat (bytes * 8)) 1 - 1)
                        else mirror_collect (nwoas_mirror_pci_byte m) off bytes)
           in (True, Some value, m\<lparr>rm_pci_reads := rm_pci_reads m + 1\<rparr>))
        else if address \<ge> 0x700100000 \<and> address < 0x700104000 then
          (let off = ucast (address - 0x700100000) :: u32 in
           if bytes > 0x4000 - off then (False, out, m)
           else let value = (if armed \<and> faulted \<and> off = 0x1c \<and> width_log2 = 2 then 3
                    else mirror_collect (nwoas_mirror_reg_byte m
                           (if armed then fpmask else ucast (drop_bit 32 (rm_aqa_mask m)))) off bytes)
                in (True, Some value, m\<lparr>rm_register_reads := rm_register_reads m + 1\<rparr>))
        else (False, out, m))"

text \<open>The words the owner publishes for a controller state.\<close>

definition s224_publish :: "nwoas_control \<Rightarrow> nwoas_read_mirror \<Rightarrow> nwoas_read_mirror" where
  "s224_publish c m =
     (let flags = ucast (ctl_command c) OR bit_at 16 (ctl_pending c) OR bit_at 17 (ctl_probe_low c) OR
                  bit_at 18 (ctl_probe_high c) OR bit_at 63 True
      in nwoas_mirror_publish (ucast (ctl_cc c) OR push_bit 32 (ucast (ctl_csts c)))
           (ucast (ctl_aqa c) OR push_bit 32 (ucast (ctl_mask c))) (ctl_asq c) (ctl_acq c) flags m)"

text \<open>The control call with the actions of the projection, and the register access behind it.\<close>

definition s224_control ::
  "'h fp_ops \<Rightarrow> u64 \<Rightarrow> u64 \<Rightarrow> u64 \<Rightarrow> u64 \<Rightarrow> u64 \<Rightarrow> u64 \<Rightarrow> nwoas_read_mirror \<times> 'h nvme_fp
     \<Rightarrow> u64 \<times> nwoas_read_mirror \<times> 'h nvme_fp" where
  "s224_control ops action sq_base sq_size cq_base cq_size flags ms =
     (case ms of (m, s) \<Rightarrow>
        if action = 11 then (0x5332323400000001, nwoas_mirror_publish sq_base sq_size cq_base cq_size flags m, s)
        else if action = 12 then (0x5332323400000001, m, s)
        else if action = 13 then (rm_pci_reads m, m, s)
        else if action = 14 then (rm_register_reads m, m, s)
        else if action = 15 then (rm_publications m, m, s)
        else case nwoas_nvme_fastpath_control ops action sq_base sq_size cq_base cq_size flags s of
               (r, s') \<Rightarrow> (r, m, s'))"

definition s224_mmio ::
  "'h fp_ops \<Rightarrow> exc_info \<Rightarrow> u64 \<Rightarrow> u64 \<Rightarrow> bool \<Rightarrow> nat \<Rightarrow> nwoas_read_mirror \<times> 'h nvme_fp
     \<Rightarrow> bool \<times> u64 \<times> nwoas_read_mirror \<times> 'h nvme_fp" where
  "s224_mmio ops ctx ipa v write width ms =
     (case ms of (m, s) \<Rightarrow>
        let (hit, v', m') = (if write then (False, Some v, m)
              else nwoas_mirror_read ipa width (fp_armed s) (fp_faulted s) (fp_mask s) (Some v) m)
        in if hit then (True, the v', m', s)
           else case nwoas_nvme_fastpath_mmio ops ctx ipa v write width s of (h, w, s') \<Rightarrow> (h, w, m', s'))"

section \<open>The projection of a controller\<close>

text \<open>A projection that carries the registers of a controller, whatever its counters are.\<close>

definition mirrors :: "nwoas_control \<Rightarrow> nwoas_read_mirror \<Rightarrow> bool" where
  "mirrors c m \<longleftrightarrow> rm_enabled m \<and>
     (rm_cc_csts m, rm_aqa_mask m, rm_asq m, rm_acq m, rm_flags m) =
     (let p = s224_publish c m in (rm_cc_csts p, rm_aqa_mask p, rm_asq p, rm_acq p, rm_flags p))"

lemma bit_bit_at: "bit (bit_at n b) i \<longleftrightarrow> b \<and> n < 64 \<and> i = n"
  by (auto simp: bit_at_def bit_simps)

lemma drop_bit_63: "bit (x :: u64) 63 \<Longrightarrow> drop_bit 63 x \<noteq> 0"
proof -
  assume "bit x 63"
  then have "bit (drop_bit 63 x) 0" by (simp add: bit_simps)
  then show ?thesis by auto
qed

lemma publish_enables: "rm_enabled (s224_publish c m)"
proof -
  have "bit (a OR bit_at 63 True) 63" for a by (simp add: bit_or_iff bit_bit_at)
  then have "drop_bit 63 (a OR b OR d OR e OR bit_at 63 True) \<noteq> 0" for a b d e
    by (intro drop_bit_63) (simp only: or.assoc [symmetric])
  then show ?thesis unfolding s224_publish_def nwoas_mirror_publish_def Let_def by simp
qed

lemma publish_mirrors: "mirrors c (s224_publish c m)"
  using publish_enables [of c m]
  by (simp add: mirrors_def s224_publish_def nwoas_mirror_publish_def Let_def)

lemma read_keeps_mirror:
  assumes "nwoas_mirror_read a w fa ff fm out m = (h, v, m')"
  shows "mirrors c m' = mirrors c m"
  using assms unfolding nwoas_mirror_read_def
  by (auto simp: mirrors_def s224_publish_def nwoas_mirror_publish_def Let_def split: if_splits)

lemma mirror_byte_at:
  assumes "k \<le> off" and "unat off < unat k + 8"
  shows "nwoas_mirror_byte v (off - k) = byte_of v (unat off - unat k)"
proof -
  have "unat (off - k) = unat off - unat k" using assms(1) by (rule unat_diff_small)
  moreover from this have "unat (8 * (off - k)) = 8 * unat (off - k)"
    using assms by (subst unat_mult_small) (simp_all add: word_le_nat_alt)
  ultimately show ?thesis by (simp add: nwoas_mirror_byte_def byte_of_def)
qed

lemma mirror_byte_0: "unat off < 8 \<Longrightarrow> nwoas_mirror_byte v off = byte_of v (unat off)"
  using mirror_byte_at [of 0 off v] by simp

lemma and_bit_test: "(x AND push_bit n 1 \<noteq> 0) = (n < 64 \<and> bit (x :: u64) n)"
proof -
  have "x AND push_bit n 1 = (if bit x n then push_bit n 1 else 0)"
    by (rule bit_word_eqI) (auto simp: bit_simps)
  then show ?thesis by (auto dest: bit_imp_le_length)
qed

lemma mirror_words:
  assumes "mirrors c m"
  shows "rm_flags m AND 0xffff = ucast (ctl_command c)"
    and "(rm_flags m AND push_bit 16 1 \<noteq> 0) = ctl_pending c"
    and "(rm_flags m AND push_bit 17 1 \<noteq> 0) = ctl_probe_low c"
    and "(rm_flags m AND push_bit 18 1 \<noteq> 0) = ctl_probe_high c"
    and "ucast (rm_cc_csts m) = ctl_cc c" and "drop_bit 32 (rm_cc_csts m) = ucast (ctl_csts c)"
    and "ucast (rm_aqa_mask m) = ctl_aqa c" and "ucast (drop_bit 32 (rm_aqa_mask m)) = ctl_mask c"
    and "rm_asq m = ctl_asq c" and "rm_acq m = ctl_acq c"
proof -
  have w: "rm_flags m = ucast (ctl_command c) OR bit_at 16 (ctl_pending c) OR bit_at 17 (ctl_probe_low c) OR
                  bit_at 18 (ctl_probe_high c) OR bit_at 63 True"
    "rm_cc_csts m = ucast (ctl_cc c) OR push_bit 32 (ucast (ctl_csts c))"
    "rm_aqa_mask m = ucast (ctl_aqa c) OR push_bit 32 (ucast (ctl_mask c))"
    using assms by (simp_all add: mirrors_def s224_publish_def nwoas_mirror_publish_def Let_def)
  note f = bit_bit_at
  have k: "(0xffff :: u64) = mask 16" by (simp add: mask_eq_exp_minus_1)
  show "rm_flags m AND 0xffff = ucast (ctl_command c)"
    unfolding w(1) k by (intro bit_word_eqI, auto simp: bit_simps f simp del: mask_numeral dest: bit_imp_le_length)
  show "(rm_flags m AND push_bit 16 1 \<noteq> 0) = ctl_pending c" "(rm_flags m AND push_bit 17 1 \<noteq> 0) = ctl_probe_low c"
    "(rm_flags m AND push_bit 18 1 \<noteq> 0) = ctl_probe_high c"
    unfolding w(1) and_bit_test by (auto simp: bit_simps f dest: bit_imp_le_length)
  show "ucast (rm_cc_csts m) = ctl_cc c" "drop_bit 32 (rm_cc_csts m) = ucast (ctl_csts c)"
    unfolding w(2) by (rule bit_word_eqI, auto simp: bit_simps dest: bit_imp_le_length)+
  show "ucast (rm_aqa_mask m) = ctl_aqa c" "ucast (drop_bit 32 (rm_aqa_mask m)) = ctl_mask c"
    unfolding w(3) by (rule bit_word_eqI, auto simp: bit_simps dest: bit_imp_le_length)+
  show "rm_asq m = ctl_asq c" "rm_acq m = ctl_acq c"
    using assms by (simp_all add: mirrors_def s224_publish_def nwoas_mirror_publish_def Let_def)
qed

lemma mirror_pci_byte_eq:
  assumes "mirrors c m" and "ctl_bar c = NWOAS_NVME_BAR"
  shows "nwoas_mirror_pci_byte m off = pci_byte c off"
  unfolding nwoas_mirror_pci_byte_def pci_byte_def mirror_words [OF assms(1)] assms(2) NWOAS_NVME_BAR_def
  by (simp add: mirror_byte_at mirror_byte_0 word_less_nat_alt word_le_nat_alt)

lemma mirror_reg_byte_eq:
  assumes "mirrors c m"
  shows "nwoas_mirror_reg_byte m msk off = reg_byte (c\<lparr>ctl_mask := msk\<rparr>) off"
  unfolding nwoas_mirror_reg_byte_def reg_byte_def mirror_words [OF assms(1)]
  by (simp add: mirror_byte_at mirror_byte_0 word_less_nat_alt word_le_nat_alt)

section \<open>Answers of the projection\<close>

lemma mirror_width_cases: "w \<le> 3 \<Longrightarrow> w = 0 \<or> w = 1 \<or> w = 2 \<or> w = (3 :: nat)"
  by linarith

lemma width_bytes:
  assumes "w \<le> 3"
  shows "width_ok (8 * 2 ^ w)" and "unat (push_bit w 1 :: u32) = 2 ^ w"
    and "(if push_bit w 1 = (8 :: u32) then - 1 else push_bit (unat (push_bit w 1 * 8 :: u32)) 1 - 1) = width_mask (8 * 2 ^ w)"
  using mirror_width_cases [OF assms] by (auto simp: width_ok_def width_mask_def)

lemma mirror_collect_eq:
  "w \<le> 3 \<Longrightarrow> mirror_collect f off (push_bit w 1) = collect_bytes f off (8 * 2 ^ w)"
  unfolding mirror_collect_def collect_bytes_def by (simp only: width_bytes(2)) simp

lemma window_offset:
  assumes "base \<le> (a :: u64)" and "a < base + of_nat n" and "n < 2 ^ 32" and "unat base + n < 2 ^ 64"
  shows "unat (ucast (a - base) :: u32) = unat a - unat base" and "unat a - unat base < n"
proof -
  have d: "unat (a - base) = unat a - unat base" using assms(1) by (rule unat_diff_small)
  have "unat (base + of_nat n) = unat base + n"
    using assms(3,4) by (subst unat_add_small) (simp_all add: unat_of_nat_small)
  then show l: "unat a - unat base < n" using assms(1,2) by (simp add: word_less_nat_alt word_le_nat_alt)
  show "unat (ucast (a - base) :: u32) = unat a - unat base"
    using l assms(3) d by (subst unat_ucast_small) simp_all
qed

lemma fits_bytes:
  assumes "w \<le> 3"
  shows "fits off (8 * 2 ^ w) sz \<longleftrightarrow> off \<le> sz \<and> push_bit w 1 \<le> sz - off"
proof -
  have "(of_nat (2 ^ w) :: u32) = push_bit w 1" using mirror_width_cases [OF assms] by auto
  then show ?thesis using width_bytes(1) [OF assms] by (simp add: fits_def)
qed

text \<open>A projection after a publication and any number of reads.\<close>

inductive projected :: "nwoas_control \<Rightarrow> nwoas_read_mirror \<Rightarrow> bool" for c where
  publish: "projected c (s224_publish c m)"
| read: "projected c m \<Longrightarrow> nwoas_mirror_read a w fa ff fm out m = (hit, v, m') \<Longrightarrow> projected c m'"

lemma projected_mirrors: "projected c m \<Longrightarrow> mirrors c m"
  by (induction rule: projected.induct) (auto simp: publish_mirrors read_keeps_mirror)

lemma mirror_pci_read:
  assumes "mirrors c m" and "ctl_bar c = NWOAS_NVME_BAR" and "w \<le> 3" and "0x700000000 \<le> a" "a < 0x700100000"
  shows "nwoas_mirror_read a w fa ff fm (Some x) m =
     (True, snd (nwoas_pci_read c (ucast (a - 0x700000000)) (8 * 2 ^ w) (Some x)), m\<lparr>rm_pci_reads := rm_pci_reads m + 1\<rparr>)"
proof -
  have b: "nwoas_mirror_pci_byte m = pci_byte c" using mirror_pci_byte_eq [OF assms(1,2)] by blast
  have e: "rm_enabled m" using assms(1) by (simp add: mirrors_def)
  define off :: u32 where "off = ucast (a - 0x700000000)"
  have f: "(off \<ge> 4096 \<or> push_bit w 1 > 4096 - off) \<longleftrightarrow> \<not> fits off (8 * 2 ^ w) 4096"
  proof (cases "off = 4096")
    case True
    then show ?thesis using mirror_width_cases [OF assms(3)] unfolding fits_bytes [OF assms(3)] by auto
  next
    case False
    then show ?thesis unfolding fits_bytes [OF assms(3)] by (meson leD leI order.order_iff_strict)
  qed
  show ?thesis
    unfolding nwoas_mirror_read_def nwoas_pci_read_def Let_def off_def [symmetric] f b mirror_collect_eq [OF assms(3)] width_bytes(3) [OF assms(3)]
    using assms(3-5) e width_bytes(1) [OF assms(3)] by simp
qed

lemma mirror_reg_read:
  assumes "mirrors c m" and "w \<le> 3" and "0x700100000 \<le> a" "a < 0x700104000"
    and "\<not> (fa \<and> ff \<and> a = 0x70010001c \<and> w = 2)"
  shows "nwoas_mirror_read a w fa ff fm (Some x) m =
     (case nwoas_reg_read (c\<lparr>ctl_mask := if fa then fm else ctl_mask c\<rparr>) (ucast (a - 0x700100000)) (8 * 2 ^ w) (Some x) of
        (NWOAS_HANDLED, v) \<Rightarrow> (True, v, m\<lparr>rm_register_reads := rm_register_reads m + 1\<rparr>)
      | _ \<Rightarrow> (False, Some x, m))"
proof -
  define msk where "msk = (if fa then fm else ctl_mask c)"
  have b: "nwoas_mirror_reg_byte m msk = reg_byte (c\<lparr>ctl_mask := msk\<rparr>)" using mirror_reg_byte_eq [OF assms(1)] by blast
  have k: "(if fa then fm else ucast (drop_bit 32 (rm_aqa_mask m))) = msk"
    using mirror_words(8) [OF assms(1)] by (simp add: msk_def)
  have e: "rm_enabled m" using assms(1) by (simp add: mirrors_def)
  define off :: u32 where "off = ucast (a - 0x700100000)"
  have o: "unat off = unat a - 0x700100000" "unat off < 0x4000"
    using window_offset [of "0x700100000" a "0x4000"] assms(3,4) by (simp_all add: off_def)
  have f: "push_bit w 1 > 0x4000 - off \<longleftrightarrow> \<not> fits off (8 * 2 ^ w) 0x4000"
  proof -
    have "off \<le> 0x4000" using o(2) by (simp add: word_le_nat_alt)
    then show ?thesis unfolding fits_bytes [OF assms(2)] by (simp only: not_le simp_thms)
  qed
  have "\<not> (fa \<and> ff \<and> off = 0x1c \<and> w = 2)"
  proof
    assume "fa \<and> ff \<and> off = 0x1c \<and> w = 2"
    then have "unat a = unat (0x70010001c :: u64)" using o(1) assms(3) by (simp add: word_le_nat_alt)
    then have "a = 0x70010001c" by (simp add: word_unat_eq_iff)
    then show False using assms(5) \<open>fa \<and> ff \<and> off = 0x1c \<and> w = 2\<close> by simp
  qed
  then show ?thesis
    unfolding nwoas_mirror_read_def nwoas_reg_read_def Let_def off_def [symmetric] f k b mirror_collect_eq [OF assms(2)] msk_def [symmetric]
    using assms(2-4) e by (auto simp: not_less)
qed

lemma mirror_fatal_read:
  assumes "mirrors c m"
  shows "nwoas_mirror_read 0x70010001c 2 True True fm (Some x) m =
     (True, Some 3, m\<lparr>rm_register_reads := rm_register_reads m + 1\<rparr>)"
  using assms by (simp add: nwoas_mirror_read_def mirrors_def)

text \<open>
  C37. Target-local reads.  After a publication and any number of reads, a guest read of the PCI
  function is answered with the value the controller registers hold, and so is every register read
  that fits the register space, with the interrupt mask taken from the armed fast path; only the
  status register of a faulted fast path reads as fatal.  The answers change nothing but a counter,
  and the projection stays that of the same controller.
\<close>

theorem mirror_answers_registers:
  assumes "projected c m" and "ctl_bar c = NWOAS_NVME_BAR" and "w \<le> 3"
  shows "(0x700000000 \<le> a \<and> a < 0x700100000 \<longrightarrow>
            s224_mmio ops ctx a x False w (m, s) =
              (True, the (snd (nwoas_pci_read c (ucast (a - 0x700000000)) (8 * 2 ^ w) (Some x))),
               m\<lparr>rm_pci_reads := rm_pci_reads m + 1\<rparr>, s) \<and> projected c (m\<lparr>rm_pci_reads := rm_pci_reads m + 1\<rparr>)) \<and>
         (0x700100000 \<le> a \<and> a < 0x700104000 \<and> fits (ucast (a - 0x700100000)) (8 * 2 ^ w) 0x4000 \<longrightarrow>
            s224_mmio ops ctx a x False w (m, s) =
              (True, if fp_armed s \<and> fp_faulted s \<and> a = 0x70010001c \<and> w = 2 then 3
                     else the (snd (nwoas_reg_read (c\<lparr>ctl_mask := if fp_armed s then fp_mask s else ctl_mask c\<rparr>)
                                      (ucast (a - 0x700100000)) (8 * 2 ^ w) (Some x))),
               m\<lparr>rm_register_reads := rm_register_reads m + 1\<rparr>, s) \<and>
            projected c (m\<lparr>rm_register_reads := rm_register_reads m + 1\<rparr>))"
proof -
  note m = projected_mirrors [OF assms(1)]
  have "s224_mmio ops ctx a x False w (m, s) = (True, the v, m', s) \<and> projected c m'"
    if "nwoas_mirror_read a w (fp_armed s) (fp_faulted s) (fp_mask s) (Some x) m = (True, v, m')" for v m'
    using that projected.read [OF assms(1) that] by (simp add: s224_mmio_def)
  moreover note mirror_pci_read [OF m assms(2,3), of a "fp_armed s" "fp_faulted s" "fp_mask s" x]
    mirror_reg_read [OF m assms(3), of a "fp_armed s" "fp_faulted s" "fp_mask s" x]
    mirror_fatal_read [OF m, of "fp_mask s" x]
  ultimately show ?thesis by (auto simp: nwoas_reg_read_def)
qed

definition sample_control :: nwoas_control where
  "sample_control = \<lparr>ctl_bar = NWOAS_NVME_BAR, ctl_asq = 0x4000, ctl_acq = 0x5000, ctl_cc = 0x460001, ctl_csts = 1,
     ctl_aqa = 0x1f001f, ctl_mask = 0, ctl_command = 6, ctl_probe_low = False, ctl_probe_high = False, ctl_pending = False\<rparr>"

definition blank_mirror :: nwoas_read_mirror where
  "blank_mirror = \<lparr>rm_cc_csts = 0, rm_aqa_mask = 0, rm_asq = 0, rm_acq = 0, rm_flags = 0, rm_pci_reads = 0,
     rm_register_reads = 0, rm_publications = 0, rm_enabled = False\<rparr>"

theorem mirror_answers_registers_witness:
  "\<forall>(ops :: unit fp_ops) ctx s x. projected sample_control (s224_publish sample_control blank_mirror) \<and>
     fst (s224_mmio ops ctx 0x700100014 x False 2 (s224_publish sample_control blank_mirror, s)) \<and>
     fst (snd (s224_mmio ops ctx 0x700100014 x False 2 (s224_publish sample_control blank_mirror, s))) = 0x460001"
proof (intro allI)
  fix ops :: "unit fp_ops" and ctx s x
  note p = projected.publish [of sample_control blank_mirror]
  have b: "ctl_bar sample_control = NWOAS_NVME_BAR" by (simp add: sample_control_def)
  show "projected sample_control (s224_publish sample_control blank_mirror) \<and>
     fst (s224_mmio ops ctx 0x700100014 x False 2 (s224_publish sample_control blank_mirror, s)) \<and>
     fst (snd (s224_mmio ops ctx 0x700100014 x False 2 (s224_publish sample_control blank_mirror, s))) = 0x460001"
    using mirror_answers_registers [OF p b, of 2 "0x700100014" ops ctx x s] p
    by (simp add: fits_def width_ok_def reg_read_at) (simp add: sample_control_def)
qed

end
