(* ===== verification/Wire_Format.thy ===== *)
theory Wire_Format
  imports Nwoas_Prelude
begin

text \<open>
  The frames of the file delivery channel, \<^verbatim>\<open>file-delivery-s168/client/wire.h\<close>: the checksum, the
  request builder, and the parser and the expectation checks of a response.  A pointer into the
  window is the rest of the window from there; a status code is a constructor of \<open>wire_status\<close>.

  The lemmas show that the checksum detects every change confined to four neighbouring bytes, that
  a request is the image its layout says, and that a response is accepted exactly when it is the
  image of its fields.
\<close>

section \<open>Constants\<close>

definition WIRE_BLOCK :: nat where "WIRE_BLOCK = 4096"
definition WIRE_REQ_LBA :: u64 where "WIRE_REQ_LBA = 127"
definition WIRE_RESP_LBA :: u64 where "WIRE_RESP_LBA = 129"
definition WIRE_WINDOW_BYTES :: nat where "WIRE_WINDOW_BYTES = 65536"
definition WIRE_HEADER :: nat where "WIRE_HEADER = 128"
definition WIRE_PAYLOAD_CAP :: u32 where "WIRE_PAYLOAD_CAP = 65408"
definition WIRE_SENTINEL :: u64 where "WIRE_SENTINEL = 0xFFFFFFFFFFFFFFFF"
definition WIRE_STATUS_DATA :: u32 where "WIRE_STATUS_DATA = 0"
definition WIRE_STATUS_FINAL :: u32 where "WIRE_STATUS_FINAL = 1"
definition WIRE_STATUS_NONE :: u32 where "WIRE_STATUS_NONE = 2"
definition WIRE_STATUS_MANIFEST :: u32 where "WIRE_STATUS_MANIFEST = 3"

lemmas wire_consts = WIRE_BLOCK_def WIRE_WINDOW_BYTES_def WIRE_HEADER_def WIRE_PAYLOAD_CAP_def
  WIRE_STATUS_DATA_def WIRE_STATUS_FINAL_def WIRE_STATUS_NONE_def WIRE_STATUS_MANIFEST_def WIRE_SENTINEL_def

definition REQ_MAGIC :: bytes where
  "REQ_MAGIC = [0x4e, 0x57, 0x4f, 0x41, 0x53, 0x2d, 0x53, 0x31, 0x36, 0x78, 0x2d, 0x52, 0x45, 0x51, 0x20, 0x21]"

definition RESP_MAGIC :: bytes where
  "RESP_MAGIC = [0x4e, 0x57, 0x4f, 0x41, 0x53, 0x2d, 0x53, 0x31, 0x36, 0x78, 0x2d, 0x46, 0x49, 0x4c, 0x45, 0x21]"

datatype wire_status = WIRE_OK | WIRE_E_SHORT | WIRE_E_MAGIC | WIRE_E_TOKEN | WIRE_E_HDRCRC | WIRE_E_RSVD
  | WIRE_E_SERVED | WIRE_E_PAYCRC | WIRE_E_ID | WIRE_E_STATUS | WIRE_E_OFFSET | WIRE_E_SIZE

section \<open>Checksum and field access\<close>

definition crc_bit :: "u32 \<Rightarrow> u32" where
  "crc_bit c = drop_bit 1 c XOR (0xEDB88320 AND (if c AND 1 \<noteq> 0 then 0xFFFFFFFF else 0))"

definition crc_byte :: "u32 \<Rightarrow> u8 \<Rightarrow> u32" where
  "crc_byte c b = (crc_bit ^^ 8) (c XOR ucast b)"

definition wire_crc32 :: "bytes \<Rightarrow> u32" where
  "wire_crc32 p = NOT (foldl crc_byte 0xFFFFFFFF p)"

definition wire_rd32 :: "bytes \<Rightarrow> u32" where
  "wire_rd32 p = ucast (p ! 0) OR push_bit 8 (ucast (p ! 1)) OR push_bit 16 (ucast (p ! 2)) OR push_bit 24 (ucast (p ! 3))"

definition wire_rd64 :: "bytes \<Rightarrow> u64" where
  "wire_rd64 p = ucast (wire_rd32 p) OR push_bit 32 (ucast (wire_rd32 (drop 4 p)))"

definition wire_wr32 :: "nat \<Rightarrow> u32 \<Rightarrow> bytes \<Rightarrow> bytes" where
  "wire_wr32 at v b = b[at := ucast v, at + 1 := ucast (drop_bit 8 v), at + 2 := ucast (drop_bit 16 v), at + 3 := ucast (drop_bit 24 v)]"

definition wire_wr64 :: "nat \<Rightarrow> u64 \<Rightarrow> bytes \<Rightarrow> bytes" where
  "wire_wr64 at v b = wire_wr32 (at + 4) (ucast (drop_bit 32 v)) (wire_wr32 at (ucast v) b)"

section \<open>Requests\<close>

definition copy_bytes :: "nat \<Rightarrow> bytes \<Rightarrow> bytes \<Rightarrow> bytes" where
  "copy_bytes at src b = foldl (\<lambda>b i. b[at + i := src ! i]) b [0..<16]"

definition wire_build_request :: "bytes \<Rightarrow> u32 \<Rightarrow> u64 \<Rightarrow> u32 \<Rightarrow> bytes" where
  "wire_build_request token rid offset len =
     (let b0 = replicate WIRE_BLOCK 0;
          b1 = copy_bytes 0 REQ_MAGIC b0;
          b2 = copy_bytes 16 token b1;
          b3 = wire_wr32 32 rid b2;
          b4 = wire_wr64 36 offset b3;
          b5 = wire_wr32 44 len b4
      in wire_wr32 48 (wire_crc32 (take 48 b5)) b5)"

section \<open>Responses\<close>

record wire_resp =
  wr_id :: u32
  wr_status :: u32
  wr_file_size :: u64
  wr_offset :: u64
  wr_served :: u32
  wr_payload_crc :: u32
  wr_header_crc :: u32
  wr_sha256 :: bytes
  wr_payload :: bytes

definition wire_parse_response :: "bytes \<Rightarrow> bytes \<Rightarrow> wire_resp \<Rightarrow> wire_status \<times> wire_resp" where
  "wire_parse_response win token r0 =
     (if length win < WIRE_HEADER then (WIRE_E_SHORT, r0)
      else if list_ex (\<lambda>i. win ! i \<noteq> RESP_MAGIC ! i) [0..<16] then (WIRE_E_MAGIC, r0)
      else if list_ex (\<lambda>i. win ! (16 + i) \<noteq> token ! i) [0..<16] then (WIRE_E_TOKEN, r0)
      else let hc = wire_rd32 (drop 124 win) in
        if wire_crc32 (take 124 win) \<noteq> hc then (WIRE_E_HDRCRC, r0)
        else if list_ex (\<lambda>i. win ! i \<noteq> 0) [96..<124] then (WIRE_E_RSVD, r0)
        else let r = r0\<lparr>wr_id := wire_rd32 (drop 32 win), wr_status := wire_rd32 (drop 36 win),
                        wr_file_size := wire_rd64 (drop 40 win), wr_offset := wire_rd64 (drop 48 win),
                        wr_served := wire_rd32 (drop 56 win), wr_payload_crc := wire_rd32 (drop 60 win),
                        wr_header_crc := hc, wr_sha256 := drop 64 win\<rparr> in
          if wr_served r > WIRE_PAYLOAD_CAP then (WIRE_E_SERVED, r)
          else if WIRE_HEADER + unat (wr_served r) > length win then (WIRE_E_SERVED, r)
          else let r1 = r\<lparr>wr_payload := drop WIRE_HEADER win\<rparr> in
            if wire_crc32 (take (unat (wr_served r1)) (wr_payload r1)) \<noteq> wr_payload_crc r1 then (WIRE_E_PAYCRC, r1)
            else (WIRE_OK, r1))"

definition wire_check_manifest :: "wire_resp \<Rightarrow> u32 \<Rightarrow> wire_status" where
  "wire_check_manifest r rid =
     (if wr_id r \<noteq> rid then WIRE_E_ID
      else if wr_status r \<noteq> WIRE_STATUS_MANIFEST then WIRE_E_STATUS
      else if wr_offset r \<noteq> WIRE_SENTINEL then WIRE_E_OFFSET
      else if wr_served r \<noteq> 0 then WIRE_E_SERVED
      else WIRE_OK)"

definition wire_check_data :: "wire_resp \<Rightarrow> u32 \<Rightarrow> u64 \<Rightarrow> u32 \<Rightarrow> u64 \<Rightarrow> wire_status" where
  "wire_check_data r rid offset requested file_size =
     (if wr_id r \<noteq> rid then WIRE_E_ID
      else if wr_offset r \<noteq> offset then WIRE_E_OFFSET
      else if wr_file_size r \<noteq> file_size then WIRE_E_SIZE
      else if offset > file_size \<or> ucast (wr_served r) > file_size - offset then WIRE_E_SIZE
      else if wr_status r = WIRE_STATUS_DATA then
        (if wr_served r \<noteq> requested then WIRE_E_SERVED else WIRE_OK)
      else if wr_status r = WIRE_STATUS_FINAL then
        (if wr_served r \<ge> requested then WIRE_E_SERVED
         else if offset + ucast (wr_served r) \<noteq> file_size then WIRE_E_SIZE
         else WIRE_OK)
      else WIRE_E_STATUS)"

section \<open>The checksum detects short bursts\<close>

lemma crc_odd: "(x AND 1 \<noteq> 0) = bit (x :: u32) 0"
  by (simp add: and_1_bit0)

lemma bit_crc_bit: "i < 32 \<Longrightarrow> bit (crc_bit c) i = (bit c (Suc i) \<noteq> (bit c 0 \<and> bit (0xEDB88320 :: u32) i))"
proof -
  assume i: "i < 32"
  have e: "(0xFFFFFFFF :: u32) = -1" by simp
  show ?thesis unfolding crc_bit_def crc_odd e using i by (auto simp: bit_simps)
qed

lemma xor_cancel: "(a XOR k = b XOR k) = (a = (b :: u32))" "(k XOR a = k XOR b) = (a = b)"
proof -
  have "(x XOR k) XOR k = x" for x by (simp add: xor.assoc)
  then show "(a XOR k = b XOR k) = (a = b)" by metis
  then show "(k XOR a = k XOR b) = (a = b)" by (simp add: xor.commute)
qed

lemma crc_bit_xor: "crc_bit (a XOR b) = crc_bit a XOR crc_bit b"
  by (rule bit_word_eqI) (auto simp: bit_crc_bit bit_xor_iff)

lemma crc_bit_shift:
  assumes "\<not> bit b 31"
  shows "crc_bit (push_bit 1 b) = b"
proof (rule bit_word_eqI)
  fix i assume "i < LENGTH(32)"
  then have "i = 31 \<or> Suc i < 32" by auto
  moreover have "\<not> bit (push_bit 1 b) 0" "bit (push_bit 1 b) (Suc i) = (Suc i < 32 \<and> bit b i)"
    by (subst bit_push_bit_iff, simp)+
  ultimately show "bit (crc_bit (push_bit 1 b)) i = bit b i"
    using assms \<open>i < LENGTH(32)\<close> bit_crc_bit [of i "push_bit 1 b"] by fastforce
qed

lemma crc_bit_inj: "crc_bit x = 0 \<Longrightarrow> x = 0"
proof -
  assume z: "crc_bit x = 0"
  have "\<not> bit x 32" using bit_imp_le_length [of x 32] by auto
  then have "bit (crc_bit x) 31 = bit x 0" by (subst bit_crc_bit) simp_all
  then have n: "\<not> bit x 0" using z by simp
  have "bit x (Suc i) = False" if "i < 32" for i using z bit_crc_bit [OF that, of x] n by simp
  then have "\<not> bit x j" if "j < 32" for j using n that by (cases j) simp_all
  then show "x = 0" by (intro bit_word_eqI) simp
qed

lemma crc_bits_xor: "(crc_bit ^^ n) (a XOR b) = (crc_bit ^^ n) a XOR (crc_bit ^^ n) b"
  by (induction n) (simp_all add: crc_bit_xor)

lemma crc_bits_inj: "(crc_bit ^^ n) x = (crc_bit ^^ n) y \<longleftrightarrow> x = y"
proof
  assume "(crc_bit ^^ n) x = (crc_bit ^^ n) y"
  then have "(crc_bit ^^ n) (x XOR y) = 0" by (simp add: crc_bits_xor)
  then have "x XOR y = 0" by (induction n) (auto dest: crc_bit_inj)
  then show "x = y" using xor_cancel(1) [of x y y] by simp
qed simp

lemma crc_bits_shift: "(\<And>i. 32 - n \<le> i \<Longrightarrow> \<not> bit b i) \<Longrightarrow> n \<le> 32 \<Longrightarrow> (crc_bit ^^ n) (push_bit n b) = b"
proof (induction n)
  case (Suc n)
  have "(crc_bit ^^ Suc n) (push_bit (Suc n) b) = (crc_bit ^^ n) (crc_bit (push_bit 1 (push_bit n b)))"
    by (simp add: funpow_swap1 push_bit_push_bit)
  also have "\<dots> = (crc_bit ^^ n) (push_bit n b)"
    using Suc.prems by (subst crc_bit_shift) (simp_all add: bit_push_bit_iff)
  finally show ?case using Suc by simp
qed simp

lemma crc_bytes: "length bs \<le> 4 \<Longrightarrow> foldl crc_byte c bs = (crc_bit ^^ (8 * length bs)) (c XOR le_word bs)"
proof (induction bs arbitrary: c)
  case (Cons b bs)
  have h: "(crc_bit ^^ 8) (push_bit 8 (le_word bs)) = (le_word bs :: u32)"
    using Cons.prems by (intro crc_bits_shift) (simp_all add: bit_le_word)
  have o: "c XOR le_word (b # bs) = (c XOR ucast b) XOR push_bit 8 (le_word bs :: u32)"
    by (rule bit_word_eqI) (auto simp: bit_simps dest: bit_imp_le_length)
  have "8 * length (b # bs) = 8 * length bs + 8" by simp
  then have "(crc_bit ^^ (8 * length (b # bs))) (c XOR le_word (b # bs))
      = (crc_bit ^^ (8 * length bs)) ((crc_bit ^^ 8) (c XOR ucast b) XOR le_word bs)"
    by (simp only: funpow_add comp_apply o crc_bits_xor h)
  then show ?case using Cons by (simp add: crc_byte_def)
qed simp

lemma crc_state_inj: "foldl crc_byte c ys = foldl crc_byte d ys \<longleftrightarrow> c = d"
  by (induction ys arbitrary: c d) (simp_all add: crc_byte_def crc_bits_inj xor_cancel)

lemma crc_burst:
  assumes "length a = length b" and "length a \<le> 4" and "a \<noteq> b"
  shows "wire_crc32 (xs @ a @ ys) \<noteq> wire_crc32 (xs @ b @ ys)"
proof -
  have "le_word a \<noteq> (le_word b :: u32)"
    using le_bytes_roundtrip [of a, where 'a = 32] le_bytes_roundtrip [of b, where 'a = 32] assms by auto
  then have "foldl crc_byte c a \<noteq> foldl crc_byte c b" for c
    using assms by (simp add: crc_bytes crc_bits_inj xor_cancel)
  then show ?thesis by (simp add: wire_crc32_def crc_state_inj)
qed

section \<open>Field access is the little-endian codec\<close>

lemma rd32_eq: "4 \<le> length p \<Longrightarrow> wire_rd32 p = le_word (take 4 p)"
  unfolding wire_rd32_def by (rule le_word_4)

lemma rd64_eq: "8 \<le> length p \<Longrightarrow> wire_rd64 p = le_word (take 8 p)"
  unfolding wire_rd64_def by (simp add: rd32_eq le_word_8)

interpretation wire32: le_reader wire_rd32 4
  by unfold_locales (simp_all add: rd32_eq)

interpretation wire64: le_reader wire_rd64 8
  by unfold_locales (simp_all add: rd64_eq)

text \<open>Each write of the builder fills the next bytes of a zeroed block.\<close>

lemma wr32_next: "4 \<le> n \<Longrightarrow> wire_wr32 (length p) v (p @ replicate n 0) = (p @ le_bytes 4 v) @ replicate (n - 4) 0"
proof -
  assume "4 \<le> n"
  then have "replicate n (0 :: u8) = [0, 0, 0, 0] @ replicate (n - 4) 0"
    by (subst le_add_diff_inverse [of 4 n, symmetric]) (simp_all add: replicate_add numeral_eq_Suc)
  then show ?thesis by (simp add: wire_wr32_def list_update_append le_bytes_def upt_rec)
qed

lemma le_bytes_split: "le_bytes 8 (v :: u64) = le_bytes 4 (ucast v :: u32) @ le_bytes 4 (ucast (drop_bit 32 v) :: u32)"
  by (auto simp: le_bytes_def upt_rec intro!: bit_word_eqI simp: bit_simps)

lemma wr64_next: "8 \<le> n \<Longrightarrow> wire_wr64 (length p) v (p @ replicate n 0) = (p @ le_bytes 8 v) @ replicate (n - 8) 0"
  using wr32_next [of n p "ucast v"] wr32_next [of "n - 4" "p @ le_bytes 4 (ucast v :: u32)" "ucast (drop_bit 32 v)"]
  by (simp add: wire_wr64_def le_bytes_split)

lemma copy_prefix:
  "k \<le> length src \<Longrightarrow> at + k \<le> length b \<Longrightarrow>
   foldl (\<lambda>b i. b[at + i := src ! i]) b [0..<k] = take at b @ take k src @ drop (at + k) b"
proof (induction k)
  case (Suc k)
  then have "drop (at + k) b = b ! (at + k) # drop (at + Suc k) b" by (simp add: Cons_nth_drop_Suc)
  moreover have "take (Suc k) src = take k src @ [src ! k]" using Suc.prems by (simp add: take_Suc_conv_app_nth)
  ultimately show ?case using Suc by (simp add: list_update_append min_def)
qed simp

lemma copy_next:
  "length src = 16 \<Longrightarrow> 16 \<le> n \<Longrightarrow> copy_bytes (length p) src (p @ replicate n 0) = (p @ src) @ replicate (n - 16) 0"
  unfolding copy_bytes_def by (subst copy_prefix) simp_all

section \<open>What the frames look like\<close>

definition request_head :: "bytes \<Rightarrow> u32 \<Rightarrow> u64 \<Rightarrow> u32 \<Rightarrow> bytes" where
  "request_head token rid offset len = REQ_MAGIC @ token @ le_bytes 4 rid @ le_bytes 8 offset @ le_bytes 4 len"

lemma length_magic [simp]: "length REQ_MAGIC = 16" "length RESP_MAGIC = 16"
  by (simp_all add: REQ_MAGIC_def RESP_MAGIC_def)

lemma build_request_image:
  assumes "length token = 16"
  shows "wire_build_request token rid offset len =
     request_head token rid offset len @ le_bytes 4 (wire_crc32 (request_head token rid offset len)) @ replicate 4044 0"
proof -
  have 1: "copy_bytes 0 REQ_MAGIC (replicate WIRE_BLOCK 0) = REQ_MAGIC @ replicate 4080 0"
    using copy_next [of REQ_MAGIC 4096 "[]"] by (simp add: WIRE_BLOCK_def)
  have 2: "copy_bytes 16 token (REQ_MAGIC @ replicate 4080 0) = (REQ_MAGIC @ token) @ replicate 4064 0"
    using copy_next [of token 4080 REQ_MAGIC] assms by simp
  have 3: "wire_wr32 32 rid ((REQ_MAGIC @ token) @ replicate 4064 0) = (REQ_MAGIC @ token @ le_bytes 4 rid) @ replicate 4060 0"
    using wr32_next [of 4064 "REQ_MAGIC @ token" rid] assms by simp
  have 4: "wire_wr64 36 offset ((REQ_MAGIC @ token @ le_bytes 4 rid) @ replicate 4060 0)
      = (REQ_MAGIC @ token @ le_bytes 4 rid @ le_bytes 8 offset) @ replicate 4052 0"
    using wr64_next [of 4060 "REQ_MAGIC @ token @ le_bytes 4 rid" offset] assms by simp
  have 5: "wire_wr32 44 len ((REQ_MAGIC @ token @ le_bytes 4 rid @ le_bytes 8 offset) @ replicate 4052 0)
      = request_head token rid offset len @ replicate 4048 0"
    using wr32_next [of 4052 "REQ_MAGIC @ token @ le_bytes 4 rid @ le_bytes 8 offset" len] assms
    by (simp add: request_head_def)
  have l: "length (request_head token rid offset len) = 48" using assms by (simp add: request_head_def)
  show ?thesis
    using wr32_next [of 4048 "request_head token rid offset len"] l
    unfolding wire_build_request_def Let_def 1 2 3 4 5 by simp
qed

text \<open>The header of a response and the window around a payload.\<close>

definition response_head :: "bytes \<Rightarrow> wire_resp \<Rightarrow> bytes" where
  "response_head token r =
     RESP_MAGIC @ token @ le_bytes 4 (wr_id r) @ le_bytes 4 (wr_status r) @ le_bytes 8 (wr_file_size r) @
     le_bytes 8 (wr_offset r) @ le_bytes 4 (wr_served r) @ le_bytes 4 (wr_payload_crc r) @ take 32 (wr_sha256 r) @ replicate 28 0"

lemma list_ex_upt: "list_ex P [a..<b] \<longleftrightarrow> (\<exists>i. a \<le> i \<and> i < b \<and> P i)"
  by (auto simp: list_ex_iff)

lemma bytes_differ:
  assumes "at + 16 \<le> length win" and "length m = 16"
  shows "list_ex (\<lambda>i. win ! (at + i) \<noteq> m ! i) [0..<16] \<longleftrightarrow> take 16 (drop at win) \<noteq> m"
  using assms by (auto simp: list_ex_upt list_eq_iff_nth_eq)

lemma bytes_nonzero:
  assumes "124 \<le> length win"
  shows "list_ex (\<lambda>i. win ! i \<noteq> 0) [96..<124] \<longleftrightarrow> take 28 (drop 96 win) \<noteq> replicate 28 0"
proof
  assume "list_ex (\<lambda>i. win ! i \<noteq> 0) [96..<124]"
  then obtain i where "96 \<le> i" "i < 124" "win ! i \<noteq> 0" unfolding list_ex_upt by blast
  then have "take 28 (drop 96 win) ! (i - 96) \<noteq> replicate 28 0 ! (i - 96)" using assms by simp
  then show "take 28 (drop 96 win) \<noteq> replicate 28 0" by auto
next
  assume "take 28 (drop 96 win) \<noteq> replicate 28 0"
  then obtain i where "i < 28" "win ! (96 + i) \<noteq> 0" using assms by (auto simp: list_eq_iff_nth_eq)
  then show "list_ex (\<lambda>i. win ! i \<noteq> 0) [96..<124]" unfolding list_ex_upt by (intro exI [of _ "96 + i"]) simp
qed

lemma take_then: "take (m + n) (drop k xs) = take m (drop k xs) @ take n (drop (k + m) xs)"
  by (simp add: take_add add.commute)

lemma window_fields:
  "take 124 win = take 16 win @ take 16 (drop 16 win) @ take 4 (drop 32 win) @ take 4 (drop 36 win) @
     take 8 (drop 40 win) @ take 8 (drop 48 win) @ take 4 (drop 56 win) @ take 4 (drop 60 win) @
     take 32 (drop 64 win) @ take 28 (drop 96 win)"
  using take_then [of 16 108 0 win] take_then [of 16 92 16 win] take_then [of 4 88 32 win] take_then [of 4 84 36 win]
    take_then [of 8 76 40 win] take_then [of 8 68 48 win] take_then [of 4 64 56 win] take_then [of 4 60 60 win]
    take_then [of 32 28 64 win]
  by simp

definition parsed :: "bytes \<Rightarrow> wire_resp" where
  "parsed win = \<lparr>wr_id = wire_rd32 (drop 32 win), wr_status = wire_rd32 (drop 36 win),
     wr_file_size = wire_rd64 (drop 40 win), wr_offset = wire_rd64 (drop 48 win), wr_served = wire_rd32 (drop 56 win),
     wr_payload_crc = wire_rd32 (drop 60 win), wr_header_crc = wire_rd32 (drop 124 win), wr_sha256 = drop 64 win,
     wr_payload = drop 128 win\<rparr>"

text \<open>The parser on a window that holds a header.\<close>

lemma parse_cases:
  assumes "length token = 16" and "128 \<le> length win"
  shows "fst (wire_parse_response win token r0) =
    (if take 16 win \<noteq> RESP_MAGIC then WIRE_E_MAGIC
     else if take 16 (drop 16 win) \<noteq> token then WIRE_E_TOKEN
     else if wire_crc32 (take 124 win) \<noteq> wire_rd32 (drop 124 win) then WIRE_E_HDRCRC
     else if take 28 (drop 96 win) \<noteq> replicate 28 0 then WIRE_E_RSVD
     else if wr_served (parsed win) > WIRE_PAYLOAD_CAP \<or> 128 + unat (wr_served (parsed win)) > length win then WIRE_E_SERVED
     else if wire_crc32 (take (unat (wr_served (parsed win))) (drop 128 win)) \<noteq> wr_payload_crc (parsed win) then WIRE_E_PAYCRC
     else WIRE_OK)"
    and "fst (wire_parse_response win token r0) = WIRE_OK \<Longrightarrow> snd (wire_parse_response win token r0) = parsed win"
proof -
  have m: "list_ex (\<lambda>i. win ! i \<noteq> RESP_MAGIC ! i) [0..<16] \<longleftrightarrow> take 16 win \<noteq> RESP_MAGIC"
    using bytes_differ [of 0 win RESP_MAGIC] assms(2) by simp
  have t: "list_ex (\<lambda>i. win ! (16 + i) \<noteq> token ! i) [0..<16] \<longleftrightarrow> take 16 (drop 16 win) \<noteq> token"
    using bytes_differ [of 16 win token] assms by simp
  have z: "list_ex (\<lambda>i. win ! i \<noteq> 0) [96..<124] \<longleftrightarrow> take 28 (drop 96 win) \<noteq> replicate 28 0"
    using bytes_nonzero [of win] assms(2) by simp
  show F: "fst (wire_parse_response win token r0) =
    (if take 16 win \<noteq> RESP_MAGIC then WIRE_E_MAGIC
     else if take 16 (drop 16 win) \<noteq> token then WIRE_E_TOKEN
     else if wire_crc32 (take 124 win) \<noteq> wire_rd32 (drop 124 win) then WIRE_E_HDRCRC
     else if take 28 (drop 96 win) \<noteq> replicate 28 0 then WIRE_E_RSVD
     else if wr_served (parsed win) > WIRE_PAYLOAD_CAP \<or> 128 + unat (wr_served (parsed win)) > length win then WIRE_E_SERVED
     else if wire_crc32 (take (unat (wr_served (parsed win))) (drop 128 win)) \<noteq> wr_payload_crc (parsed win) then WIRE_E_PAYCRC
     else WIRE_OK)"
    using assms(2) unfolding wire_parse_response_def m t z Let_def WIRE_HEADER_def parsed_def by simp
  assume "fst (wire_parse_response win token r0) = WIRE_OK"
  then have "take 16 win = RESP_MAGIC" "take 16 (drop 16 win) = token" "wire_crc32 (take 124 win) = wire_rd32 (drop 124 win)"
    "take 28 (drop 96 win) = replicate 28 0" "\<not> wr_served (parsed win) > WIRE_PAYLOAD_CAP"
    "\<not> 128 + unat (wr_served (parsed win)) > length win"
    "wire_crc32 (take (unat (wr_served (parsed win))) (drop 128 win)) = wr_payload_crc (parsed win)"
    unfolding F by (simp_all split: if_splits)
  then show "snd (wire_parse_response win token r0) = parsed win"
    using assms(2) unfolding wire_parse_response_def m t z Let_def WIRE_HEADER_def parsed_def by simp
qed

definition response_window :: "bytes \<Rightarrow> bytes \<Rightarrow> wire_resp \<Rightarrow> bool" where
  "response_window token win r \<longleftrightarrow>
     128 \<le> length win \<and> take 128 win = response_head token r @ le_bytes 4 (wr_header_crc r) \<and>
     wr_header_crc r = wire_crc32 (response_head token r) \<and> wr_served r \<le> WIRE_PAYLOAD_CAP \<and>
     128 + unat (wr_served r) \<le> length win \<and>
     wr_payload_crc r = wire_crc32 (take (unat (wr_served r)) (drop 128 win)) \<and>
     wr_sha256 r = drop 64 win \<and> wr_payload r = drop 128 win"

lemma parsed_head:
  assumes "128 \<le> length win" and "take 16 win = RESP_MAGIC" and "take 16 (drop 16 win) = token"
    and "take 28 (drop 96 win) = replicate 28 0"
  shows "response_head token (parsed win) = take 124 win"
  using assms unfolding window_fields response_head_def
  by (simp add: parsed_def wire32.written_read wire64.written_read)

lemma accepted_is_window:
  assumes "length token = 16" and "wire_parse_response win token r0 = (WIRE_OK, r)"
  shows "response_window token win r"
proof -
  have l: "128 \<le> length win" using assms(2) by (auto simp: wire_parse_response_def WIRE_HEADER_def split: if_splits)
  note c = parse_cases [OF assms(1) l, of r0]
  have r: "r = parsed win" using c(2) assms(2) by simp
  have k: "take 16 win = RESP_MAGIC" "take 16 (drop 16 win) = token" "wire_crc32 (take 124 win) = wire_rd32 (drop 124 win)"
    "take 28 (drop 96 win) = replicate 28 0" "wr_served r \<le> WIRE_PAYLOAD_CAP" "128 + unat (wr_served r) \<le> length win"
    "wire_crc32 (take (unat (wr_served r)) (drop 128 win)) = wr_payload_crc r"
    using c(1) assms(2) unfolding r by (simp_all split: if_splits)
  have h: "response_head token r = take 124 win" unfolding r using l k by (intro parsed_head) simp_all
  moreover have "take 128 win = take 124 win @ le_bytes 4 (wr_header_crc r)"
    using take_then [of 124 4 0 win] l by (simp add: r parsed_def wire32.written_read)
  ultimately show ?thesis
    using l k by (simp add: response_window_def) (simp add: r parsed_def)
qed

lemma window_is_accepted:
  assumes "length token = 16" and "length (take 32 (wr_sha256 r)) = 32" and "response_window token win r"
  shows "wire_parse_response win token r0 = (WIRE_OK, r)"
proof -
  note w = assms(3) [unfolded response_window_def]
  define rest where "rest = drop 128 win"
  have win: "win = response_head token r @ le_bytes 4 (wr_header_crc r) @ rest"
    using w append_take_drop_id [of 128 win] by (simp add: rest_def)
  have s: "wr_sha256 r = drop 64 win" "wr_payload r = drop 128 win" using w by simp_all
  have l: "length (response_head token r) = 124" using assms(1,2) by (simp add: response_head_def)
  have f: "drop 32 win = le_bytes 4 (wr_id r) @ drop 36 win" "drop 36 win = le_bytes 4 (wr_status r) @ drop 40 win"
    "drop 40 win = le_bytes 8 (wr_file_size r) @ drop 48 win" "drop 48 win = le_bytes 8 (wr_offset r) @ drop 56 win"
    "drop 56 win = le_bytes 4 (wr_served r) @ drop 60 win" "drop 60 win = le_bytes 4 (wr_payload_crc r) @ drop 64 win"
    "drop 124 win = le_bytes 4 (wr_header_crc r) @ drop 128 win"
    using assms(1,2) unfolding win response_head_def by simp_all
  have p: "parsed win = r"
    unfolding parsed_def using s by (simp add: f wire32.read_written wire64.read_written)
  have "take 16 win = RESP_MAGIC" "take 16 (drop 16 win) = token" "take 124 win = response_head token r"
    "take 28 (drop 96 win) = replicate 28 0"
    using assms(1,2) l unfolding win response_head_def by simp_all
  then have "fst (wire_parse_response win token r0) = WIRE_OK"
    using parse_cases(1) [OF assms(1), of win r0] w p by (simp add: f(7) wire32.read_written not_less)
  then show ?thesis using parse_cases(2) [OF assms(1), of win r0] w p by (simp add: prod_eq_iff)
qed

text \<open>The frame of a response, and that the client reads its fields back.\<close>

definition frame :: "bytes \<Rightarrow> wire_resp \<Rightarrow> bytes \<Rightarrow> bytes" where
  "frame token r payload = response_head token r @ le_bytes 4 (wire_crc32 (response_head token r)) @ payload"

lemma length_frame:
  "length token = 16 \<Longrightarrow> 32 \<le> length (wr_sha256 r) \<Longrightarrow> length (frame token r payload) = 128 + length payload"
  by (simp add: frame_def response_head_def)

lemma frame_accepted:
  assumes "length token = 16" and "32 \<le> length (wr_sha256 r)" and "wr_served r \<le> WIRE_PAYLOAD_CAP"
    and "unat (wr_served r) \<le> length payload" and "wr_payload_crc r = wire_crc32 (take (unat (wr_served r)) payload)"
  shows "wire_parse_response (frame token r payload) token r0 =
     (WIRE_OK, r\<lparr>wr_header_crc := wire_crc32 (response_head token r), wr_sha256 := drop 64 (frame token r payload), wr_payload := payload\<rparr>)"
proof (rule window_is_accepted [OF assms(1)])
  have l: "length (response_head token r) = 124" using assms(1,2) by (simp add: response_head_def)
  have s: "take 32 (drop 64 (frame token r payload)) = take 32 (wr_sha256 r)"
    using assms(1,2) by (simp add: frame_def response_head_def)
  show "length (take 32 (wr_sha256 (r\<lparr>wr_header_crc := wire_crc32 (response_head token r), wr_sha256 := drop 64 (frame token r payload), wr_payload := payload\<rparr>))) = 32"
    using s assms(2) by simp
  have h: "response_head token (r\<lparr>wr_header_crc := wire_crc32 (response_head token r), wr_sha256 := drop 64 (frame token r payload), wr_payload := payload\<rparr>)
      = response_head token r"
    using s by (simp add: response_head_def)
  show "response_window token (frame token r payload)
      (r\<lparr>wr_header_crc := wire_crc32 (response_head token r), wr_sha256 := drop 64 (frame token r payload), wr_payload := payload\<rparr>)"
    unfolding response_window_def h using assms l by (simp add: frame_def)
qed

lemma take_burst:
  assumes "length xs + length a \<le> n" and "length a = length b"
  shows "take n (xs @ a @ ys) = xs @ a @ take (n - length xs - length a) ys"
    and "take n (xs @ b @ ys) = xs @ b @ take (n - length xs - length a) ys"
  using assms by simp_all

lemma crc_prefix_burst:
  assumes "length xs + length a \<le> n" and "length a = length b" and "length a \<le> 4" and "a \<noteq> b"
  shows "wire_crc32 (take n (xs @ b @ ys)) \<noteq> wire_crc32 (take n (xs @ a @ ys))"
  unfolding take_burst [OF assms(1,2)] using crc_burst [OF assms(2-4)] by metis

text \<open>
  C40. Corrupted frames.  Take any response the client accepts and change up to four neighbouring
  bytes of it.  If they lie in the header fields or in the header checksum, the changed window is
  refused for its magic, its token or its checksum; if they lie in the served payload, it is refused
  for the payload checksum.
\<close>

theorem corrupted_frame_refused:
  assumes "length token = 16" and "wire_parse_response (xs @ a @ ys) token r0 = (WIRE_OK, r)"
    and "length a = length b" and "length a \<le> 4" and "a \<noteq> b"
  shows "(length xs + length a \<le> 124 \<or> 124 \<le> length xs \<and> length xs + length a \<le> 128 \<longrightarrow>
            fst (wire_parse_response (xs @ b @ ys) token r1) \<in> {WIRE_E_MAGIC, WIRE_E_TOKEN, WIRE_E_HDRCRC}) \<and>
         (128 \<le> length xs \<and> length xs + length a \<le> 128 + unat (wr_served r) \<longrightarrow>
            fst (wire_parse_response (xs @ b @ ys) token r1) = WIRE_E_PAYCRC)"
proof -
  define win where "win = xs @ a @ ys"
  define bad where "bad = xs @ b @ ys"
  note w = accepted_is_window [OF assms(1,2), folded win_def, unfolded response_window_def]
  have l: "128 \<le> length win" "128 \<le> length bad" using w assms(3) by (simp_all add: win_def bad_def)
  have p: "parsed win = r"
    using parse_cases(2) [OF assms(1) l(1), of r0] assms(2) by (simp add: win_def)
  have c: "take 16 win = RESP_MAGIC" "take 16 (drop 16 win) = token" "wire_crc32 (take 124 win) = wire_rd32 (drop 124 win)"
    "take 28 (drop 96 win) = replicate 28 0"
    using parse_cases(1) [OF assms(1) l(1), of r0] assms(2) by (simp_all add: win_def split: if_splits)
  have head: "wire_crc32 (take 124 bad) \<noteq> wire_rd32 (drop 124 bad)" if "length xs + length a \<le> 124"
  proof -
    have "drop 124 bad = drop 124 win" using that assms(3) by (simp add: win_def bad_def)
    then show ?thesis using crc_prefix_burst [OF that assms(3-5), of ys] c(3) by (simp add: win_def bad_def)
  qed
  have field: "wire_crc32 (take 124 bad) \<noteq> wire_rd32 (drop 124 bad)" if "124 \<le> length xs" "length xs + length a \<le> 128"
  proof -
    have "take 124 bad = take 124 win" using that by (simp add: win_def bad_def)
    moreover have "take 4 (drop 124 bad) \<noteq> take 4 (drop 124 win)"
      using that assms(3,5) by (simp add: win_def bad_def)
    then have "wire_rd32 (drop 124 bad) \<noteq> wire_rd32 (drop 124 win)" using l by (simp add: wire32.read_inject)
    ultimately show ?thesis using c(3) by simp
  qed
  have pay: "fst (wire_parse_response bad token r1) = WIRE_E_PAYCRC" if i: "128 \<le> length xs" "length xs + length a \<le> 128 + unat (wr_served r)"
  proof -
    have t: "take n bad = take n win" if "n \<le> 128" for n using i that by (simp add: win_def bad_def)
    have d: "take k (drop n bad) = take k (drop n win)" if "n + k \<le> 128" for n k
      using i that by (simp add: win_def bad_def)
    have q: "wire_rd32 (drop n bad) = wire_rd32 (drop n win)" if "n \<le> 124" for n
      using d [of n 4] that l by (simp add: wire32.read_inject)
    have "wr_served (parsed bad) = wr_served r" "wr_payload_crc (parsed bad) = wr_payload_crc r"
      using q p by (auto simp: parsed_def)
    moreover have "wire_crc32 (take (unat (wr_served r)) (drop 128 bad)) \<noteq> wire_crc32 (take (unat (wr_served r)) (drop 128 win))"
      using crc_prefix_burst [of "drop 128 xs" a "unat (wr_served r)" b ys] i assms(3-5) by (simp add: win_def bad_def)
    ultimately show ?thesis
      using parse_cases(1) [OF assms(1) l(2), of r1] c w p t [of 16] t [of 124] d [of 16 16] d [of 96 28] q [of 124] assms(3)
      by (simp add: win_def bad_def not_less)
  qed
  show ?thesis
    using head field pay parse_cases(1) [OF assms(1) l(2), of r1] by (auto simp: win_def bad_def)
qed

definition sample_resp :: wire_resp where
  "sample_resp = \<lparr>wr_id = 2, wr_status = 0, wr_file_size = 3, wr_offset = 0, wr_served = 3, wr_payload_crc = wire_crc32 [1, 2, 3],
     wr_header_crc = 0, wr_sha256 = replicate 32 7, wr_payload = []\<rparr>"

theorem corrupted_frame_refused_witness:
  "fst (wire_parse_response (frame (replicate 16 5) sample_resp [1, 2, 3]) (replicate 16 5) sample_resp) = WIRE_OK \<and>
   fst (wire_parse_response (frame (replicate 16 5) sample_resp [9, 8, 3]) (replicate 16 5) sample_resp) = WIRE_E_PAYCRC"
proof -
  define head where "head = frame (replicate 16 5) sample_resp []"
  have v: "wr_served sample_resp = 3" "wr_payload_crc sample_resp = wire_crc32 [1, 2, 3]" "length (wr_sha256 sample_resp) = 32"
    by (simp_all add: sample_resp_def)
  have l: "length head = 128" using v by (simp add: head_def length_frame)
  have f: "frame (replicate 16 5) sample_resp p = head @ p" for p by (simp add: head_def frame_def)
  have ok: "\<exists>r. wire_parse_response (head @ [1, 2] @ [3]) (replicate 16 5) sample_resp = (WIRE_OK, r) \<and> wr_served r = 3"
    using frame_accepted [of "replicate 16 5" sample_resp "[1, 2, 3]" sample_resp] v
    by (simp add: f WIRE_PAYLOAD_CAP_def word_le_nat_alt)
  then obtain r where r: "wire_parse_response (head @ [1, 2] @ [3]) (replicate 16 5) sample_resp = (WIRE_OK, r)" "wr_served r = 3"
    by blast
  show ?thesis
    using corrupted_frame_refused [OF _ r(1), of "[9, 8]" sample_resp] r l by (simp add: f)
qed

end
