(* ===== verification/Delivery_Channel.thy ===== *)
theory Delivery_Channel
  imports Wire_Format
begin

text \<open>
  The file delivery channel: the host side \<^verbatim>\<open>file-delivery-s168/channel.py\<close>, which answers requests
  for slices of one artifact, and the guest side \<^verbatim>\<open>client/nwoas_client.c\<close>, which finds the virtual
  disk, checks the manifest and downloads the artifact chunk by chunk.

  The Windows calls of the client act on an environment \<open>'e\<close>; a failing call is \<open>False\<close> or \<open>None\<close>.
  A drive is its index.  The exit code is the result; console output is left out.  The loop that
  writes a chunk and the download loop may in principle run for ever, so they are partial functions
  with an option result; that the download returns is part of what is proved.
\<close>

section \<open>The host side\<close>

datatype chan_req = Req_Manifest u32 | Req_Data u32 u64 u32

record channel =
  ch_token :: bytes
  ch_artifact :: "bytes option"
  ch_sha256 :: bytes
  ch_req :: "chan_req option"
  ch_resp :: bytes

fun req_id :: "chan_req \<Rightarrow> u32" where
  "req_id (Req_Manifest rid) = rid"
| "req_id (Req_Data rid off len) = rid"

definition build_window :: "bytes \<Rightarrow> bytes \<Rightarrow> bytes \<Rightarrow> chan_req option \<Rightarrow> bytes" where
  "build_window token artifact sha norm =
     (let (status, rid, off, served, payload) =
            (case norm of
               None \<Rightarrow> (WIRE_STATUS_NONE, 0, 0, 0, [])
             | Some (Req_Manifest rid) \<Rightarrow> (WIRE_STATUS_MANIFEST, rid, WIRE_SENTINEL, 0, [])
             | Some (Req_Data rid off len) \<Rightarrow>
                 let avail = length artifact - unat off; served = min (unat len) avail
                 in (if served = unat len then WIRE_STATUS_DATA else WIRE_STATUS_FINAL, rid, off, served,
                     take served (drop (unat off) artifact)));
          header = RESP_MAGIC @ token @ le_bytes 4 rid @ le_bytes 4 status @ le_bytes 8 (word_of_nat (length artifact) :: u64) @
                   le_bytes 8 off @ le_bytes 4 (word_of_nat served :: u32) @ le_bytes 4 (wire_crc32 payload) @ sha @ replicate 28 0
      in header @ le_bytes 4 (wire_crc32 header) @ payload @ replicate (WIRE_WINDOW_BYTES - WIRE_HEADER - length payload) 0)"

definition channel_init :: "bytes \<Rightarrow> channel option" where
  "channel_init token =
     (if length token \<noteq> 16 then None
      else Some \<lparr>ch_token = token, ch_artifact = None, ch_sha256 = [], ch_req = None, ch_resp = []\<rparr>)"

text \<open>The digest of \<^verbatim>\<open>hashlib\<close> is a parameter.\<close>

definition channel_register :: "(bytes \<Rightarrow> bytes) \<Rightarrow> bytes \<Rightarrow> channel \<Rightarrow> channel option" where
  "channel_register sha256 artifact ch =
     (if ch_artifact ch \<noteq> None then None
      else Some (ch\<lparr>ch_artifact := Some artifact, ch_sha256 := sha256 artifact, ch_req := None,
                    ch_resp := build_window (ch_token ch) artifact (sha256 artifact) None\<rparr>))"

definition parse_request :: "bytes \<Rightarrow> bytes \<Rightarrow> (u32 \<times> u64 \<times> u32) option" where
  "parse_request token data =
     (if length data \<noteq> WIRE_BLOCK then None
      else if take 16 data \<noteq> REQ_MAGIC \<or> take 16 (drop 16 data) \<noteq> token then None
      else let rid = le_word (take 4 (drop 32 data)); offset = le_word (take 8 (drop 36 data));
               len = le_word (take 4 (drop 44 data)); crc = le_word (take 4 (drop 48 data)) in
        if wire_crc32 (take 48 data) \<noteq> crc then None
        else if list_ex (\<lambda>b. b \<noteq> 0) (drop 52 data) then None
        else if rid < 1 then None
        else Some (rid, offset, len))"

definition handle_request :: "bytes \<Rightarrow> channel \<Rightarrow> bool \<times> channel" where
  "handle_request data ch =
     (case ch_artifact ch of
        None \<Rightarrow> (False, ch)
      | Some artifact \<Rightarrow>
          (case parse_request (ch_token ch) data of
             None \<Rightarrow> (False, ch)
           | Some (rid, offset, len) \<Rightarrow>
               (let norm = (if offset = WIRE_SENTINEL
                            then (if len \<noteq> 0 then None else Some (Req_Manifest rid))
                            else if \<not> (1 \<le> len \<and> len \<le> WIRE_PAYLOAD_CAP) then None
                            else if unat offset > length artifact then None
                            else Some (Req_Data rid offset len))
                in case norm of
                     None \<Rightarrow> (False, ch)
                   | Some nr \<Rightarrow>
                       if ch_req ch = Some nr then (True, ch)
                       else if rid \<le> (case ch_req ch of None \<Rightarrow> 0 | Some r \<Rightarrow> req_id r) then (False, ch)
                       else (True, ch\<lparr>ch_req := Some nr, ch_resp := build_window (ch_token ch) artifact (ch_sha256 ch) (Some nr)\<rparr>))))"

definition overlay :: "channel \<Rightarrow> nat \<Rightarrow> nat \<Rightarrow> bytes \<Rightarrow> bytes option" where
  "overlay ch lba n original =
     (if ch_artifact ch = None then None
      else if n < 1 \<or> length original \<noteq> n * WIRE_BLOCK then None
      else let lo = max lba 129; hi = min (lba + n) (129 + 16) in
        Some (if lo < hi
              then let src = (lo - 129) * WIRE_BLOCK; dst = (lo - lba) * WIRE_BLOCK; size = (hi - lo) * WIRE_BLOCK
                   in take dst original @ take size (drop src (ch_resp ch)) @ drop (dst + size) original
              else original))"

section \<open>The guest side\<close>

definition EXPECTED_SIZE :: u64 where "EXPECTED_SIZE = 783373346"
definition FREE_MARGIN :: u64 where "FREE_MARGIN = 512 * 1024 * 1024"
definition NS2_LENGTH :: u64 where "NS2_LENGTH = 8448 * 4096"
definition MBR_SIG :: u32 where "MBR_SIG = 0x53313233"
definition MAX_TRIES :: nat where "MAX_TRIES = 3"

definition PORT_MAGIC :: bytes where
  "PORT_MAGIC = [0x4e, 0x57, 0x4f, 0x41, 0x53, 0x2d, 0x53, 0x31, 0x32, 0x33, 0x2d, 0x4c, 0x49, 0x4e, 0x4b, 0x21]"

definition EXPECTED_SHA :: bytes where
  "EXPECTED_SHA =
     [0xcb, 0x6c, 0x76, 0x5f, 0x80, 0xd5, 0x3e, 0x1f, 0xe7, 0x02, 0xde, 0x14, 0x5b, 0x6d, 0xa1, 0xc6,
      0x7a, 0xf5, 0xb3, 0x7d, 0x5a, 0x39, 0x9c, 0x8f, 0x33, 0x96, 0xa7, 0xec, 0xfe, 0xd7, 0x81, 0x59]"

text \<open>
  The system calls.  A read gives the number of bytes read and the buffer after it.
\<close>

record 'e win_os =
  os_free_space :: "'e \<Rightarrow> u64 option \<times> 'e"
  os_alloc :: "nat \<Rightarrow> 'e \<Rightarrow> bool \<times> 'e"
  os_open :: "nat \<Rightarrow> bool \<Rightarrow> 'e \<Rightarrow> bool \<times> 'e"
  os_close :: "nat \<Rightarrow> 'e \<Rightarrow> 'e"
  os_disk_length :: "nat \<Rightarrow> 'e \<Rightarrow> (u64 \<times> u32) option \<times> 'e"
  os_seek :: "nat \<Rightarrow> u64 \<Rightarrow> 'e \<Rightarrow> bool \<times> 'e"
  os_read :: "nat \<Rightarrow> u32 \<Rightarrow> 'e \<Rightarrow> (u32 \<times> (nat \<Rightarrow> u8)) option \<times> 'e"
  os_write :: "nat \<Rightarrow> bytes \<Rightarrow> 'e \<Rightarrow> u32 option \<times> 'e"
  os_sleep :: "u32 \<Rightarrow> 'e \<Rightarrow> 'e"
  os_create :: "'e \<Rightarrow> bool \<times> 'e"
  os_append :: "bytes \<Rightarrow> 'e \<Rightarrow> u32 option \<times> 'e"
  os_flush :: "'e \<Rightarrow> bool \<times> 'e"
  os_close_dest :: "'e \<Rightarrow> 'e"

definition rd_block :: "'e win_os \<Rightarrow> nat \<Rightarrow> u64 \<Rightarrow> 'e \<Rightarrow> bytes option \<times> 'e" where
  "rd_block os h at e =
     (case os_seek os h at e of
        (False, e1) \<Rightarrow> (None, e1)
      | (True, e1) \<Rightarrow>
          (case os_read os h (word_of_nat WIRE_BLOCK) e1 of
             (None, e2) \<Rightarrow> (None, e2)
           | (Some (got, buf), e2) \<Rightarrow> (if got = word_of_nat WIRE_BLOCK then Some (map buf [0..<WIRE_BLOCK]) else None, e2)))"

text \<open>The result carries the block of the session frame, from which the token is taken.\<close>

definition identify :: "'e win_os \<Rightarrow> nat \<Rightarrow> 'e \<Rightarrow> bytes option \<times> 'e" where
  "identify os h e =
     (case os_disk_length os h e of
        (None, e1) \<Rightarrow> (None, e1)
      | (Some (len, got), e1) \<Rightarrow>
          if got \<noteq> 8 \<or> len \<noteq> NS2_LENGTH then (None, e1)
          else (case rd_block os h 0 e1 of
                  (None, e2) \<Rightarrow> (None, e2)
                | (Some b, e2) \<Rightarrow>
                    if wire_rd32 (drop 440 b) \<noteq> MBR_SIG \<or> b ! 510 \<noteq> 0x55 \<or> b ! 511 \<noteq> 0xaa then (None, e2)
                    else (case rd_block os h (128 * 4096) e2 of
                            (None, e3) \<Rightarrow> (None, e3)
                          | (Some p, e3) \<Rightarrow>
                              (if list_ex (\<lambda>i. p ! i \<noteq> PORT_MAGIC ! i) [0..<16] then None else Some p, e3))))"

definition put_request :: "'e win_os \<Rightarrow> nat \<Rightarrow> bytes \<Rightarrow> u32 \<Rightarrow> u64 \<Rightarrow> u32 \<Rightarrow> 'e \<Rightarrow> bool \<times> 'e" where
  "put_request os disk token rid offset len e =
     (case os_seek os disk (WIRE_REQ_LBA * 4096) e of
        (False, e1) \<Rightarrow> (False, e1)
      | (True, e1) \<Rightarrow>
          (case os_write os disk (wire_build_request token rid offset len) e1 of
             (None, e2) \<Rightarrow> (False, e2)
           | (Some wr, e2) \<Rightarrow> (wr = word_of_nat WIRE_BLOCK, e2)))"

definition get_window :: "'e win_os \<Rightarrow> nat \<Rightarrow> 'e \<Rightarrow> bytes option \<times> 'e" where
  "get_window os disk e =
     (case os_seek os disk (WIRE_RESP_LBA * 4096) e of
        (False, e1) \<Rightarrow> (None, e1)
      | (True, e1) \<Rightarrow>
          (case os_read os disk (word_of_nat WIRE_WINDOW_BYTES) e1 of
             (None, e2) \<Rightarrow> (None, e2)
           | (Some (got, buf), e2) \<Rightarrow>
               (if got = word_of_nat WIRE_WINDOW_BYTES then Some (map buf [0..<WIRE_WINDOW_BYTES]) else None, e2)))"

text \<open>One attempt of an exchange, then the retries.\<close>

definition attempt ::
  "'e win_os \<Rightarrow> nat \<Rightarrow> bytes \<Rightarrow> u32 \<Rightarrow> u64 \<Rightarrow> u32 \<Rightarrow> bool \<Rightarrow> wire_resp \<Rightarrow> 'e \<Rightarrow> bool \<times> wire_resp \<times> 'e" where
  "attempt os disk token rid offset len data_mode r e =
     (case put_request os disk token rid offset len e of
        (False, e1) \<Rightarrow> (False, r, e1)
      | (True, e1) \<Rightarrow>
          (case get_window os disk e1 of
             (None, e2) \<Rightarrow> (False, r, e2)
           | (Some win, e2) \<Rightarrow>
               (case wire_parse_response win token r of
                  (st, r1) \<Rightarrow>
                    (st = WIRE_OK \<and>
                     (if data_mode then wire_check_data r1 rid offset len EXPECTED_SIZE else wire_check_manifest r1 rid) = WIRE_OK \<and>
                     \<not> list_ex (\<lambda>j. wr_sha256 r1 ! j \<noteq> EXPECTED_SHA ! j) [0..<32], r1, e2))))"

primrec exchange_from ::
  "nat \<Rightarrow> bool \<Rightarrow> 'e win_os \<Rightarrow> nat \<Rightarrow> bytes \<Rightarrow> u32 \<Rightarrow> u64 \<Rightarrow> u32 \<Rightarrow> bool \<Rightarrow> wire_resp \<Rightarrow> 'e \<Rightarrow> bool \<times> wire_resp \<times> 'e" where
  "exchange_from 0 again os disk token rid offset len mode r e = (False, r, e)"
| "exchange_from (Suc n) again os disk token rid offset len mode r e =
     (case attempt os disk token rid offset len mode r (if again then os_sleep os 100 e else e) of
        (ok, r1, e1) \<Rightarrow> if ok then (True, r1, e1) else exchange_from n True os disk token rid offset len mode r1 e1)"

definition exchange ::
  "'e win_os \<Rightarrow> nat \<Rightarrow> bytes \<Rightarrow> wire_resp \<Rightarrow> u32 \<Rightarrow> u64 \<Rightarrow> u32 \<Rightarrow> bool \<Rightarrow> 'e \<Rightarrow> bool \<times> wire_resp \<times> 'e" where
  "exchange os disk token r rid offset len mode e = exchange_from MAX_TRIES False os disk token rid offset len mode r e"

partial_function (option) write_all :: "'e win_os \<Rightarrow> bytes \<Rightarrow> u32 \<Rightarrow> u32 \<Rightarrow> 'e \<Rightarrow> (bool \<times> 'e) option" where
  "write_all os p n pos e =
     (if pos < n
      then (case os_append os (take (unat (n - pos)) (drop (unat pos) p)) e of
              (None, e1) \<Rightarrow> Some (False, e1)
            | (Some w, e1) \<Rightarrow> if w = 0 then Some (False, e1) else write_all os p n (pos + w) e1)
      else Some (True, e))"

text \<open>The download loop: the exit code of a failure, or none, with the final offset.\<close>

partial_function (option) download ::
  "'e win_os \<Rightarrow> nat \<Rightarrow> bytes \<Rightarrow> u64 \<Rightarrow> u32 \<Rightarrow> wire_resp \<Rightarrow> 'e \<Rightarrow> (nat option \<times> u64 \<times> 'e) option" where
  "download os disk token offset rid r e =
     (if offset < EXPECTED_SIZE
      then (case exchange os disk token r rid offset WIRE_PAYLOAD_CAP True e of
              (ok, r1, e1) \<Rightarrow>
                if \<not> ok then Some (Some 9, offset, os_close_dest os e1)
                else (case (if wr_served r1 \<noteq> 0 then write_all os (wr_payload r1) (wr_served r1) 0 e1 else Some (True, e1)) of
                        None \<Rightarrow> None
                      | Some (written, e2) \<Rightarrow>
                          if \<not> written then Some (Some 10, offset, os_close_dest os e2)
                          else if wr_status r1 = WIRE_STATUS_FINAL then Some (None, offset + ucast (wr_served r1), e2)
                          else download os disk token (offset + ucast (wr_served r1)) (rid + 1) r1 e2))
      else Some (None, offset, e))"

text \<open>Finding the drive: identify it, keep its token, reopen it for writing and compare the token.\<close>

definition try_drive :: "'e win_os \<Rightarrow> nat \<Rightarrow> 'e \<Rightarrow> bytes option \<times> 'e" where
  "try_drive os i e =
     (case os_open os i False e of
        (False, e1) \<Rightarrow> (None, e1)
      | (True, e1) \<Rightarrow>
          (case identify os i e1 of
             (None, e2) \<Rightarrow> (None, os_close os i e2)
           | (Some b, e2) \<Rightarrow>
               let token = map (\<lambda>j. b ! (16 + j)) [0..<16] in
               (case os_open os i True (os_close os i e2) of
                  (False, e3) \<Rightarrow> (None, e3)
                | (True, e3) \<Rightarrow>
                    (case identify os i e3 of
                       (None, e4) \<Rightarrow> (None, os_close os i e4)
                     | (Some b2, e4) \<Rightarrow>
                         if list_ex (\<lambda>j. b2 ! (16 + j) \<noteq> token ! j) [0..<16] then (None, os_close os i e4)
                         else (Some token, e4)))))"

fun find_drive :: "'e win_os \<Rightarrow> nat list \<Rightarrow> 'e \<Rightarrow> (nat \<times> bytes) option \<times> 'e" where
  "find_drive os [] e = (None, e)"
| "find_drive os (i # is) e =
     (case try_drive os i e of
        (Some token, e1) \<Rightarrow> (Some (i, token), e1)
      | (None, e1) \<Rightarrow> find_drive os is e1)"

text \<open>The transfer on an identified drive, then the whole program.  The result is the exit code.\<close>

definition transfer :: "'e win_os \<Rightarrow> nat \<Rightarrow> bytes \<Rightarrow> wire_resp \<Rightarrow> 'e \<Rightarrow> (nat \<times> 'e) option" where
  "transfer os disk token r0 e =
     (let stop = (\<lambda>code e. Some (code, os_close os disk e)) in
      case exchange os disk token r0 1 WIRE_SENTINEL 0 False e of
        (False, r, e1) \<Rightarrow> stop 7 e1
      | (True, r, e1) \<Rightarrow>
          if wr_file_size r \<noteq> EXPECTED_SIZE then stop 7 e1
          else if list_ex (\<lambda>j. wr_sha256 r ! j \<noteq> EXPECTED_SHA ! j) [0..<32] then stop 7 e1
          else (case os_create os e1 of
                  (False, e2) \<Rightarrow> stop 8 e2
                | (True, e2) \<Rightarrow>
                    (case download os disk token 0 2 r e2 of
                       None \<Rightarrow> None
                     | Some (Some code, offset, e3) \<Rightarrow> stop code e3
                     | Some (None, offset, e3) \<Rightarrow>
                         if offset \<noteq> EXPECTED_SIZE then stop 11 (os_close_dest os e3)
                         else (case os_flush os e3 of
                                 (False, e4) \<Rightarrow> stop 12 (os_close_dest os e4)
                               | (True, e4) \<Rightarrow> Some (0, os_close os disk (os_close_dest os e4))))))"

definition mainCRTStartup :: "'e win_os \<Rightarrow> wire_resp \<Rightarrow> 'e \<Rightarrow> (nat \<times> 'e) option" where
  "mainCRTStartup os r0 e0 =
     (case os_free_space os e0 of
        (None, e1) \<Rightarrow> Some (4, e1)
      | (Some avail, e1) \<Rightarrow>
          if avail < EXPECTED_SIZE + FREE_MARGIN then Some (4, e1)
          else let (a, e2) = os_alloc os WIRE_WINDOW_BYTES e1; (b, e3) = os_alloc os WIRE_BLOCK e2; (c, e4) = os_alloc os WIRE_BLOCK e3 in
            if \<not> (a \<and> b \<and> c) then Some (5, e4)
            else (case find_drive os [0..<10] e4 of
                    (None, e5) \<Rightarrow> Some (6, e5)
                  | (Some (disk, token), e5) \<Rightarrow> transfer os disk token r0 e5))"

section \<open>Requests and windows\<close>

lemma word_1_le: "(1 :: u32) \<le> rid \<longleftrightarrow> rid \<noteq> 0"
  by (metis word_coorder.not_eq_extremum word_le_less_eq word_less_1 word_not_simps(1) linorder_not_le)

lemma request_parsed:
  assumes "length token = 16" and "rid \<noteq> 0"
  shows "parse_request token (wire_build_request token rid offset len) = Some (rid, offset, len)"
proof -
  have l: "length (request_head token rid offset len) = 48" using assms(1) by (simp add: request_head_def)
  have r: "\<not> rid < 1" using assms(2) by (simp add: not_less word_1_le)
  show ?thesis
    unfolding build_request_image [OF assms(1)] parse_request_def using assms(1) l r
    by (simp add: WIRE_BLOCK_def) (simp add: request_head_def le_word_roundtrip list_ex_iff)
qed

text \<open>A channel that serves an artifact: its window is the window of its latched request.\<close>

definition serving :: "bytes \<Rightarrow> channel \<Rightarrow> bool" where
  "serving art ch \<longleftrightarrow> ch_artifact ch = Some art \<and> length (ch_token ch) = 16 \<and> length (ch_sha256 ch) = 32 \<and>
     length art < 2 ^ 64 \<and> ch_resp ch = build_window (ch_token ch) art (ch_sha256 ch) (ch_req ch) \<and>
     (case ch_req ch of Some (Req_Data rid off len) \<Rightarrow> unat off \<le> length art \<and> len \<le> WIRE_PAYLOAD_CAP | _ \<Rightarrow> True)"

lemma register_serving:
  assumes "channel_init token = Some ch0" and "channel_register sha art ch0 = Some ch"
    and "length (sha art) = 32" and "length art < 2 ^ 64"
  shows "serving art ch"
  using assms by (auto simp: channel_init_def channel_register_def serving_def split: if_splits)

lemma handle_serving: "serving art ch \<Longrightarrow> serving art (snd (handle_request data ch))"
  by (auto simp: serving_def handle_request_def Let_def not_less split: option.splits if_splits)

text \<open>The fields of a window and that the client reads exactly them.\<close>

definition reply_of :: "bytes \<Rightarrow> bytes \<Rightarrow> chan_req option \<Rightarrow> wire_resp" where
  "reply_of art sha norm =
     (let served = (case norm of Some (Req_Data rid off len) \<Rightarrow> min (unat len) (length art - unat off) | _ \<Rightarrow> 0);
          payload = (case norm of Some (Req_Data rid off len) \<Rightarrow> take served (drop (unat off) art) | _ \<Rightarrow> [])
      in \<lparr>wr_id = (case norm of None \<Rightarrow> 0 | Some nr \<Rightarrow> req_id nr),
          wr_status = (case norm of None \<Rightarrow> WIRE_STATUS_NONE | Some (Req_Manifest rid) \<Rightarrow> WIRE_STATUS_MANIFEST
                       | Some (Req_Data rid off len) \<Rightarrow> if served = unat len then WIRE_STATUS_DATA else WIRE_STATUS_FINAL),
          wr_file_size = word_of_nat (length art),
          wr_offset = (case norm of None \<Rightarrow> 0 | Some (Req_Manifest rid) \<Rightarrow> WIRE_SENTINEL | Some (Req_Data rid off len) \<Rightarrow> off),
          wr_served = word_of_nat served, wr_payload_crc = wire_crc32 payload, wr_header_crc = 0, wr_sha256 = sha, wr_payload = payload\<rparr>)"

lemma window_frame:
  "length sha = 32 \<Longrightarrow>
   build_window token art sha norm =
     frame token (reply_of art sha norm) (wr_payload (reply_of art sha norm) @ replicate (65408 - length (wr_payload (reply_of art sha norm))) 0)"
  by (auto simp: build_window_def frame_def response_head_def reply_of_def Let_def wire_consts split: option.splits chan_req.splits)

lemma reply_served:
  assumes "case norm of Some (Req_Data rid off len) \<Rightarrow> len \<le> WIRE_PAYLOAD_CAP | _ \<Rightarrow> True"
  shows "unat (wr_served (reply_of art sha norm)) = length (wr_payload (reply_of art sha norm))"
    and "length (wr_payload (reply_of art sha norm)) \<le> 65408"
proof -
  have "k \<le> 65408 \<Longrightarrow> unat (word_of_nat k :: u32) = k" for k
    by (rule unat_of_nat_small) simp
  then show "unat (wr_served (reply_of art sha norm)) = length (wr_payload (reply_of art sha norm))"
    "length (wr_payload (reply_of art sha norm)) \<le> 65408"
    using assms by (auto simp: reply_of_def Let_def WIRE_PAYLOAD_CAP_def word_le_nat_alt min_def split: option.splits chan_req.splits)
qed

definition read_reply :: "channel \<Rightarrow> wire_resp \<Rightarrow> wire_resp" where
  "read_reply ch q = q\<lparr>wr_header_crc := wire_crc32 (response_head (ch_token ch) q), wr_sha256 := drop 64 (ch_resp ch),
     wr_payload := wr_payload q @ replicate (65408 - length (wr_payload q)) 0\<rparr>"

lemma reply_parsed:
  assumes "serving art ch"
  defines "q \<equiv> reply_of art (ch_sha256 ch) (ch_req ch)"
  shows "wire_parse_response (ch_resp ch) (ch_token ch) r0 = (WIRE_OK, read_reply ch q)"
    and "unat (wr_served q) = length (wr_payload q)" and "length (wr_payload q) \<le> 65408"
    and "length (ch_resp ch) = 65536" and "take 16 (drop 16 (ch_resp ch)) = ch_token ch"
    and "take 32 (drop 64 (ch_resp ch)) = ch_sha256 ch"
proof -
  note s = assms(1) [unfolded serving_def]
  have w: "ch_resp ch = frame (ch_token ch) q (wr_payload q @ replicate (65408 - length (wr_payload q)) 0)"
    using s window_frame by (auto simp: q_def)
  show v: "unat (wr_served q) = length (wr_payload q)" "length (wr_payload q) \<le> 65408"
    unfolding q_def using s by (auto intro!: reply_served split: option.splits chan_req.splits)
  have c: "wr_payload_crc q = wire_crc32 (wr_payload q)" "wr_sha256 q = ch_sha256 ch"
    by (simp_all add: q_def reply_of_def Let_def)
  show "wire_parse_response (ch_resp ch) (ch_token ch) r0 = (WIRE_OK, read_reply ch q)"
    unfolding read_reply_def w using s v c by (intro frame_accepted) (simp_all add: WIRE_PAYLOAD_CAP_def word_le_nat_alt)
  show "length (ch_resp ch) = 65536" unfolding w using s c v by (subst length_frame) simp_all
  show "take 16 (drop 16 (ch_resp ch)) = ch_token ch" "take 32 (drop 64 (ch_resp ch)) = ch_sha256 ch"
    unfolding w using s c by (simp_all add: frame_def response_head_def)
qed

lemma window_read_back:
  assumes "serving art ch" and "wire_parse_response (ch_resp ch) token r0 = (WIRE_OK, r)" and "length token = 16"
  shows "token = ch_token ch" and "wr_id r = wr_id (reply_of art (ch_sha256 ch) (ch_req ch))"
    and "wr_status r = wr_status (reply_of art (ch_sha256 ch) (ch_req ch))"
    and "wr_offset r = wr_offset (reply_of art (ch_sha256 ch) (ch_req ch))"
    and "wr_file_size r = word_of_nat (length art)"
    and "take (unat (wr_served r)) (wr_payload r) = wr_payload (reply_of art (ch_sha256 ch) (ch_req ch))"
    and "unat (wr_served r) = length (wr_payload (reply_of art (ch_sha256 ch) (ch_req ch)))"
proof -
  let ?q = "reply_of art (ch_sha256 ch) (ch_req ch)"
  note p = reply_parsed [OF assms(1)]
  show t: "token = ch_token ch"
    using parse_cases(1) [OF assms(3), of "ch_resp ch" r0] assms(2) p(4,5) by (simp split: if_splits)
  then have r: "r = read_reply ch ?q" using p(1) [of r0] assms(2) by simp
  have c: "wr_file_size ?q = word_of_nat (length art)" by (simp add: reply_of_def Let_def)
  show "wr_id r = wr_id ?q" "wr_status r = wr_status ?q" "wr_offset r = wr_offset ?q" "wr_file_size r = word_of_nat (length art)"
    "take (unat (wr_served r)) (wr_payload r) = wr_payload ?q" "unat (wr_served r) = length (wr_payload ?q)"
    unfolding r read_reply_def using p(2) c by simp_all
qed

text \<open>An accepted data chunk is the slice of the artifact the client asked for.\<close>

lemma chunk_is_slice:
  assumes "serving art ch" and "wire_parse_response (ch_resp ch) token r0 = (WIRE_OK, r)" and "length token = 16"
    and "wire_check_data r rid off n fsize = WIRE_OK"
  shows "take (unat (wr_served r)) (wr_payload r) = take (unat (wr_served r)) (drop (unat off) art)"
    and "unat off + unat (wr_served r) \<le> length art" and "fsize = word_of_nat (length art)"
    and "unat (wr_served r) \<le> length (wr_payload r)"
    and "wr_status r = WIRE_STATUS_FINAL \<Longrightarrow> unat off + unat (wr_served r) = length art"
    and "wr_status r \<noteq> WIRE_STATUS_FINAL \<Longrightarrow> wr_served r = n"
proof -
  note b = window_read_back [OF assms(1-3)] and s = assms(1) [unfolded serving_def]
  have k: "wr_offset r = off" "wr_file_size r = fsize" "wr_status r = 0 \<or> wr_status r = 1" "wr_status r = 0 \<longrightarrow> wr_served r = n"
    using assms(4) by (auto simp: wire_check_data_def WIRE_STATUS_DATA_def WIRE_STATUS_FINAL_def split: if_splits)
  obtain rid' len where q: "ch_req ch = Some (Req_Data rid' off len)"
    using k(1,3) b(3,4) by (cases "ch_req ch"; cases "the (ch_req ch)")
      (auto simp: reply_of_def Let_def wire_consts)
  define m where "m = min (unat len) (length art - unat off)"
  have p: "wr_payload (reply_of art (ch_sha256 ch) (ch_req ch)) = take m (drop (unat off) art)"
    and st: "wr_status r = (if m = unat len then 0 else 1)"
    using b(3) by (simp_all add: q reply_of_def Let_def wire_consts m_def)
  have o: "unat off \<le> length art" using s q by simp
  have m: "unat (wr_served r) = m" using b(7) p o by (simp add: m_def min_def)
  show "take (unat (wr_served r)) (wr_payload r) = take (unat (wr_served r)) (drop (unat off) art)"
    using b(6) p m by simp
  show "unat off + unat (wr_served r) \<le> length art" using m o by (auto simp: m_def min_def)
  show "fsize = word_of_nat (length art)" using k(2) b(5) by simp
  show "unat (wr_served r) \<le> length (wr_payload r)" using arg_cong [OF b(6), of length] b(7) by simp
  show "unat off + unat (wr_served r) = length art" if "wr_status r = WIRE_STATUS_FINAL"
    using that st m o by (auto simp: WIRE_STATUS_FINAL_def m_def min_def split: if_splits)
  show "wr_served r = n" if "wr_status r \<noteq> WIRE_STATUS_FINAL" using that k(3,4) by (simp add: WIRE_STATUS_FINAL_def)
qed

section \<open>A link between the two sides\<close>

text \<open>
  What the client relies on: the drive behaves as the channel behind it (a block written at the
  request position may or may not reach the channel, a full read of the response window shows the
  channel's window), and the destination grows by what an append says it wrote.  Calls may fail at
  any time.
\<close>

locale delivery_link =
  fixes os :: "'e win_os" and disk :: nat and chan :: "'e \<Rightarrow> channel" and dest :: "'e \<Rightarrow> bytes" and position :: "'e \<Rightarrow> u64"
  assumes seek_law: "os_seek os disk a e = (ok, e') \<Longrightarrow> chan e' = chan e \<and> dest e' = dest e \<and> (ok \<longrightarrow> position e' = a)"
    and write_law: "os_write os disk b e = (wr, e') \<Longrightarrow> dest e' = dest e \<and>
      (chan e' = chan e \<or> position e = WIRE_REQ_LBA * 4096 \<and> chan e' = snd (handle_request b (chan e)))"
    and read_law: "os_read os disk n e = (rx, e') \<Longrightarrow> chan e' = chan e \<and> dest e' = dest e"
    and window_law: "os_read os disk (word_of_nat WIRE_WINDOW_BYTES) e = (Some (word_of_nat WIRE_WINDOW_BYTES, buf), e') \<Longrightarrow>
      position e = WIRE_RESP_LBA * 4096 \<Longrightarrow> length (ch_resp (chan e)) = WIRE_WINDOW_BYTES \<Longrightarrow> map buf [0..<WIRE_WINDOW_BYTES] = ch_resp (chan e)"
    and sleep_law: "chan (os_sleep os t e) = chan e \<and> dest (os_sleep os t e) = dest e"
    and create_law: "os_create os e = (ok, e') \<Longrightarrow> chan e' = chan e \<and> (ok \<longrightarrow> dest e' = [])"
    and append_law: "os_append os b e = (Some w, e') \<Longrightarrow> chan e' = chan e \<and> unat w \<le> length b \<and> dest e' = dest e @ take (unat w) b"
    and flush_law: "os_flush os e = (ok, e') \<Longrightarrow> dest e' = dest e"
    and close_law: "dest (os_close os disk e) = dest e \<and> dest (os_close_dest os e) = dest e"
begin

lemma put_request_keeps:
  assumes "put_request os disk token rid offset len e = (ok, e')" and "serving art (chan e)"
  shows "serving art (chan e') \<and> dest e' = dest e"
  using assms handle_serving [OF assms(2)] unfolding put_request_def
  by (auto split: prod.splits bool.splits option.splits dest!: seek_law write_law)

lemma get_window_shows:
  assumes "get_window os disk e = (x, e')" and "serving art (chan e)"
  shows "chan e' = chan e \<and> dest e' = dest e \<and> (\<forall>win. x = Some win \<longrightarrow> win = ch_resp (chan e))"
proof -
  obtain ok e1 where 1: "os_seek os disk (WIRE_RESP_LBA * 4096) e = (ok, e1)" by (metis surj_pair)
  obtain y e2 where 2: "os_read os disk (word_of_nat WIRE_WINDOW_BYTES) e1 = (y, e2)" by (metis surj_pair)
  show ?thesis
    using assms(1) seek_law [OF 1] read_law [OF 2] window_law [of e1 _ e2] 2 reply_parsed(4) [OF assms(2)]
    unfolding get_window_def 1 prod.case by (auto simp: WIRE_WINDOW_BYTES_def split: bool.splits option.splits prod.splits if_splits)
qed

lemma attempt_accepts:
  assumes "attempt os disk token rid offset len mode r e = (ok, r1, e')" and "serving art (chan e)"
  shows "serving art (chan e') \<and> dest e' = dest e \<and>
     (ok \<longrightarrow> wire_parse_response (ch_resp (chan e')) token r = (WIRE_OK, r1) \<and>
        (if mode then wire_check_data r1 rid offset len EXPECTED_SIZE else wire_check_manifest r1 rid) = WIRE_OK)"
proof -
  obtain k e1 where 1: "put_request os disk token rid offset len e = (k, e1)" by (metis surj_pair)
  obtain x e2 where 2: "get_window os disk e1 = (x, e2)" by (metis surj_pair)
  note p = put_request_keeps [OF 1 assms(2)]
  note g = get_window_shows [OF 2 p [THEN conjunct1]]
  show ?thesis
    using assms(1) p g unfolding attempt_def 1 prod.case 2
    by (cases k; cases x; cases "wire_parse_response (the x) token r") auto
qed

lemma exchange_accepts:
  "exchange_from n again os disk token rid offset len mode r e = (ok, r1, e') \<Longrightarrow> serving art (chan e) \<Longrightarrow>
   serving art (chan e') \<and> dest e' = dest e \<and>
     (ok \<longrightarrow> (\<exists>r0. wire_parse_response (ch_resp (chan e')) token r0 = (WIRE_OK, r1)) \<and>
        (if mode then wire_check_data r1 rid offset len EXPECTED_SIZE else wire_check_manifest r1 rid) = WIRE_OK)"
proof (induction n arbitrary: again r e)
  case (Suc n)
  define e0 where "e0 = (if again then os_sleep os 100 e else e)"
  have s: "serving art (chan e0)" "dest e0 = dest e" using Suc.prems(2) sleep_law by (simp_all add: e0_def)
  obtain k r2 e2 where a: "attempt os disk token rid offset len mode r e0 = (k, r2, e2)" by (metis prod_cases3)
  note acc = attempt_accepts [OF a s(1)]
  show ?case
  proof (cases k)
    case True
    then show ?thesis using Suc.prems(1) acc a s by (auto simp: e0_def [symmetric])
  next
    case False
    then have "exchange_from n True os disk token rid offset len mode r2 e2 = (ok, r1, e')"
      using Suc.prems(1) a by (simp add: e0_def [symmetric])
    then show ?thesis using Suc.IH [of True r2 e2] acc s by simp
  qed
qed simp

lemma write_all_returns:
  "k \<le> n \<Longrightarrow> unat n \<le> length p \<Longrightarrow>
   \<exists>ok e'. write_all os p n k e = Some (ok, e') \<and>
     (ok \<longrightarrow> chan e' = chan e \<and> dest e' = dest e @ take (unat n - unat k) (drop (unat k) p))"
proof (induction "unat n - unat k" arbitrary: k e rule: less_induct)
  case less
  show ?case
  proof (cases "k < n")
    case False
    then have "k = n" using less.prems(1) by simp
    then have "write_all os p n k e = Some (True, e)" by (subst write_all.simps) simp
    then show ?thesis using \<open>k = n\<close> by (intro exI [of _ True] exI [of _ e]) simp
  next
    case True
    define b where "b = take (unat (n - k)) (drop (unat k) p)"
    obtain x e1 where a: "os_append os b e = (x, e1)" by (metis surj_pair)
    have d: "unat (n - k) = unat n - unat k" "unat k < unat n"
      using unat_diff_small [of k n] True by (simp_all add: word_less_nat_alt word_le_nat_alt)
    have lb: "length b = unat n - unat k" using less.prems(2) d by (simp add: b_def)
    show ?thesis
    proof (cases "x = None \<or> x = Some 0")
      case True
      then show ?thesis using a \<open>k < n\<close> by (subst write_all.simps) (auto simp: b_def)
    next
      case False
      then obtain w where w: "x = Some w" "w \<noteq> 0" by auto
      note l = append_law [OF a [unfolded w(1)]]
      have wn: "unat w \<noteq> 0" using w(2) by (simp add: unat_eq_0)
      have u: "unat (k + w) = unat k + unat w"
      proof (rule unat_add_small)
        have "unat k + unat w \<le> unat n" using l lb d by linarith
        then show "unat k + unat w < 2 ^ LENGTH(32)" by (rule le_less_trans) (rule unsigned_less)
      qed
      have "k + w \<le> n" unfolding word_le_nat_alt u using l lb d by linarith
      moreover have "unat n - unat (k + w) < unat n - unat k" using u wn d by linarith
      ultimately obtain ok e' where r: "write_all os p n (k + w) e1 = Some (ok, e')"
        "ok \<longrightarrow> chan e' = chan e1 \<and> dest e' = dest e1 @ take (unat n - unat (k + w)) (drop (unat (k + w)) p)"
        using less.hyps less.prems(2) by blast
      have eq: "write_all os p n k e = Some (ok, e')"
        using a w r(1) \<open>k < n\<close> by (subst write_all.simps) (simp add: b_def)
      have "take (unat w) b @ take (unat n - (unat k + unat w)) (drop (unat k + unat w) p) = take (unat n - unat k) (drop (unat k) p)"
      proof -
        have "unat n - unat k = unat w + (unat n - (unat k + unat w))" using l lb d by linarith
        then have "take (unat n - unat k) (drop (unat k) p) = take (unat w) (drop (unat k) p) @ take (unat n - (unat k + unat w)) (drop (unat k + unat w) p)"
          by (metis take_then)
        moreover have "take (unat w) b = take (unat w) (drop (unat k) p)" using l lb d by (simp add: b_def min_def)
        ultimately show ?thesis by simp
      qed
      then show ?thesis using eq r(2) l u by auto
    qed
  qed
qed

lemma exchange_chunk:
  assumes "exchange os disk token r rid offset WIRE_PAYLOAD_CAP True e = (True, r1, e1)"
    and "serving art (chan e)" and "length token = 16"
  shows "serving art (chan e1)" and "dest e1 = dest e"
    and "take (unat (wr_served r1)) (wr_payload r1) = take (unat (wr_served r1)) (drop (unat offset) art)"
    and "unat offset + unat (wr_served r1) \<le> length art" and "EXPECTED_SIZE = word_of_nat (length art)"
    and "unat (wr_served r1) \<le> length (wr_payload r1)"
    and "wr_status r1 = WIRE_STATUS_FINAL \<Longrightarrow> unat offset + unat (wr_served r1) = length art"
    and "wr_status r1 \<noteq> WIRE_STATUS_FINAL \<Longrightarrow> wr_served r1 = WIRE_PAYLOAD_CAP"
proof -
  note x = exchange_accepts [OF assms(1) [unfolded exchange_def] assms(2)]
  then show s: "serving art (chan e1)" "dest e1 = dest e" by simp_all
  obtain r0 where r0: "wire_parse_response (ch_resp (chan e1)) token r0 = (WIRE_OK, r1)"
    "wire_check_data r1 rid offset WIRE_PAYLOAD_CAP EXPECTED_SIZE = WIRE_OK" using x by auto
  note c = chunk_is_slice [OF s(1) r0(1) assms(3) r0(2)]
  show "take (unat (wr_served r1)) (wr_payload r1) = take (unat (wr_served r1)) (drop (unat offset) art)"
    "unat offset + unat (wr_served r1) \<le> length art" "EXPECTED_SIZE = word_of_nat (length art)"
    "unat (wr_served r1) \<le> length (wr_payload r1)"
    "wr_status r1 = WIRE_STATUS_FINAL \<Longrightarrow> unat offset + unat (wr_served r1) = length art"
    "wr_status r1 \<noteq> WIRE_STATUS_FINAL \<Longrightarrow> wr_served r1 = WIRE_PAYLOAD_CAP" using c by blast+
qed

lemma store_chunk:
  assumes "unat (wr_served r) \<le> length (wr_payload r)"
  shows "\<exists>ok e'. (if wr_served r \<noteq> 0 then write_all os (wr_payload r) (wr_served r) 0 e else Some (True, e)) = Some (ok, e') \<and>
     (ok \<longrightarrow> chan e' = chan e \<and> dest e' = dest e @ take (unat (wr_served r)) (wr_payload r))"
  using write_all_returns [of 0 "wr_served r" "wr_payload r" e] assms by auto

lemma download_returns:
  "serving art (chan e) \<Longrightarrow> length token = 16 \<Longrightarrow> dest e = take (unat offset) art \<Longrightarrow> unat offset \<le> length art \<Longrightarrow>
   \<exists>res off e'. download os disk token offset rid r e = Some (res, off, e') \<and>
     res \<in> {None, Some 9, Some 10} \<and> (res = None \<longrightarrow> dest e' = take (unat off) art)"
proof (induction "unat EXPECTED_SIZE - unat offset" arbitrary: offset rid r e rule: less_induct)
  case less
  show ?case
  proof (cases "offset < EXPECTED_SIZE")
    case False
    then show ?thesis using less.prems by (subst download.simps) simp
  next
    case True
    obtain ok r1 e1 where x: "exchange os disk token r rid offset WIRE_PAYLOAD_CAP True e = (ok, r1, e1)" by (metis prod_cases3)
    show ?thesis
    proof (cases ok)
      case False
      then show ?thesis using \<open>offset < EXPECTED_SIZE\<close> x by (subst download.simps) simp
    next
      case True
      note c = exchange_chunk [OF x [unfolded eqTrueI [OF True]] less.prems(1,2)]
      obtain written e2 where w: "(if wr_served r1 \<noteq> 0 then write_all os (wr_payload r1) (wr_served r1) 0 e1 else Some (True, e1)) = Some (written, e2)"
        "written \<longrightarrow> chan e2 = chan e1 \<and> dest e2 = dest e1 @ take (unat (wr_served r1)) (wr_payload r1)"
        using store_chunk [OF c(6)] by blast
      define next_off where "next_off = offset + ucast (wr_served r1)"
      have "unat (ucast (wr_served r1) :: u64) = unat (wr_served r1)"
        by (intro unat_ucast_small less_trans [OF unsigned_less]) simp
      then have u: "unat next_off = unat offset + unat (wr_served r1)"
        using c(4) c(1) [unfolded serving_def] by (simp add: next_off_def unat_add_small)
      have step: "download os disk token offset rid r e =
        (if \<not> written then Some (Some 10, offset, os_close_dest os e2)
         else if wr_status r1 = WIRE_STATUS_FINAL then Some (None, next_off, e2)
         else download os disk token next_off (rid + 1) r1 e2)"
        using \<open>offset < EXPECTED_SIZE\<close> x w(1) True by (subst download.simps) (simp add: next_off_def)
      have d: "dest e2 = take (unat next_off) art" if written
        using w(2) that c(2,3) less.prems(3) u by (simp add: take_add)
      show ?thesis
      proof (cases "\<not> written \<or> wr_status r1 = WIRE_STATUS_FINAL")
        case True
        then show ?thesis using step d by auto
      next
        case False
        then have "unat (wr_served r1) = 65408" using c(8) by (simp add: WIRE_PAYLOAD_CAP_def)
        then have "unat EXPECTED_SIZE - unat next_off < unat EXPECTED_SIZE - unat offset"
          using u \<open>offset < EXPECTED_SIZE\<close> by (simp add: word_less_nat_alt)
        then show ?thesis using less.hyps [of next_off e2 "rid + 1" r1] False step d w(2) c(1,4) u less.prems(2) by auto
      qed
    qed
  qed
qed

lemma expected_length: "serving art ch \<Longrightarrow> EXPECTED_SIZE = word_of_nat (length art) \<Longrightarrow> unat EXPECTED_SIZE = length art"
  using unat_of_nat_small [of "length art", where 'a = 64] by (simp add: serving_def)

text \<open>The transfer returns, and reports success only with the whole artifact in the destination.\<close>

lemma transfer_sound:
  assumes "serving art (chan e)" and "length token = 16"
  shows "\<exists>code e'. transfer os disk token r0 e = Some (code, e') \<and> (code = 0 \<longrightarrow> dest e' = art)"
proof -
  obtain ok r e1 where x: "exchange os disk token r0 1 WIRE_SENTINEL 0 False e = (ok, r, e1)" by (metis prod_cases3)
  note a = exchange_accepts [OF x [unfolded exchange_def] assms(1)]
  obtain made e2 where c: "os_create os e1 = (made, e2)" by (metis surj_pair)
  note cl = create_law [OF c]
  show ?thesis
  proof (cases "ok \<and> wr_file_size r = EXPECTED_SIZE \<and> \<not> list_ex (\<lambda>j. wr_sha256 r ! j \<noteq> EXPECTED_SHA ! j) [0..<32] \<and> made")
    case False
    then show ?thesis unfolding transfer_def x prod.case Let_def c by (cases ok; cases made) auto
  next
    case True
    have s: "serving art (chan e2)" "dest e2 = take (unat (0 :: u64)) art" using a cl True by simp_all
    obtain p where p: "wire_parse_response (ch_resp (chan e1)) token p = (WIRE_OK, r)" using a True by auto
    have z: "unat EXPECTED_SIZE = length art"
      using window_read_back(5) [OF _ p assms(2), of art] a True expected_length by force
    obtain res off e3 where d: "download os disk token 0 2 r e2 = Some (res, off, e3)"
      "res \<noteq> Some 0" "res = None \<longrightarrow> dest e3 = take (unat off) art"
      using download_returns [OF s(1) assms(2) s(2), of 2 r] by auto
    obtain fl e4 where f: "os_flush os e3 = (fl, e4)" by (metis surj_pair)
    note ff = flush_law [OF f]
    show ?thesis
    proof (cases "res = None \<and> off = EXPECTED_SIZE \<and> fl")
      case True
      then have "transfer os disk token r0 e = Some (0, os_close os disk (os_close_dest os e4))"
        unfolding transfer_def x prod.case Let_def c using d f \<open>ok \<and> _\<close> by simp
      moreover have "dest e4 = art" using d(3) ff True z by simp
      ultimately show ?thesis using close_law by simp
    next
      case False
      then show ?thesis
        unfolding transfer_def x prod.case Let_def c using d f \<open>ok \<and> _\<close> by (cases res; cases fl) auto
    qed
  qed
qed

end

end
