(* ===== verification/Delivery_Properties.thy ===== *)
theory Delivery_Properties
  imports Delivery_Channel
begin

text \<open>
  The delivery end to end: the virtual disk that connects the client to the channel
  (\<^verbatim>\<open>file-delivery-s168/adapter.py\<close>), the interpretation of the link contract on it, and the two
  properties of the whole: an exit code of 0 means the exact artifact, and with a working link the
  program gets there.
\<close>

section \<open>The channel behind the virtual disk\<close>

text \<open>
  The virtual disk of \<^verbatim>\<open>file-delivery-s168/adapter.py\<close>: a one-block write at the request position goes
  to the channel and fails when the channel refuses it, a read that touches the response window is
  overlaid with it, and everything else is the image.  The destination file is a byte list.
\<close>

record link_env =
  le_chan :: channel
  le_image :: "nat \<Rightarrow> bytes"
  le_pos :: u64
  le_dest :: bytes

definition link_read :: "nat \<Rightarrow> nat \<Rightarrow> link_env \<Rightarrow> bytes" where
  "link_read lba n e =
     (let original = concat (map (le_image e) [lba..<lba + n]) in
      if lba < 129 + 16 \<and> lba + n > 129
      then (case overlay (le_chan e) lba n original of None \<Rightarrow> [] | Some d \<Rightarrow> d) else original)"

definition link_write :: "nat \<Rightarrow> bytes \<Rightarrow> link_env \<Rightarrow> bool \<times> link_env" where
  "link_write lba data e =
     (if lba = 127 \<and> length data = WIRE_BLOCK
      then (case handle_request data (le_chan e) of (ok, ch) \<Rightarrow> (ok, e\<lparr>le_chan := ch\<rparr>))
      else (False, e))"

definition linked_os :: "nat \<Rightarrow> link_env win_os" where
  "linked_os drive =
     \<lparr>os_free_space = (\<lambda>e. (Some (EXPECTED_SIZE + FREE_MARGIN), e)),
      os_alloc = (\<lambda>n e. (True, e)),
      os_open = (\<lambda>i rw e. (i = drive, e)),
      os_close = (\<lambda>i e. e),
      os_disk_length = (\<lambda>i e. (Some (NS2_LENGTH, 8), e)),
      os_seek = (\<lambda>i a e. (True, e\<lparr>le_pos := a\<rparr>)),
      os_read = (\<lambda>i n e. let d = link_read (unat (le_pos e) div WIRE_BLOCK) (unat n div WIRE_BLOCK) e
                          in (if length d = unat n then Some (n, (!) d) else None, e)),
      os_write = (\<lambda>i b e. if unat (le_pos e) mod WIRE_BLOCK \<noteq> 0 then (None, e)
                           else case link_write (unat (le_pos e) div WIRE_BLOCK) b e of
                                  (ok, e') \<Rightarrow> (if ok then Some (word_of_nat (length b)) else None, e')),
      os_sleep = (\<lambda>t e. e),
      os_create = (\<lambda>e. (True, e\<lparr>le_dest := []\<rparr>)),
      os_append = (\<lambda>b e. let n = min (length b) 65408 in (Some (word_of_nat n), e\<lparr>le_dest := le_dest e @ take n b\<rparr>)),
      os_flush = (\<lambda>e. (True, e)),
      os_close_dest = (\<lambda>e. e)\<rparr>"

lemma overlay_window:
  assumes "overlay ch 129 16 original = Some d" and "length (ch_resp ch) = 65536"
  shows "d = ch_resp ch"
  using assms by (auto simp: overlay_def WIRE_BLOCK_def Let_def split: if_splits)

interpretation linked: delivery_link "linked_os drive" drive le_chan le_dest le_pos for drive
proof unfold_locales
  fix n :: u32 and e e' :: link_env and buf
  assume a: "os_read (linked_os drive) drive (word_of_nat WIRE_WINDOW_BYTES) e = (Some (word_of_nat WIRE_WINDOW_BYTES, buf), e')"
    and b: "le_pos e = WIRE_RESP_LBA * 4096" and c: "length (ch_resp (le_chan e)) = WIRE_WINDOW_BYTES"
  define d where "d = link_read 129 16 e"
  have k: "length d = 65536" "buf = (!) d"
    using a b by (auto simp: linked_os_def Let_def d_def WIRE_RESP_LBA_def WIRE_BLOCK_def WIRE_WINDOW_BYTES_def split: if_splits)
  then have "overlay (le_chan e) 129 16 (concat (map (le_image e) [129..<129 + 16])) = Some d"
    by (auto simp: d_def link_read_def Let_def split: option.splits)
  then have "d = ch_resp (le_chan e)" using c by (intro overlay_window) (simp_all add: WIRE_WINDOW_BYTES_def)
  then show "map buf [0..<WIRE_WINDOW_BYTES] = ch_resp (le_chan e)" using k c map_nth [of d] by simp
next
  fix b :: bytes and e e' :: link_env and wr
  assume "os_write (linked_os drive) drive b e = (wr, e')"
  then show "le_dest e' = le_dest e \<and> (le_chan e' = le_chan e \<or> le_pos e = WIRE_REQ_LBA * 4096 \<and> le_chan e' = snd (handle_request b (le_chan e)))"
  proof (cases "unat (le_pos e) mod WIRE_BLOCK = 0 \<and> unat (le_pos e) div WIRE_BLOCK = 127")
    case True
    then have "unat (le_pos e) = unat (WIRE_REQ_LBA * 4096)"
      using div_mult_mod_eq [of "unat (le_pos e)" 4096] by (simp add: WIRE_REQ_LBA_def WIRE_BLOCK_def)
    then have "le_pos e = WIRE_REQ_LBA * 4096" by (simp only: word_unat_eq_iff)
    then show ?thesis using \<open>os_write _ _ _ _ = _\<close>
      by (auto simp: linked_os_def link_write_def split: prod.splits if_splits)
  next
    case False
    then show ?thesis using \<open>os_write _ _ _ _ = _\<close> by (auto simp: linked_os_def link_write_def split: if_splits)
  qed
next
  fix b :: bytes and e e' :: link_env and w
  assume "os_append (linked_os drive) b e = (Some w, e')"
  moreover have "unat (word_of_nat (min (length b) 65408) :: u32) = min (length b) 65408" by (rule unat_of_nat_small) (simp add: min_def)
  ultimately show "le_chan e' = le_chan e \<and> unat w \<le> length b \<and> le_dest e' = le_dest e @ take (unat w) b"
    by (auto simp: linked_os_def Let_def)
qed (auto simp: linked_os_def Let_def split: if_splits)

section \<open>The download completes\<close>

lemma request_latched:
  assumes "serving art ch" and "rid \<noteq> 0" and "\<forall>q. ch_req ch = Some q \<longrightarrow> req_id q < rid"
    and "off = WIRE_SENTINEL \<and> len = 0 \<and> nr = Req_Manifest rid \<or>
         off \<noteq> WIRE_SENTINEL \<and> 1 \<le> len \<and> len \<le> WIRE_PAYLOAD_CAP \<and> unat off \<le> length art \<and> nr = Req_Data rid off len"
  shows "handle_request (wire_build_request (ch_token ch) rid off len) ch =
     (True, ch\<lparr>ch_req := Some nr, ch_resp := build_window (ch_token ch) art (ch_sha256 ch) (Some nr)\<rparr>)"
proof -
  note s = assms(1) [unfolded serving_def]
  have p: "parse_request (ch_token ch) (wire_build_request (ch_token ch) rid off len) = Some (rid, off, len)"
    using s assms(2) by (intro request_parsed) simp_all
  have i: "req_id nr = rid" using assms(4) by auto
  then have "ch_req ch \<noteq> Some nr" using assms(3) by auto
  moreover have "\<not> rid \<le> (case ch_req ch of None \<Rightarrow> 0 | Some r \<Rightarrow> req_id r)"
    using assms(2,3) by (auto simp: not_le word_coorder.not_eq_extremum split: option.splits)
  ultimately show ?thesis using s p assms(4) by (auto simp: handle_request_def)
qed

lemma length_blocks: "(\<And>l. length (img l) = 4096) \<Longrightarrow> length (concat (map img [a..<a + n])) = n * 4096"
  by (induction n) simp_all

lemma length_request: "length token = 16 \<Longrightarrow> length (wire_build_request token rid off len) = 4096"
  by (simp add: build_request_image request_head_def)

text \<open>One exchange over the linked disk succeeds at the first attempt.\<close>

lemma linked_exchange:
  assumes "serving art (le_chan e)" and "\<And>l. length (le_image e l) = 4096" and "ch_sha256 (le_chan e) = EXPECTED_SHA"
    and "handle_request (wire_build_request (ch_token (le_chan e)) rid off len) (le_chan e) = (True, ch)"
    and "q = reply_of art (ch_sha256 ch) (ch_req ch)" and "ch_token ch = ch_token (le_chan e)" and "ch_sha256 ch = EXPECTED_SHA"
    and "(if mode then wire_check_data q rid off len EXPECTED_SIZE else wire_check_manifest q rid) = WIRE_OK"
  shows "exchange (linked_os drive) drive (ch_token (le_chan e)) r rid off len mode e =
     (True, read_reply ch q, e\<lparr>le_chan := ch, le_pos := WIRE_RESP_LBA * 4096\<rparr>)"
proof -
  let ?t = "ch_token (le_chan e)"
  define e1 where "e1 = e\<lparr>le_pos := WIRE_REQ_LBA * 4096, le_chan := ch\<rparr>"
  have sv: "serving art ch" using handle_serving [OF assms(1), of "wire_build_request ?t rid off len"] assms(4) by simp
  note p = reply_parsed [OF sv]
  have lr: "length (wire_build_request ?t rid off len) = 4096" using assms(1) by (intro length_request) (simp add: serving_def)
  have 1: "put_request (linked_os drive) drive ?t rid off len e = (True, e1)"
    using assms(4) lr by (simp add: put_request_def linked_os_def link_write_def WIRE_BLOCK_def WIRE_REQ_LBA_def e1_def)
  have "link_read 129 16 (e1\<lparr>le_pos := WIRE_RESP_LBA * 4096\<rparr>) = ch_resp ch"
    using length_blocks [of "le_image e" 129 16] assms(2) p(4) sv
    by (simp add: link_read_def e1_def overlay_def Let_def WIRE_BLOCK_def serving_def)
  then have 2: "get_window (linked_os drive) drive e1 = (Some (ch_resp ch), e1\<lparr>le_pos := WIRE_RESP_LBA * 4096\<rparr>)"
    using p(4) map_nth [of "ch_resp ch"]
    by (simp add: get_window_def linked_os_def WIRE_RESP_LBA_def WIRE_BLOCK_def WIRE_WINDOW_BYTES_def)
  have 3: "wire_check_data (read_reply ch q) rid off len EXPECTED_SIZE = wire_check_data q rid off len EXPECTED_SIZE"
    "wire_check_manifest (read_reply ch q) rid = wire_check_manifest q rid"
    by (simp_all add: wire_check_data_def wire_check_manifest_def read_reply_def)
  have 4: "\<not> list_ex (\<lambda>j. wr_sha256 (read_reply ch q) ! j \<noteq> EXPECTED_SHA ! j) [0..<32]"
  proof -
    have "drop 64 (ch_resp ch) ! j = EXPECTED_SHA ! j" if "j < 32" for j
      using p(6) assms(7) that by (metis nth_take)
    then show ?thesis unfolding list_ex_upt read_reply_def by simp
  qed
  have "attempt (linked_os drive) drive ?t rid off len mode r e = (True, read_reply ch q, e1\<lparr>le_pos := WIRE_RESP_LBA * 4096\<rparr>)"
    unfolding attempt_def 1 prod.case bool.case 2 option.case using p(1) [of r] assms(5,6,8) 3 4 by (cases mode) simp_all
  then show ?thesis by (simp add: exchange_def MAX_TRIES_def numeral_3_eq_3 e1_def)
qed

lemma linked_write_all:
  assumes "unat n \<le> 65408" and "unat n \<le> length p"
  shows "(if n \<noteq> 0 then write_all (linked_os drive) p n 0 e else Some (True, e)) = Some (True, e\<lparr>le_dest := le_dest e @ take (unat n) p\<rparr>)"
proof (cases "n = 0")
  case False
  then have "0 < n" by (simp add: word_coorder.not_eq_extremum)
  moreover have "write_all (linked_os drive) p n n e' = Some (True, e')" for e' by (subst write_all.simps) simp
  ultimately show ?thesis
    using assms False by (subst write_all.simps) (simp add: linked_os_def min_absorb1)
qed simp

lemma data_reply:
  assumes "length art = unat EXPECTED_SIZE" and "off < EXPECTED_SIZE"
    and "q = reply_of art sha (Some (Req_Data rid off WIRE_PAYLOAD_CAP))"
  shows "wire_check_data q rid off WIRE_PAYLOAD_CAP EXPECTED_SIZE = WIRE_OK"
    and "unat (wr_served q) = min 65408 (length art - unat off)"
    and "wr_status q = (if length art - unat off \<ge> 65408 then WIRE_STATUS_DATA else WIRE_STATUS_FINAL)"
proof -
  let ?m = "min 65408 (length art - unat off)"
  have cap: "unat WIRE_PAYLOAD_CAP = 65408" by (simp add: WIRE_PAYLOAD_CAP_def)
  have u: "unat (word_of_nat ?m :: u32) = ?m" by (rule unat_of_nat_small) (simp add: min_def)
  show m: "unat (wr_served q) = ?m" using u by (simp add: assms(3) reply_of_def Let_def cap)
  show st: "wr_status q = (if length art - unat off \<ge> 65408 then WIRE_STATUS_DATA else WIRE_STATUS_FINAL)"
    by (simp add: assms(3) reply_of_def Let_def cap min_def)
  have f: "wr_id q = rid" "wr_offset q = off" "wr_file_size q = EXPECTED_SIZE"
    using assms(1) by (simp_all add: assms(3) reply_of_def Let_def)
  have uc: "unat (ucast (wr_served q) :: u64) = ?m" using m by (subst unat_ucast_small) (simp_all add: min_def)
  have d: "unat (EXPECTED_SIZE - off) = length art - unat off" using assms(1) unat_diff_small [of off EXPECTED_SIZE] assms(2) by (simp add: order.strict_implies_order)
  have le: "\<not> off > EXPECTED_SIZE" "\<not> ucast (wr_served q) > EXPECTED_SIZE - off"
    using assms(2) uc d by (simp_all add: word_less_nat_alt)
  have full: "wr_served q = WIRE_PAYLOAD_CAP" if "length art - unat off \<ge> 65408"
    using m that cap by (simp add: word_unat_eq_iff)
  have short: "\<not> wr_served q \<ge> WIRE_PAYLOAD_CAP" "off + ucast (wr_served q) = EXPECTED_SIZE" if "\<not> length art - unat off \<ge> 65408"
  proof -
    show "\<not> wr_served q \<ge> WIRE_PAYLOAD_CAP" using m that cap by (simp add: word_le_nat_alt)
    have "ucast (wr_served q) = EXPECTED_SIZE - off" using uc d that by (simp add: word_unat_eq_iff)
    then show "off + ucast (wr_served q) = EXPECTED_SIZE" by simp
  qed
  show "wire_check_data q rid off WIRE_PAYLOAD_CAP EXPECTED_SIZE = WIRE_OK"
    using f le st full short by (auto simp: wire_check_data_def WIRE_STATUS_DATA_def WIRE_STATUS_FINAL_def)
qed

text \<open>The state of the link between two chunks.\<close>

definition chunk_state :: "bytes \<Rightarrow> bytes \<Rightarrow> u64 \<Rightarrow> u32 \<Rightarrow> link_env \<Rightarrow> bool" where
  "chunk_state art token off rid e \<longleftrightarrow>
     serving art (le_chan e) \<and> ch_token (le_chan e) = token \<and> ch_sha256 (le_chan e) = EXPECTED_SHA \<and>
     (\<forall>l. length (le_image e l) = 4096) \<and> length art = unat EXPECTED_SIZE \<and> unat off \<le> length art \<and>
     2 \<le> unat rid \<and> unat off \<ge> 65408 * (unat rid - 2) \<and> (\<forall>q. ch_req (le_chan e) = Some q \<longrightarrow> req_id q < rid)"

lemma chunk_step:
  assumes "chunk_state art token off rid e" and "off < EXPECTED_SIZE"
  obtains r1 e1 where "exchange (linked_os drive) drive token r rid off WIRE_PAYLOAD_CAP True e = (True, r1, e1)"
    and "unat (wr_served r1) = min 65408 (length art - unat off)"
    and "wr_status r1 = (if length art - unat off \<ge> 65408 then WIRE_STATUS_DATA else WIRE_STATUS_FINAL)"
    and "unat (wr_served r1) \<le> length (wr_payload r1)"
    and "\<And>d. length art - unat off \<ge> 65408 \<Longrightarrow> chunk_state art token (off + ucast (wr_served r1)) (rid + 1) (e1\<lparr>le_dest := d\<rparr>)"
proof -
  note c = assms(1) [unfolded chunk_state_def]
  let ?ch = "le_chan e" and ?nr = "Req_Data rid off WIRE_PAYLOAD_CAP"
  define ch where "ch = ?ch\<lparr>ch_req := Some ?nr, ch_resp := build_window token art EXPECTED_SHA (Some ?nr)\<rparr>"
  define q where "q = reply_of art EXPECTED_SHA (Some ?nr)"
  note dr = data_reply [OF _ assms(2) q_def]
  have e10: "unat EXPECTED_SIZE = 783373346" by (simp add: EXPECTED_SIZE_def)
  have "off \<noteq> WIRE_SENTINEL" using assms(2) by (auto simp: EXPECTED_SIZE_def WIRE_SENTINEL_def)
  moreover have "rid \<noteq> 0" using c by auto
  ultimately have h: "handle_request (wire_build_request token rid off WIRE_PAYLOAD_CAP) ?ch = (True, ch)"
    using c request_latched [of art ?ch rid off WIRE_PAYLOAD_CAP ?nr] by (auto simp: ch_def WIRE_PAYLOAD_CAP_def)
  have sv: "serving art ch" using handle_serving [of art ?ch] h c by (metis snd_conv)
  have x: "exchange (linked_os drive) drive token r rid off WIRE_PAYLOAD_CAP True e =
      (True, read_reply ch q, e\<lparr>le_chan := ch, le_pos := WIRE_RESP_LBA * 4096\<rparr>)"
    using linked_exchange [of art e rid off WIRE_PAYLOAD_CAP ch q True drive r] c h dr(1)
    by (simp add: ch_def q_def)
  have pl: "unat (wr_served q) \<le> length (wr_payload (read_reply ch q))"
    using dr(2) c by (simp add: read_reply_def)
  have nx: "chunk_state art token (off + ucast (wr_served q)) (rid + 1) (e\<lparr>le_chan := ch, le_pos := WIRE_RESP_LBA * 4096, le_dest := d\<rparr>)"
    if "length art - unat off \<ge> 65408" for d
  proof -
    have s: "unat (wr_served q) = 65408" using dr(2) c that by simp
    then have "unat (ucast (wr_served q) :: u64) = 65408" by (subst unat_ucast_small) simp_all
    then have o: "unat (off + ucast (wr_served q)) = unat off + 65408" using that c e10 by (subst unat_add_small) simp_all
    have "65408 * (unat rid - 2) \<le> 783373346" using c e10 by linarith
    then have "unat rid < 2 ^ 20" by simp
    then have i: "unat (rid + 1) = unat rid + 1" by (subst unat_add_small) simp_all
    then have "rid < rid + 1" by (simp add: word_less_nat_alt)
    then show ?thesis using c sv o i that unfolding chunk_state_def by (auto simp: ch_def)
  qed
  show ?thesis
    by (rule that [OF x]) (use dr c pl nx in \<open>simp_all add: read_reply_def\<close>)
qed

lemma linked_download:
  "chunk_state art token off rid e \<Longrightarrow>
   \<exists>e'. download (linked_os drive) drive token off rid r e = Some (None, EXPECTED_SIZE, e')"
proof (induction "unat EXPECTED_SIZE - unat off" arbitrary: off rid r e rule: less_induct)
  case less
  note c = less.prems [unfolded chunk_state_def]
  show ?case
  proof (cases "off < EXPECTED_SIZE")
    case False
    then have "off = EXPECTED_SIZE" using c by (simp add: word_less_nat_alt word_unat_eq_iff)
    then show ?thesis by (subst download.simps) simp
  next
    case True
    obtain r1 e1 where x: "exchange (linked_os drive) drive token r rid off WIRE_PAYLOAD_CAP True e = (True, r1, e1)"
      "unat (wr_served r1) = min 65408 (length art - unat off)"
      "wr_status r1 = (if length art - unat off \<ge> 65408 then WIRE_STATUS_DATA else WIRE_STATUS_FINAL)"
      "unat (wr_served r1) \<le> length (wr_payload r1)"
      "\<And>d. length art - unat off \<ge> 65408 \<Longrightarrow> chunk_state art token (off + ucast (wr_served r1)) (rid + 1) (e1\<lparr>le_dest := d\<rparr>)"
      by (rule chunk_step [OF less.prems True]) blast
    define e2 where "e2 = e1\<lparr>le_dest := le_dest e1 @ take (unat (wr_served r1)) (wr_payload r1)\<rparr>"
    have w: "(if wr_served r1 \<noteq> 0 then write_all (linked_os drive) (wr_payload r1) (wr_served r1) 0 e1 else Some (True, e1)) = Some (True, e2)"
      unfolding e2_def using x(2,4) by (intro linked_write_all) simp_all
    have step: "download (linked_os drive) drive token off rid r e =
        (if wr_status r1 = WIRE_STATUS_FINAL then Some (None, off + ucast (wr_served r1), e2)
         else download (linked_os drive) drive token (off + ucast (wr_served r1)) (rid + 1) r1 e2)"
      using True x(1) w by (subst download.simps) simp
    have uc: "unat (ucast (wr_served r1) :: u64) = unat (wr_served r1)" by (rule unat_ucast_small) (simp add: x(2) min_def)
    have u: "unat (off + ucast (wr_served r1)) = unat off + unat (wr_served r1)"
      using c x(2) uc unsigned_less [of EXPECTED_SIZE] by (subst unat_add_small) (auto simp: min_def)
    show ?thesis
    proof (cases "length art - unat off \<ge> 65408")
      case False
      then have "off + ucast (wr_served r1) = EXPECTED_SIZE" using c u x(2) by (simp add: word_unat_eq_iff)
      then show ?thesis using step x(3) False by simp
    next
      case full: True
      have "unat EXPECTED_SIZE - unat (off + ucast (wr_served r1)) < unat EXPECTED_SIZE - unat off"
        using u x(2) full c by simp
      from less.hyps [OF this x(5) [OF full]] show ?thesis
        using step x(3) full by (simp add: e2_def WIRE_STATUS_DATA_def WIRE_STATUS_FINAL_def)
    qed
  qed
qed

lemma manifest_reply:
  assumes "length art = unat EXPECTED_SIZE" and "q = reply_of art sha (Some (Req_Manifest rid))"
  shows "wire_check_manifest q rid = WIRE_OK" and "wr_file_size q = EXPECTED_SIZE"
  using assms by (simp_all add: wire_check_manifest_def reply_of_def Let_def)

lemma linked_transfer:
  assumes "serving art (le_chan e)" and "\<And>l. length (le_image e l) = 4096" and "ch_sha256 (le_chan e) = EXPECTED_SHA"
    and "ch_req (le_chan e) = None" and "length art = unat EXPECTED_SIZE"
  shows "\<exists>e'. transfer (linked_os drive) drive (ch_token (le_chan e)) r0 e = Some (0, e')"
proof -
  let ?ch = "le_chan e" and ?nr = "Req_Manifest 1"
  define ch where "ch = ?ch\<lparr>ch_req := Some ?nr, ch_resp := build_window (ch_token ?ch) art EXPECTED_SHA (Some ?nr)\<rparr>"
  define q where "q = reply_of art EXPECTED_SHA (Some ?nr)"
  note mr = manifest_reply [OF assms(5) q_def]
  have h: "handle_request (wire_build_request (ch_token ?ch) 1 WIRE_SENTINEL 0) ?ch = (True, ch)"
    using request_latched [OF assms(1), of 1 WIRE_SENTINEL 0 ?nr] assms(3,4) by (simp add: ch_def)
  define e1 where "e1 = e\<lparr>le_chan := ch, le_pos := WIRE_RESP_LBA * 4096\<rparr>"
  have x: "exchange (linked_os drive) drive (ch_token ?ch) r0 1 WIRE_SENTINEL 0 False e = (True, read_reply ch q, e1)"
    using linked_exchange [OF assms(1-3) h, of q False drive r0] mr(1) assms(3) by (simp add: ch_def q_def e1_def)
  have sv: "serving art ch" using handle_serving [OF assms(1)] h by (metis snd_conv)
  have c0: "chunk_state art (ch_token ?ch) 0 2 (e1\<lparr>le_dest := []\<rparr>)"
    using sv assms(2,3,5) by (auto simp: chunk_state_def e1_def ch_def word_less_nat_alt)
  obtain e2 where d: "download (linked_os drive) drive (ch_token ?ch) 0 2 (read_reply ch q) (e1\<lparr>le_dest := []\<rparr>) = Some (None, EXPECTED_SIZE, e2)"
    using linked_download [OF c0] by blast
  have s: "\<not> list_ex (\<lambda>j. wr_sha256 (read_reply ch q) ! j \<noteq> EXPECTED_SHA ! j) [0..<32]"
  proof -
    have "drop 64 (ch_resp ch) ! j = EXPECTED_SHA ! j" if "j < 32" for j
      using reply_parsed(6) [OF sv] assms(3) that by (simp add: ch_def) (metis nth_take)
    then show ?thesis unfolding list_ex_upt read_reply_def by simp
  qed
  have f: "wr_file_size (read_reply ch q) = EXPECTED_SIZE" using mr(2) by (simp add: read_reply_def)
  have o: "os_create (linked_os drive) e1 = (True, e1\<lparr>le_dest := []\<rparr>)" "os_flush (linked_os drive) e2 = (True, e2)"
    by (simp_all add: linked_os_def)
  show ?thesis unfolding transfer_def x prod.case bool.case Let_def o using s f d o by simp
qed

section \<open>Properties\<close>

definition identified :: "bytes \<Rightarrow> (nat \<Rightarrow> bytes) \<Rightarrow> bool" where
  "identified token img \<longleftrightarrow> (\<forall>l. length (img l) = 4096) \<and> wire_rd32 (drop 440 (img 0)) = MBR_SIG \<and>
     img 0 ! 510 = 0x55 \<and> img 0 ! 511 = 0xaa \<and> take 16 (img 128) = PORT_MAGIC \<and> take 16 (drop 16 (img 128)) = token"




text \<open>
  C38. Exact delivery.  Over any link that keeps the contract of the drive and the destination, with
  calls failing at any time and requests lost, the transfer always returns, and exit code 0 means
  that the destination holds exactly the artifact the host registered.
\<close>

theorem delivery_exact:
  assumes "delivery_link os disk chan dest position"
    and "channel_init token = Some ch0" and "channel_register sha artifact ch0 = Some (chan e)"
    and "length (sha artifact) = 32" and "length artifact < 2 ^ 64"
  shows "\<exists>code e'. transfer os disk token r0 e = Some (code, e') \<and> (code = 0 \<longrightarrow> dest e' = artifact)"
proof (rule delivery_link.transfer_sound [OF assms(1)])
  show "serving artifact (chan e)" using assms(2-5) by (rule register_serving)
  show "length token = 16" using assms(2) by (simp add: channel_init_def split: if_splits)
qed


definition sample_image :: "nat \<Rightarrow> bytes" where
  "sample_image l =
     (if l = 0 then replicate 440 0 @ le_bytes 4 MBR_SIG @ replicate 66 0 @ [0x55, 0xaa] @ replicate 3584 0
      else if l = 128 then PORT_MAGIC @ replicate 16 5 @ replicate 4064 0
      else replicate 4096 0)"

definition sample_link :: "bytes \<Rightarrow> link_env" where
  "sample_link art =
     \<lparr>le_chan = \<lparr>ch_token = replicate 16 5, ch_artifact = Some art, ch_sha256 = EXPECTED_SHA, ch_req = None,
                 ch_resp = build_window (replicate 16 5) art EXPECTED_SHA None\<rparr>,
      le_image = sample_image, le_pos = 0, le_dest = [1, 2, 3]\<rparr>"

lemma sample_registered:
  "channel_init (replicate 16 5) = Some \<lparr>ch_token = replicate 16 5, ch_artifact = None, ch_sha256 = [], ch_req = None, ch_resp = []\<rparr>"
  "channel_register (\<lambda>_. EXPECTED_SHA) art \<lparr>ch_token = replicate 16 5, ch_artifact = None, ch_sha256 = [], ch_req = None, ch_resp = []\<rparr>
     = Some (le_chan (sample_link art))"
  by (simp_all add: channel_init_def channel_register_def sample_link_def)

lemma sample_identified: "identified (replicate 16 5) (le_image (sample_link art))"
proof -
  have "drop 440 (sample_image 0) = le_bytes 4 MBR_SIG @ replicate 66 0 @ [0x55, 0xaa] @ replicate 3584 0"
    by (simp add: sample_image_def)
  then show ?thesis
    by (simp add: identified_def sample_link_def wire32.read_written) (simp add: sample_image_def nth_append PORT_MAGIC_def)
qed

theorem delivery_exact_witness:
  "\<exists>e'. transfer (linked_os 0) 0 (replicate 16 5) sample_resp (sample_link (replicate (unat EXPECTED_SIZE) 65)) = Some (0, e') \<and>
     le_dest e' = replicate (unat EXPECTED_SIZE) 65"
proof -
  let ?a = "replicate (unat EXPECTED_SIZE) 65 :: bytes"
  have l: "length (EXPECTED_SHA) = 32" "length ?a < 2 ^ 64"
    using unsigned_less [of EXPECTED_SIZE] by (simp_all add: EXPECTED_SHA_def)
  have "serving ?a (le_chan (sample_link ?a))" using l by (intro register_serving [OF sample_registered]) simp_all
  then obtain e' where z: "transfer (linked_os 0) 0 (replicate 16 5) sample_resp (sample_link ?a) = Some (0, e')"
    using linked_transfer [of ?a "sample_link ?a" 0 sample_resp] sample_identified [of ?a]
    by (auto simp: sample_link_def identified_def)
  then show ?thesis
    using delivery_exact [OF linked.delivery_link_axioms sample_registered l, of 0 sample_resp] by simp
qed


end
