(* ===== verification/Spec2Isabelle.thy ===== *)
theory Spec2Isabelle
  imports Hw_Rtc Nvme_Properties Stage2_Properties Abort_Properties Fastpath_Properties Cpu_Pstate Guest_Memory Dart_Translate Read_Mirror Delivery_Properties
begin

text \<open>
  \<^bold>\<open>NWOAS: a verification library for the firmware, the hypervisor and the storage model.\<close>

  NWOAS boots Windows on an Apple M1 machine under a small hypervisor.  The repository keeps one
  directory per working session under \<^verbatim>\<open>src/NWOAS/nwoas_scripts\<close>; this library models the last
  version of each C component and leaves the earlier copies aside.  The parts and how they meet:

  \<^item> The firmware (\<^verbatim>\<open>firmware-s216\<close>, \<^verbatim>\<open>memory-s161\<close>) computes the memory layout from the boot
    arguments, checks the handoff ranges the loader (\<^verbatim>\<open>loader-s215\<close>) chose, raises the CPU operating
    point and gives Windows a clock that starts from a seed and the PMU counter.
  \<^item> The hypervisor (\<^verbatim>\<open>nvme-s208/hv_vm-s208.c\<close>) keeps the stage-2 tables of the guest.  A guest access
    that faults is decoded and emulated: on memory, on a hooked device or through the host proxy.  The
    I/O doorbells of the synthetic NVMe controller are served there directly, by the fast path.
  \<^item> The synthetic NVMe controller (\<^verbatim>\<open>native-s209\<close> to \<^verbatim>\<open>native-s228\<close>) answers register and admin
    queue traffic: registers, response payloads, admin state, admin ring and the frontend around them.
  \<^item> The USB helper (\<^verbatim>\<open>usb-s175\<close>) programs one stream of a translation unit.

  \<^bold>\<open>Conventions.\<close>  C integers are words of their width and wrap as in C; counts that cannot wrap are
  natural numbers.  Structures are records with the members of the source, enumerations are datatypes,
  status codes are values, null pointers and missing callbacks are \<open>None\<close>.  Code outside the
  repository (devices, guest memory, the host proxy, the drive, the address-translation instruction) is
  an argument of the definitions that use it, over an arbitrary environment type.  Failed assertions
  and wild pointers of the table code are the result \<open>None\<close>.  Loops with a budget or a timeout in the
  source are recursions on that budget, so every definition is total and nothing is left to fuel.

  \<^bold>\<open>Shared theories.\<close>  \<open>Nwoas_Prelude\<close> has the C types, the word lemmas and the little-endian codec with
  its interface \<open>le_reader\<close>; \<open>Mmio_Bus\<close> has register access with an event log and the interface
  \<open>mmio_driver\<close> of a driver with bounded, permitted writes; \<open>Completion_Queue\<close> has the interface
  \<open>completion_cursor\<close> of a completion queue, interpreted by the admin ring and by the I/O fast path.

  \<^bold>\<open>Clock.\<close>
  \<^item> \<open>Gregorian\<close>: the reference calendar.  \<open>Rtc_Seed\<close> and \<open>Rtc_Calendar\<close>: \<^verbatim>\<open>NwoasRtcSeedCore.c\<close>; a seed is
    accepted exactly when its fields are valid, advancing it by the counter is exact division without
    wrap-around, and the two calendar conversions are inverse to each other and to the reference.
  \<^item> \<open>Sera_Rtc\<close>: \<^verbatim>\<open>nwoas_sera_rtc.c\<close>; the read sequence issues only read commands within its poll cap,
    whatever the bus answers, and a good result decodes the counter and the stored offset.
  \<^item> \<open>Hw_Rtc\<close>: \<^verbatim>\<open>NwoasHardwareBootRtcLib.c\<close>; initialisation, reading the time and the operations that
    refuse.

  \<^bold>\<open>Synthetic NVMe controller.\<close>  \<open>Nvme_Control\<close> (\<^verbatim>\<open>model.c\<close>), \<open>Admin_Payload\<close> (\<^verbatim>\<open>admin_payload.c\<close>),
  \<open>Admin_State\<close> (\<^verbatim>\<open>admin_state.c\<close>), \<open>Admin_Ring\<close> (\<^verbatim>\<open>admin_ring.c\<close>), \<open>Nvme_Frontend\<close> (\<^verbatim>\<open>frontend.c\<close>).  The
  callbacks the registers and the ring rely on are the interfaces \<open>control_callbacks\<close> and
  \<open>ring_callbacks\<close>, interpreted on the tables the frontend installs.  \<open>Nvme_Properties\<close>: every state the
  frontend reaches keeps its invariant, a backend fault is final, polls are bounded, admin completions
  are first-in first-out, and responses stay in their window.

  \<^bold>\<open>Stage-2 tables.\<close>  \<open>Stage2_Tables\<close> models initialisation, splitting, mapping and walking.  \<open>Stage2_Access\<close>
  says what tables mean, \<open>Stage2_Mapping\<close> proves one level once in the interface \<open>map_level\<close> and
  interprets it for the three loops.  \<open>Stage2_Properties\<close>: mapping refines the update of a flat address
  space, unmapping undoes it, splitting keeps the meaning, and the tables stay well formed.

  \<^bold>\<open>Data aborts.\<close>  \<open>Ldst_Emulation\<close> models the decoder, \<open>Mmio_Emulation\<close> the guarded accesses and the
  dispatch, \<open>Data_Abort\<close> the handler.  \<open>Mmio_Memory\<close> proves, in the interface \<open>aligned_memory\<close>, that an
  access split into chunks is one copy.  \<open>Abort_Properties\<close>: a trapped load or store on memory does what
  the instruction says, refused accesses have no effect, a processor that keeps faulting is parked, and
  the serial capture keeps the end of the output.

  \<^bold>\<open>NVMe I/O fast path.\<close>  \<open>Nvme_Fastpath\<close> models the \<^verbatim>\<open>nwoas_nvme_fastpath_*\<close> functions.  The host proxy
  may make control calls while a request is out; that it makes only these, and fewer than \<open>2 ^ 32\<close> of
  them in one request (the width of the epoch), is the interface \<open>link_host\<close>.  \<open>Fastpath_Invariant\<close>:
  every entry point keeps both queues well formed.  \<open>Fastpath_Properties\<close>: the reachable states, the
  write window, the fault latch, completions in order, and that polling drains the queue.

  \<^bold>\<open>Platform helpers.\<close>  \<open>Cpu_Pstate\<close> (\<^verbatim>\<open>NwoasCpuPstate.h\<close>): what the operating-point helper may write and
  what its status promises, for every controller.  \<open>Guest_Memory\<close> (\<^verbatim>\<open>NwoasGuestRam.h\<close>,
  \<^verbatim>\<open>NwoasSplitMemoryMap.h\<close>, \<^verbatim>\<open>handoff_layout.h\<close>, \<^verbatim>\<open>NwoasHandoffRanges.h\<close>): disjoint ranges, a bijective
  window, a memory map split that describes the same pages, and a loader placement the firmware accepts.
  \<open>Dart_Translate\<close> (\<^verbatim>\<open>s175_dart1_translate.c\<close>): the helper touches only its stream and reports success
  or restore only after a readback.

  \<^bold>\<open>Next.\<close>  The register read mirror (\<^verbatim>\<open>native-s224\<close>) against the register model, the hypervisor adapter
  (\<^verbatim>\<open>native-s230\<close>), and the fast path as the parameter of the aligned access.

  \<^bold>\<open>Not modelled.\<close>  Within the hypervisor file: the tracking of DMA tables and the USB diagnostics,
  which read structures laid out by hardware and by the guest's drivers, and console output.  Beyond it:
  earlier session snapshots of the same files, generated tables, vendored reference drivers, host tools
  and scripts, Windows clients, and boot-service glue.  Memory barriers and caches have no model: each
  handler runs as one step, which the big lock of the hypervisor and the halted or quiescent devices of
  the helpers provide.
\<close>

end
